theory Spec2Isabelle
  imports Complex_Main "HOL-Library.AList"
begin

section \<open>The resumable deployment script as a state-and-error computation\<close>

text \<open>
  The script \<^verbatim>\<open>main()\<close> keeps one mutable object, \<^verbatim>\<open>deploymentState\<close>, writes it
  to \<^verbatim>\<open>deployment-state.json\<close> after most mutations, and talks to a chain client
  (\<^verbatim>\<open>provider\<close>, contract factories, contract handles), the file system and the clock.
  Here the mutable object, the state file and a log of the external calls are fields
  of an explicit run state; every external collaborator is a field of an environment
  record that maps the collaborator's own state (the type variable \<open>'w\<close>) and the call's
  arguments to an answer and a new collaborator state. A JavaScript exception is the
  left injection of the result; the run state survives it, as the file on disk does.
\<close>

subsection \<open>Data\<close>

text \<open>A thrown \<^verbatim>\<open>Error\<close>, identified by its \<^verbatim>\<open>message\<close>.\<close>

datatype error = Error (message: string)

text \<open>
  \<^verbatim>\<open>deploymentState.progress\<close>. The four configuration flags live inside this object
  in the source; a flag that is absent (\<^verbatim>\<open>undefined\<close>) is falsy and is \<open>False\<close> here.
  The step numbers are the decimal literals \<^verbatim>\<open>0, 1, 1.1, \<dots>, 8\<close>, kept as rationals.
\<close>

record Progress =
  step :: rat
  description :: string
  lastUpdated :: "nat option"
  versionConfigured :: bool
  identityFactoryConfigured :: bool
  trexFactoryConfigured :: bool
  iaFactoryConfigured :: bool

text \<open>
  \<^verbatim>\<open>deploymentState\<close>. \<^verbatim>\<open>contracts\<close> is a JavaScript object with string keys: an
  association list with distinct keys in insertion order. Time stamps are clock
  readings (milliseconds), not their ISO rendering.
\<close>

record DeploymentState =
  timestamp :: nat
  network :: nat
  deployer :: "string option"
  contracts :: "(string \<times> string) list"
  progress :: Progress
  completed :: bool
  completedAt :: "nat option"

text \<open>What \<^verbatim>\<open>deployment-state.json\<close> holds: nothing, something that does not parse, or a state.\<close>

datatype state_file = NoFile | Garbage | LedgerFile DeploymentState

text \<open>An \<^verbatim>\<open>ethers.ContractFactory\<close>, identified by the artifact file it was built from.\<close>

datatype factory = Factory (artifactPath: string)

text \<open>A contract handle, as returned by \<^verbatim>\<open>factory.attach\<close> and \<^verbatim>\<open>factory.deploy\<close>.\<close>

datatype contract = Contract (address: string)

text \<open>Constructor and call arguments.\<close>

datatype arg =
    AStr string
  | ABool bool
  | AUndefined
  | AVersion nat nat nat
  | AImplementations string string string string string string

text \<open>What reading an artifact JSON file can give.\<close>

datatype artifact_file =
    FileMissing
  | FileUnreadable error
  | Artifact (hasAbi: bool) (hasBytecode: bool)

text \<open>
  The log of external effects: chain calls are logged when they are issued, file
  writes when they have succeeded. A deploy call is logged with the name of the unit
  it is issued for, a transaction with the target address and the method.
\<close>

datatype event =
    EvGetCode string
  | EvDeploy string factory "arg list"
  | EvSend string string "arg list"
  | EvSave DeploymentState
  | EvBackup nat DeploymentState

text \<open>The collaborators that the script does not own.\<close>

record 'w chain_env =
  isAddress :: "string \<Rightarrow> bool"
  getCode :: "'w \<Rightarrow> string \<Rightarrow> (error + string) \<times> 'w"
  deployTx :: "'w \<Rightarrow> factory \<Rightarrow> arg list \<Rightarrow> (error + string) \<times> 'w"
  sendTx :: "'w \<Rightarrow> string \<Rightarrow> string \<Rightarrow> arg list \<Rightarrow> (error + unit) \<times> 'w"
  listAccounts :: "'w \<Rightarrow> (error + string list) \<times> 'w"
  getBalance :: "'w \<Rightarrow> (error + unit) \<times> 'w"
  readArtifactFile :: "'w \<Rightarrow> string \<Rightarrow> artifact_file \<times> 'w"
  writeFileSync :: "'w \<Rightarrow> string \<Rightarrow> (error + unit) \<times> 'w"
  clock :: "'w \<Rightarrow> nat \<times> 'w"
  chainIdHoodi :: nat

record 'w run_state =
  deploymentState :: DeploymentState
  stateFile :: state_file
  backupFiles :: "(nat \<times> DeploymentState) list"
  world :: 'w
  trace :: "event list"

subsection \<open>Sequencing, exceptions and external calls\<close>

type_synonym ('w, 'a) act = "'w run_state \<Rightarrow> (error + 'a) \<times> 'w run_state"

definition ret :: "'a \<Rightarrow> ('w, 'a) act" where
  "ret a = (\<lambda>s. (Inr a, s))"

definition throw :: "error \<Rightarrow> ('w, 'a) act" where
  "throw e = (\<lambda>s. (Inl e, s))"

definition bnd :: "('w, 'a) act \<Rightarrow> ('a \<Rightarrow> ('w, 'b) act) \<Rightarrow> ('w, 'b) act" where
  "bnd m f = (\<lambda>s. case m s of (Inl e, s') \<Rightarrow> (Inl e, s') | (Inr a, s') \<Rightarrow> f a s')"

definition catch :: "('w, 'a) act \<Rightarrow> (error \<Rightarrow> ('w, 'a) act) \<Rightarrow> ('w, 'a) act" where
  "catch m h = (\<lambda>s. case m s of (Inl e, s') \<Rightarrow> h e s' | (Inr a, s') \<Rightarrow> (Inr a, s'))"

definition gets :: "('w run_state \<Rightarrow> 'a) \<Rightarrow> ('w, 'a) act" where
  "gets f = (\<lambda>s. (Inr (f s), s))"

definition modify :: "('w run_state \<Rightarrow> 'w run_state) \<Rightarrow> ('w, unit) act" where
  "modify f = (\<lambda>s. (Inr (), f s))"

text \<open>An awaited call that may reject.\<close>

definition ext :: "('w \<Rightarrow> (error + 'a) \<times> 'w) \<Rightarrow> ('w, 'a) act" where
  "ext op = (\<lambda>s. case op (world s) of (r, w') \<Rightarrow> (r, s\<lparr>world := w'\<rparr>))"

text \<open>A call that cannot fail.\<close>

definition ext_total :: "('w \<Rightarrow> 'a \<times> 'w) \<Rightarrow> ('w, 'a) act" where
  "ext_total op = (\<lambda>s. case op (world s) of (a, w') \<Rightarrow> (Inr a, s\<lparr>world := w'\<rparr>))"

definition logEvent :: "event \<Rightarrow> ('w, unit) act" where
  "logEvent ev = modify (\<lambda>s. s\<lparr>trace := trace s @ [ev]\<rparr>)"

definition modifyState :: "(DeploymentState \<Rightarrow> DeploymentState) \<Rightarrow> ('w, unit) act" where
  "modifyState f = modify (\<lambda>s. s\<lparr>deploymentState := f (deploymentState s)\<rparr>)"

subsection \<open>JavaScript strings\<close>

fun startsWith :: "string \<Rightarrow> string \<Rightarrow> bool" where
  "startsWith [] cs = True"
| "startsWith (p # ps) [] = False"
| "startsWith (p # ps) (c # cs) = (p = c \<and> startsWith ps cs)"

text \<open>\<^verbatim>\<open>s.includes(pat)\<close>: \<open>pat\<close> occurs in \<open>s\<close> as a contiguous, case-sensitive substring.\<close>

fun includesStr :: "string \<Rightarrow> string \<Rightarrow> bool" where
  "includesStr [] pat = (pat = [])"
| "includesStr (c # cs) pat = (startsWith pat (c # cs) \<or> includesStr cs pat)"

subsection \<open>The helpers of \<^verbatim>\<open>main\<close>\<close>

text \<open>The object literal that \<^verbatim>\<open>main\<close> starts from.\<close>

definition initialProgress :: "string \<Rightarrow> Progress" where
  "initialProgress d =
     \<lparr>step = 0, description = d, lastUpdated = None, versionConfigured = False,
      identityFactoryConfigured = False, trexFactoryConfigured = False,
      iaFactoryConfigured = False\<rparr>"

definition initialState :: "nat \<Rightarrow> nat \<Rightarrow> DeploymentState" where
  "initialState t net =
     \<lparr>timestamp = t, network = net, deployer = None, contracts = [],
      progress = initialProgress ''Starting deployment...'',
      completed = False, completedAt = None\<rparr>"

text \<open>
  \<^verbatim>\<open>saveDeploymentState\<close>: overwrite \<^verbatim>\<open>deployment-state.json\<close> with the current
  state. \<^verbatim>\<open>fs.writeFileSync\<close> may throw, and then nothing is written.
\<close>

definition saveDeploymentState :: "'w chain_env \<Rightarrow> ('w, unit) act" where
  "saveDeploymentState env =
     bnd (gets deploymentState) (\<lambda>ds.
     bnd (ext (\<lambda>w. writeFileSync env w ''deployment-state.json'')) (\<lambda>_.
     modify (\<lambda>s. s\<lparr>stateFile := LedgerFile ds, trace := trace s @ [EvSave ds]\<rparr>)))"

text \<open>
  \<^verbatim>\<open>updateProgress(step, description, contractName = null, contractAddress = null)\<close>.
  The contract is recorded when both optional arguments are truthy.
\<close>

definition truthy :: "string option \<Rightarrow> bool" where
  "truthy v = (case v of None \<Rightarrow> False | Some x \<Rightarrow> x \<noteq> [])"

definition recordContract ::
  "string option \<Rightarrow> string option \<Rightarrow> (string \<times> string) list \<Rightarrow> (string \<times> string) list" where
  "recordContract contractName contractAddress cs =
     (case (contractName, contractAddress) of
        (Some n, Some a) \<Rightarrow> if n \<noteq> [] \<and> a \<noteq> [] then AList.update n a cs else cs
      | _ \<Rightarrow> cs)"

definition updateProgress ::
  "'w chain_env \<Rightarrow> rat \<Rightarrow> string \<Rightarrow> string option \<Rightarrow> string option \<Rightarrow> ('w, unit) act" where
  "updateProgress env stp descr contractName contractAddress =
     bnd (ext_total (clock env)) (\<lambda>t.
     bnd (modifyState (\<lambda>ds. ds\<lparr>
            progress := (progress ds)\<lparr>step := stp, description := descr, lastUpdated := Some t\<rparr>,
            contracts := recordContract contractName contractAddress (contracts ds)\<rparr>)) (\<lambda>_.
     saveDeploymentState env))"

text \<open>
  \<^verbatim>\<open>loadExistingDeployment\<close>: a missing file, and any exception while reading or
  parsing it, give \<^verbatim>\<open>null\<close>.
\<close>

definition parseStateFile :: "state_file \<Rightarrow> DeploymentState option" where
  "parseStateFile file = (case file of LedgerFile ds \<Rightarrow> Some ds | _ \<Rightarrow> None)"

definition loadExistingDeployment :: "('w, DeploymentState option) act" where
  "loadExistingDeployment = gets (\<lambda>s. parseStateFile (stateFile s))"

text \<open>
  \<^verbatim>\<open>isContractDeployed(provider, address)\<close>. The address is \<open>None\<close> when the caller
  passes \<^verbatim>\<open>undefined\<close> or \<^verbatim>\<open>null\<close>; the empty string is falsy as well.
\<close>

definition isContractDeployed :: "'w chain_env \<Rightarrow> string option \<Rightarrow> ('w, bool) act" where
  "isContractDeployed env addr =
     (case addr of
        None \<Rightarrow> ret False
      | Some a \<Rightarrow>
          if a = [] \<or> \<not> isAddress env a then ret False
          else
            catch
              (bnd (logEvent (EvGetCode a)) (\<lambda>_.
               bnd (ext (\<lambda>w. getCode env w a)) (\<lambda>code.
               ret (code \<noteq> ''0x'' \<and> code \<noteq> ''0x0''))))
              (\<lambda>e. ret False))"

text \<open>
  The tail of \<^verbatim>\<open>deployIfNeeded\<close>: \<^verbatim>\<open>contractFactory.deploy(...deployArgs)\<close> and
  \<^verbatim>\<open>contract.deployed()\<close> are one call of the chain client, which gives the address of
  the confirmed instance or rejects.
\<close>

definition deployNow ::
  "'w chain_env \<Rightarrow> string \<Rightarrow> factory \<Rightarrow> arg list \<Rightarrow> ('w, contract) act" where
  "deployNow env contractName contractFactory deployArgs =
     bnd (logEvent (EvDeploy contractName contractFactory deployArgs)) (\<lambda>_.
     bnd (ext (\<lambda>w. deployTx env w contractFactory deployArgs)) (\<lambda>a.
     bnd (modifyState (\<lambda>ds. ds\<lparr>contracts := AList.update contractName a (contracts ds)\<rparr>)) (\<lambda>_.
     bnd (saveDeploymentState env) (\<lambda>_.
     ret (Contract a)))))"

definition forget :: "string \<Rightarrow> ('w, unit) act" where
  "forget contractName =
     modifyState (\<lambda>ds. ds\<lparr>contracts := AList.delete contractName (contracts ds)\<rparr>)"

text \<open>\<^verbatim>\<open>deployIfNeeded(contractName, contractFactory, deployArgs)\<close>.\<close>

definition deployIfNeeded ::
  "'w chain_env \<Rightarrow> bool \<Rightarrow> string \<Rightarrow> factory \<Rightarrow> arg list \<Rightarrow> ('w, contract) act" where
  "deployIfNeeded env forceRedeploy contractName contractFactory deployArgs =
     bnd (gets (\<lambda>s. map_of (contracts (deploymentState s)) contractName)) (\<lambda>cached.
     if \<not> forceRedeploy \<and> truthy cached then
       (case cached of
          None \<Rightarrow> deployNow env contractName contractFactory deployArgs
        | Some a \<Rightarrow>
            bnd (isContractDeployed env (Some a)) (\<lambda>isDeployed.
            if isDeployed then ret (Contract a)
            else
              bnd (forget contractName) (\<lambda>_.
              deployNow env contractName contractFactory deployArgs)))
     else if forceRedeploy \<and> truthy cached then
       bnd (forget contractName) (\<lambda>_.
       deployNow env contractName contractFactory deployArgs)
     else deployNow env contractName contractFactory deployArgs)"

text \<open>\<^verbatim>\<open>getContractArtifact(contractName)\<close> with its table of artifact paths.\<close>

definition contractPaths :: "(string \<times> string) list" where
  "contractPaths =
     [(''Token'', ''token/Token.sol/Token.json''),
      (''ClaimTopicsRegistry'',
         ''registry/implementation/ClaimTopicsRegistry.sol/ClaimTopicsRegistry.json''),
      (''TrustedIssuersRegistry'',
         ''registry/implementation/TrustedIssuersRegistry.sol/TrustedIssuersRegistry.json''),
      (''IdentityRegistryStorage'',
         ''registry/implementation/IdentityRegistryStorage.sol/IdentityRegistryStorage.json''),
      (''IdentityRegistry'',
         ''registry/implementation/IdentityRegistry.sol/IdentityRegistry.json''),
      (''ModularCompliance'', ''compliance/modular/ModularCompliance.sol/ModularCompliance.json''),
      (''TREXImplementationAuthority'',
         ''proxy/authority/TREXImplementationAuthority.sol/TREXImplementationAuthority.json''),
      (''TREXFactory'', ''factory/TREXFactory.sol/TREXFactory.json''),
      (''IAFactory'', ''proxy/authority/IAFactory.sol/IAFactory.json'')]"

definition factoryFromFile :: "'w chain_env \<Rightarrow> string \<Rightarrow> string \<Rightarrow> string \<Rightarrow> ('w, factory) act" where
  "factoryFromFile env fullPath notFound invalid =
     bnd (ext_total (\<lambda>w. readArtifactFile env w fullPath)) (\<lambda>f.
     case f of
       FileMissing \<Rightarrow> throw (Error (notFound @ fullPath))
     | FileUnreadable e \<Rightarrow> throw e
     | Artifact abi bytecode \<Rightarrow>
         if \<not> abi \<or> \<not> bytecode then throw (Error invalid) else ret (Factory fullPath))"

definition getContractArtifact :: "'w chain_env \<Rightarrow> string \<Rightarrow> ('w, factory) act" where
  "getContractArtifact env contractName =
     (case map_of contractPaths contractName of
        Some p \<Rightarrow>
          factoryFromFile env (''artifacts/contracts/'' @ p)
            ''Artifact file not found: ''
            (''Invalid artifact for '' @ contractName @ '': missing abi or bytecode'')
      | None \<Rightarrow> throw (Error (''Unknown contract: '' @ contractName)))"

text \<open>\<^verbatim>\<open>getOnchainIDContractFactory(contractType)\<close>.\<close>

definition onchainIDPath :: string where
  "onchainIDPath = ''node_modules/@onchain-id/solidity/artifacts/contracts/''"

definition getOnchainIDContractFactory :: "'w chain_env \<Rightarrow> string \<Rightarrow> ('w, factory) act" where
  "getOnchainIDContractFactory env contractType =
     (if contractType = ''Identity'' then
        factoryFromFile env (onchainIDPath @ ''Identity.sol/Identity.json'')
          ''OnchainID artifact file not found: ''
          (''Invalid OnchainID artifact '' @ contractType @ '': missing abi or bytecode'')
      else if contractType = ''ImplementationAuthority'' then
        factoryFromFile env
          (onchainIDPath @ ''proxy/ImplementationAuthority.sol/ImplementationAuthority.json'')
          ''OnchainID artifact file not found: ''
          (''Invalid OnchainID artifact '' @ contractType @ '': missing abi or bytecode'')
      else if contractType = ''Factory'' then
        factoryFromFile env (onchainIDPath @ ''factory/IdFactory.sol/IdFactory.json'')
          ''OnchainID artifact file not found: ''
          (''Invalid OnchainID artifact '' @ contractType @ '': missing abi or bytecode'')
      else throw (Error (''Unknown OnchainID contract: '' @ contractType)))"

text \<open>
  A method call on a contract handle followed by \<^verbatim>\<open>tx.wait()\<close>: one call of the chain
  client, which confirms or rejects with a message.
\<close>

definition invoke :: "'w chain_env \<Rightarrow> contract \<Rightarrow> string \<Rightarrow> arg list \<Rightarrow> ('w, unit) act" where
  "invoke env target method args =
     bnd (logEvent (EvSend (address target) method args)) (\<lambda>_.
     ext (\<lambda>w. sendTx env w (address target) method args))"

subsection \<open>The body of \<^verbatim>\<open>main\<close>\<close>

text \<open>
  The resume branch: merge the loaded state, leave early when it is completed, else
  check every recorded contract and drop the ones that are not deployed. The result
  says whether \<^verbatim>\<open>main\<close> returns early.
\<close>

fun verifyContracts :: "'w chain_env \<Rightarrow> (string \<times> string) list \<Rightarrow> ('w, string list) act" where
  "verifyContracts env [] = ret []"
| "verifyContracts env ((contractName, a) # rest) =
     bnd (isContractDeployed env (Some a)) (\<lambda>isDeployed.
     bnd (verifyContracts env rest) (\<lambda>contractsToRemove.
     ret (if isDeployed then contractsToRemove else contractName # contractsToRemove)))"

definition resumeExisting :: "'w chain_env \<Rightarrow> DeploymentState \<Rightarrow> ('w, bool) act" where
  "resumeExisting env existingDeployment =
     bnd (modifyState (\<lambda>ds. ds\<lparr>
            contracts := contracts existingDeployment,
            progress := progress existingDeployment,
            deployer := deployer existingDeployment\<rparr>)) (\<lambda>_.
     if completed existingDeployment then ret True
     else
       bnd (gets (\<lambda>s. contracts (deploymentState s))) (\<lambda>cs.
       bnd (verifyContracts env cs) (\<lambda>contractsToRemove.
       bnd (modifyState (\<lambda>ds. ds\<lparr>contracts := fold AList.delete contractsToRemove (contracts ds)\<rparr>)) (\<lambda>_.
       ret False))))"

definition forceReset :: "('w, unit) act" where
  "forceReset =
     modifyState (\<lambda>ds. ds\<lparr>
       contracts := [],
       progress := initialProgress ''Force redeployment starting...''\<rparr>)"

text \<open>
  From the creation of \<^verbatim>\<open>deploymentState\<close> to the end of the resume/force branch. The
  result holds \<^verbatim>\<open>accounts\<close> and whether \<^verbatim>\<open>main\<close> returns early.
\<close>

definition loadPhase :: "'w chain_env \<Rightarrow> bool \<Rightarrow> ('w, string list \<times> bool) act" where
  "loadPhase env forceRedeploy =
     bnd (ext_total (clock env)) (\<lambda>t.
     bnd (modifyState (\<lambda>_. initialState t (chainIdHoodi env))) (\<lambda>_.
     bnd (ext (listAccounts env)) (\<lambda>accounts.
     bnd (if \<not> forceRedeploy then loadExistingDeployment else ret None) (\<lambda>existingDeployment.
     case existingDeployment of
       Some existing \<Rightarrow>
         if \<not> forceRedeploy then
           bnd (resumeExisting env existing) (\<lambda>finished. ret (accounts, finished))
         else bnd forceReset (\<lambda>_. ret (accounts, False))
     | None \<Rightarrow>
         if forceRedeploy then bnd forceReset (\<lambda>_. ret (accounts, False))
         else ret (accounts, False)))))"

definition firstAccount :: "string list \<Rightarrow> string option" where
  "firstAccount accounts = (case accounts of [] \<Rightarrow> None | a # _ \<Rightarrow> Some a)"

definition initDeployer :: "'w chain_env \<Rightarrow> string list \<Rightarrow> ('w, unit) act" where
  "initDeployer env accounts =
     bnd (gets (\<lambda>s. deployer (deploymentState s))) (\<lambda>d.
     bnd (if \<not> truthy d then
            bnd (modifyState (\<lambda>ds. ds\<lparr>deployer := firstAccount accounts\<rparr>)) (\<lambda>_.
            updateProgress env 0 ''Initialized deployer'' None None)
          else ret ()) (\<lambda>_.
     ext (getBalance env)))"

text \<open>Step 1: the six implementation contracts.\<close>

definition step1 ::
  "'w chain_env \<Rightarrow> bool \<Rightarrow>
   ('w, contract \<times> contract \<times> contract \<times> contract \<times> contract \<times> contract) act" where
  "step1 env forceRedeploy =
     bnd (updateProgress env 1 ''Starting implementation contracts deployment'' None None) (\<lambda>_.
     bnd (getContractArtifact env ''Token'') (\<lambda>TokenFactory.
     bnd (deployIfNeeded env forceRedeploy ''TokenImplementation'' TokenFactory [])
       (\<lambda>tokenImplementation.
     bnd (updateProgress env 1.1 ''Token implementation deployment completed''
            (Some ''TokenImplementation'') (Some (address tokenImplementation))) (\<lambda>_.
     bnd (getContractArtifact env ''ClaimTopicsRegistry'') (\<lambda>CTRFactory.
     bnd (deployIfNeeded env forceRedeploy ''ClaimTopicsRegistryImplementation'' CTRFactory [])
       (\<lambda>claimTopicsRegistryImplementation.
     bnd (updateProgress env 1.2 ''ClaimTopicsRegistry implementation deployment completed''
            (Some ''ClaimTopicsRegistryImplementation'')
            (Some (address claimTopicsRegistryImplementation))) (\<lambda>_.
     bnd (getContractArtifact env ''TrustedIssuersRegistry'') (\<lambda>TIRFactory.
     bnd (deployIfNeeded env forceRedeploy ''TrustedIssuersRegistryImplementation'' TIRFactory [])
       (\<lambda>trustedIssuersRegistryImplementation.
     bnd (updateProgress env 1.3 ''TrustedIssuersRegistry implementation deployment completed''
            (Some ''TrustedIssuersRegistryImplementation'')
            (Some (address trustedIssuersRegistryImplementation))) (\<lambda>_.
     bnd (getContractArtifact env ''IdentityRegistryStorage'') (\<lambda>IRSFactory.
     bnd (deployIfNeeded env forceRedeploy ''IdentityRegistryStorageImplementation'' IRSFactory [])
       (\<lambda>identityRegistryStorageImplementation.
     bnd (updateProgress env 1.4 ''IdentityRegistryStorage implementation deployment completed''
            (Some ''IdentityRegistryStorageImplementation'')
            (Some (address identityRegistryStorageImplementation))) (\<lambda>_.
     bnd (getContractArtifact env ''IdentityRegistry'') (\<lambda>IRFactory.
     bnd (deployIfNeeded env forceRedeploy ''IdentityRegistryImplementation'' IRFactory [])
       (\<lambda>identityRegistryImplementation.
     bnd (updateProgress env 1.5 ''IdentityRegistry implementation deployment completed''
            (Some ''IdentityRegistryImplementation'')
            (Some (address identityRegistryImplementation))) (\<lambda>_.
     bnd (getContractArtifact env ''ModularCompliance'') (\<lambda>MCFactory.
     bnd (deployIfNeeded env forceRedeploy ''ModularComplianceImplementation'' MCFactory [])
       (\<lambda>modularComplianceImplementation.
     bnd (updateProgress env 1.6 ''All implementation contracts deployment completed''
            (Some ''ModularComplianceImplementation'')
            (Some (address modularComplianceImplementation))) (\<lambda>_.
     ret (tokenImplementation, claimTopicsRegistryImplementation,
          trustedIssuersRegistryImplementation, identityRegistryStorageImplementation,
          identityRegistryImplementation, modularComplianceImplementation))))))))))))))))))))"

text \<open>Step 2: the OnchainID infrastructure; the result is \<^verbatim>\<open>identityFactory\<close>.\<close>

definition accountArg :: "string list \<Rightarrow> arg" where
  "accountArg accounts = (case firstAccount accounts of None \<Rightarrow> AUndefined | Some a \<Rightarrow> AStr a)"

definition step2 :: "'w chain_env \<Rightarrow> bool \<Rightarrow> string list \<Rightarrow> ('w, contract) act" where
  "step2 env forceRedeploy accounts =
     bnd (updateProgress env 2 ''Starting OnchainID infrastructure deployment'' None None) (\<lambda>_.
     bnd (getOnchainIDContractFactory env ''Identity'') (\<lambda>IdentityFactory.
     bnd (deployIfNeeded env forceRedeploy ''IdentityImplementation'' IdentityFactory
            [accountArg accounts, ABool True]) (\<lambda>identityImplementation.
     bnd (updateProgress env 2.1 ''Identity implementation deployment completed''
            (Some ''IdentityImplementation'') (Some (address identityImplementation))) (\<lambda>_.
     bnd (getOnchainIDContractFactory env ''ImplementationAuthority'')
       (\<lambda>IdentityImplementationAuthorityFactory.
     bnd (deployIfNeeded env forceRedeploy ''IdentityImplementationAuthority''
            IdentityImplementationAuthorityFactory [AStr (address identityImplementation)])
       (\<lambda>identityImplementationAuthority.
     bnd (updateProgress env 2.2 ''IdentityImplementationAuthority deployment completed''
            (Some ''IdentityImplementationAuthority'')
            (Some (address identityImplementationAuthority))) (\<lambda>_.
     bnd (getOnchainIDContractFactory env ''Factory'') (\<lambda>IdentityFactoryFactory.
     bnd (deployIfNeeded env forceRedeploy ''IdentityFactory'' IdentityFactoryFactory
            [AStr (address identityImplementationAuthority)]) (\<lambda>identityFactory.
     bnd (updateProgress env 2.3 ''OnchainID infrastructure deployment completed''
            (Some ''IdentityFactory'') (Some (address identityFactory))) (\<lambda>_.
     ret identityFactory))))))))))"

text \<open>
  Step 3: \<^verbatim>\<open>TREXImplementationAuthority\<close> and the version configuration, which has no
  \<^verbatim>\<open>try\<close> around it.
\<close>

definition AddressZero :: string where
  "AddressZero = ''0x0000000000000000000000000000000000000000''"

definition versionArgs ::
  "contract \<times> contract \<times> contract \<times> contract \<times> contract \<times> contract \<Rightarrow> arg list" where
  "versionArgs impls =
     (case impls of
        (tokenImplementation, claimTopicsRegistryImplementation,
         trustedIssuersRegistryImplementation, identityRegistryStorageImplementation,
         identityRegistryImplementation, modularComplianceImplementation) \<Rightarrow>
       [AVersion 4 0 0,
        AImplementations
          (address tokenImplementation)
          (address claimTopicsRegistryImplementation)
          (address identityRegistryImplementation)
          (address identityRegistryStorageImplementation)
          (address trustedIssuersRegistryImplementation)
          (address modularComplianceImplementation)])"

definition configureVersion ::
  "'w chain_env \<Rightarrow> contract \<Rightarrow>
   contract \<times> contract \<times> contract \<times> contract \<times> contract \<times> contract \<Rightarrow> ('w, unit) act" where
  "configureVersion env trexImplementationAuthority impls =
     bnd (gets (\<lambda>s.
            \<not> truthy (map_of (contracts (deploymentState s)) ''TREXImplementationAuthority'')
            \<or> \<not> versionConfigured (progress (deploymentState s)))) (\<lambda>needsVersionConfig.
     if needsVersionConfig then
       bnd (invoke env trexImplementationAuthority ''addAndUseTREXVersion''
              (versionArgs impls)) (\<lambda>_.
       modifyState (\<lambda>ds. ds\<lparr>progress := (progress ds)\<lparr>versionConfigured := True\<rparr>\<rparr>))
     else ret ())"

definition step3 ::
  "'w chain_env \<Rightarrow> bool \<Rightarrow>
   contract \<times> contract \<times> contract \<times> contract \<times> contract \<times> contract \<Rightarrow> ('w, contract) act" where
  "step3 env forceRedeploy impls =
     bnd (updateProgress env 3 ''Deploying TREXImplementationAuthority'' None None) (\<lambda>_.
     bnd (getContractArtifact env ''TREXImplementationAuthority'') (\<lambda>TREXImplAuthorityFactory.
     bnd (deployIfNeeded env forceRedeploy ''TREXImplementationAuthority'' TREXImplAuthorityFactory
            [ABool True, AStr AddressZero, AStr AddressZero]) (\<lambda>trexImplementationAuthority.
     bnd (updateProgress env 3.1 ''TREXImplementationAuthority deployment completed''
            (Some ''TREXImplementationAuthority'')
            (Some (address trexImplementationAuthority))) (\<lambda>_.
     bnd (configureVersion env trexImplementationAuthority impls) (\<lambda>_.
     bnd (updateProgress env 3.2 ''T-REX version configuration completed'' None None) (\<lambda>_.
     ret trexImplementationAuthority))))))"

text \<open>Step 4: \<^verbatim>\<open>TREXFactory\<close>.\<close>

definition step4 :: "'w chain_env \<Rightarrow> bool \<Rightarrow> contract \<Rightarrow> contract \<Rightarrow> ('w, contract) act" where
  "step4 env forceRedeploy trexImplementationAuthority identityFactory =
     bnd (updateProgress env 4 ''Deploying TREXFactory'' None None) (\<lambda>_.
     bnd (getContractArtifact env ''TREXFactory'') (\<lambda>TREXFactoryFactory.
     bnd (deployIfNeeded env forceRedeploy ''TREXFactory'' TREXFactoryFactory
            [AStr (address trexImplementationAuthority), AStr (address identityFactory)])
       (\<lambda>trexFactory.
     bnd (updateProgress env 4.1 ''TREXFactory deployment completed''
            (Some ''TREXFactory'') (Some (address trexFactory))) (\<lambda>_.
     ret trexFactory))))"

text \<open>
  A guarded configuration action with its \<^verbatim>\<open>try\<close>/\<^verbatim>\<open>catch\<close>: the three blocks of the
  source differ in the flag, the call and the substrings that the \<^verbatim>\<open>catch\<close> accepts.
\<close>

definition configureIdentityFactory :: "'w chain_env \<Rightarrow> contract \<Rightarrow> contract \<Rightarrow> ('w, unit) act" where
  "configureIdentityFactory env identityFactory trexFactory =
     bnd (gets (\<lambda>s. identityFactoryConfigured (progress (deploymentState s)))) (\<lambda>configured.
     if \<not> configured then
       catch
         (bnd (invoke env identityFactory ''addTokenFactory'' [AStr (address trexFactory)]) (\<lambda>_.
          modifyState (\<lambda>ds. ds\<lparr>progress := (progress ds)\<lparr>identityFactoryConfigured := True\<rparr>\<rparr>)))
         (\<lambda>e.
            if includesStr (message e) ''already a TokenFactory'' then
              modifyState (\<lambda>ds. ds\<lparr>progress := (progress ds)\<lparr>identityFactoryConfigured := True\<rparr>\<rparr>)
            else throw e)
     else ret ())"

definition configureTREXFactory :: "'w chain_env \<Rightarrow> contract \<Rightarrow> contract \<Rightarrow> ('w, unit) act" where
  "configureTREXFactory env trexImplementationAuthority trexFactory =
     bnd (gets (\<lambda>s. trexFactoryConfigured (progress (deploymentState s)))) (\<lambda>configured.
     if \<not> configured then
       catch
         (bnd (invoke env trexImplementationAuthority ''setTREXFactory''
                 [AStr (address trexFactory)]) (\<lambda>_.
          modifyState (\<lambda>ds. ds\<lparr>progress := (progress ds)\<lparr>trexFactoryConfigured := True\<rparr>\<rparr>)))
         (\<lambda>e.
            if includesStr (message e) ''already set'' \<or> includesStr (message e) ''same'' then
              modifyState (\<lambda>ds. ds\<lparr>progress := (progress ds)\<lparr>trexFactoryConfigured := True\<rparr>\<rparr>)
            else throw e)
     else ret ())"

definition configureIAFactory :: "'w chain_env \<Rightarrow> contract \<Rightarrow> contract \<Rightarrow> ('w, unit) act" where
  "configureIAFactory env trexImplementationAuthority iaFactory =
     bnd (gets (\<lambda>s. iaFactoryConfigured (progress (deploymentState s)))) (\<lambda>configured.
     if \<not> configured then
       catch
         (bnd (invoke env trexImplementationAuthority ''setIAFactory''
                 [AStr (address iaFactory)]) (\<lambda>_.
          modifyState (\<lambda>ds. ds\<lparr>progress := (progress ds)\<lparr>iaFactoryConfigured := True\<rparr>\<rparr>)))
         (\<lambda>e.
            if includesStr (message e) ''already set'' \<or> includesStr (message e) ''same'' then
              modifyState (\<lambda>ds. ds\<lparr>progress := (progress ds)\<lparr>iaFactoryConfigured := True\<rparr>\<rparr>)
            else throw e)
     else ret ())"

text \<open>Step 5: let \<^verbatim>\<open>IdentityFactory\<close> accept \<^verbatim>\<open>TREXFactory\<close>.\<close>

definition step5 :: "'w chain_env \<Rightarrow> contract \<Rightarrow> contract \<Rightarrow> ('w, unit) act" where
  "step5 env identityFactory trexFactory =
     bnd (updateProgress env 5 ''Configuring IdentityFactory'' None None) (\<lambda>_.
     bnd (configureIdentityFactory env identityFactory trexFactory) (\<lambda>_.
     updateProgress env 5.1 ''IdentityFactory configuration completed'' None None))"

text \<open>Step 6: \<^verbatim>\<open>IAFactory\<close>.\<close>

definition step6 :: "'w chain_env \<Rightarrow> bool \<Rightarrow> contract \<Rightarrow> ('w, contract) act" where
  "step6 env forceRedeploy trexFactory =
     bnd (updateProgress env 6 ''Deploying IAFactory'' None None) (\<lambda>_.
     bnd (getContractArtifact env ''IAFactory'') (\<lambda>IAFactoryFactory.
     bnd (deployIfNeeded env forceRedeploy ''IAFactory'' IAFactoryFactory
            [AStr (address trexFactory)]) (\<lambda>iaFactory.
     bnd (updateProgress env 6.1 ''IAFactory deployment completed''
            (Some ''IAFactory'') (Some (address iaFactory))) (\<lambda>_.
     ret iaFactory))))"

text \<open>Step 7: the two final configuration actions.\<close>

definition step7 :: "'w chain_env \<Rightarrow> contract \<Rightarrow> contract \<Rightarrow> contract \<Rightarrow> ('w, unit) act" where
  "step7 env trexImplementationAuthority trexFactory iaFactory =
     bnd (updateProgress env 7 ''Final configuration'' None None) (\<lambda>_.
     bnd (configureTREXFactory env trexImplementationAuthority trexFactory) (\<lambda>_.
     bnd (configureIAFactory env trexImplementationAuthority iaFactory) (\<lambda>_.
     updateProgress env 7.1 ''All configurations completed'' None None)))"

text \<open>
  The end of \<^verbatim>\<open>main\<close>: the last progress update, the completion mark, the final
  save and the time-stamped copy \<^verbatim>\<open>deployment-complete-<ms>.json\<close>.
\<close>

definition writeBackup :: "'w chain_env \<Rightarrow> ('w, unit) act" where
  "writeBackup env =
     bnd (ext_total (clock env)) (\<lambda>ms.
     bnd (gets deploymentState) (\<lambda>ds.
     bnd (ext (\<lambda>w. writeFileSync env w ''deployment-complete-<ms>.json'')) (\<lambda>_.
     modify (\<lambda>s. s\<lparr>backupFiles := backupFiles s @ [(ms, ds)],
                    trace := trace s @ [EvBackup ms ds]\<rparr>))))"

definition finish :: "'w chain_env \<Rightarrow> ('w, unit) act" where
  "finish env =
     bnd (updateProgress env 8 ''Deployment completed successfully!'' None None) (\<lambda>_.
     bnd (modifyState (\<lambda>ds. ds\<lparr>completed := True\<rparr>)) (\<lambda>_.
     bnd (ext_total (clock env)) (\<lambda>t.
     bnd (modifyState (\<lambda>ds. ds\<lparr>completedAt := Some t\<rparr>)) (\<lambda>_.
     bnd (saveDeploymentState env) (\<lambda>_.
     writeBackup env)))))"

text \<open>The seven steps in the order of the source.\<close>

definition planSteps :: "'w chain_env \<Rightarrow> bool \<Rightarrow> string list \<Rightarrow> ('w, unit) act" where
  "planSteps env forceRedeploy accounts =
     bnd (step1 env forceRedeploy) (\<lambda>impls.
     bnd (step2 env forceRedeploy accounts) (\<lambda>identityFactory.
     bnd (step3 env forceRedeploy impls) (\<lambda>trexImplementationAuthority.
     bnd (step4 env forceRedeploy trexImplementationAuthority identityFactory) (\<lambda>trexFactory.
     bnd (step5 env identityFactory trexFactory) (\<lambda>_.
     bnd (step6 env forceRedeploy trexFactory) (\<lambda>iaFactory.
     step7 env trexImplementationAuthority trexFactory iaFactory))))))"

text \<open>What \<^verbatim>\<open>main\<close> does when the load phase has not returned early.\<close>

definition runPlan :: "'w chain_env \<Rightarrow> bool \<Rightarrow> string list \<Rightarrow> ('w, unit) act" where
  "runPlan env forceRedeploy accounts =
     bnd (initDeployer env accounts) (\<lambda>_.
     bnd (planSteps env forceRedeploy accounts) (\<lambda>_.
     finish env))"

text \<open>\<^verbatim>\<open>main()\<close>, with \<^verbatim>\<open>process.argv.includes('--force')\<close> as a parameter.\<close>

definition main :: "'w chain_env \<Rightarrow> bool \<Rightarrow> ('w, unit) act" where
  "main env forceRedeploy =
     bnd (loadPhase env forceRedeploy) (\<lambda>(accounts, finished).
     if finished then ret () else runPlan env forceRedeploy accounts)"

subsection \<open>Reading the log\<close>



text \<open>
  A unit is skipped in a log when no deploy call names it and every save records it
  at the given address.
\<close>

fun skipped :: "string \<Rightarrow> string \<Rightarrow> event list \<Rightarrow> bool" where
  "skipped n a [] = True"
| "skipped n a (EvDeploy m f args # evs) = (m \<noteq> n \<and> skipped n a evs)"
| "skipped n a (EvSave ds # evs) = (map_of (contracts ds) n = Some a \<and> skipped n a evs)"
| "skipped n a (ev # evs) = skipped n a evs"



subsection \<open>Assertions about runs\<close>

text \<open>
  \<open>hoare P m Q E\<close>: from a state that satisfies \<open>P\<close>, the action \<open>m\<close> ends in a state
  that satisfies \<open>Q\<close> of its result when it returns, and \<open>E\<close> of the error when it
  throws.
\<close>

definition hoare ::
  "('w run_state \<Rightarrow> bool) \<Rightarrow> ('w, 'a) act \<Rightarrow> ('a \<Rightarrow> 'w run_state \<Rightarrow> bool)
   \<Rightarrow> (error \<Rightarrow> 'w run_state \<Rightarrow> bool) \<Rightarrow> bool" where
  "hoare P m Q E =
     (\<forall>s. P s \<longrightarrow> (case m s of (Inl e, s') \<Rightarrow> E e s' | (Inr a, s') \<Rightarrow> Q a s'))"

text \<open>The step numbers of the saves in a log, in order.\<close>

fun saveSteps :: "event list \<Rightarrow> rat list" where
  "saveSteps [] = []"
| "saveSteps (EvSave ds # evs) = step (progress ds) # saveSteps evs"
| "saveSteps (ev # evs) = saveSteps evs"

text \<open>The state file after the saves of a log.\<close>

fun fileAfter :: "state_file \<Rightarrow> event list \<Rightarrow> state_file" where
  "fileAfter file [] = file"
| "fileAfter file (EvSave ds # evs) = fileAfter (LedgerFile ds) evs"
| "fileAfter file (ev # evs) = fileAfter file evs"

text \<open>
  An event of a run that started at time \<open>t0\<close> and has not reached its end: a chain
  call, or a save of a state that carries \<open>t0\<close> and is not marked completed.
\<close>

fun plainEvent :: "nat \<Rightarrow> event \<Rightarrow> bool" where
  "plainEvent t0 (EvSave ds) = (timestamp ds = t0 \<and> \<not> completed ds)"
| "plainEvent t0 (EvBackup ms ds) = False"
| "plainEvent t0 ev = True"

definition plainLog :: "nat \<Rightarrow> event list \<Rightarrow> bool" where
  "plainLog t0 evs = list_all (plainEvent t0) evs"

text \<open>The first save of a log, if there is one, has step 0 or step 1.\<close>

definition startsLow :: "rat list \<Rightarrow> bool" where
  "startsLow ks = (case ks of [] \<Rightarrow> True | k # _ \<Rightarrow> k = 0 \<or> k = 1)"

text \<open>
  The state in memory during a run that started at time \<open>t0\<close>: it carries \<open>t0\<close>, it is
  not marked completed, and the flags named by the four booleans are set.
\<close>

definition ledgerOk :: "nat \<Rightarrow> bool \<Rightarrow> bool \<Rightarrow> bool \<Rightarrow> bool \<Rightarrow> DeploymentState \<Rightarrow> bool" where
  "ledgerOk t0 v i t a ds =
     (timestamp ds = t0 \<and> \<not> completed ds \<and> completedAt ds = None
      \<and> (v \<longrightarrow> versionConfigured (progress ds))
      \<and> (i \<longrightarrow> identityFactoryConfigured (progress ds))
      \<and> (t \<longrightarrow> trexFactoryConfigured (progress ds))
      \<and> (a \<longrightarrow> iaFactoryConfigured (progress ds)))"

text \<open>
  The files and the log during a run: \<open>f0\<close> and \<open>b0\<close> are the state file and the archive
  at the start; the state file is what the saves of the log have made of \<open>f0\<close>, the
  archive is untouched, the saved step numbers never decrease and start at 0 or 1.
\<close>

definition logOk ::
  "nat \<Rightarrow> state_file \<Rightarrow> (nat \<times> DeploymentState) list
   \<Rightarrow> state_file \<Rightarrow> (nat \<times> DeploymentState) list \<Rightarrow> event list \<Rightarrow> bool" where
  "logOk t0 f0 b0 sf bf evs =
     (sf = fileAfter f0 evs \<and> bf = b0 \<and> plainLog t0 evs
      \<and> sorted (saveSteps evs) \<and> startsLow (saveSteps evs))"

text \<open>
  \<open>ph\<close> is \<open>None\<close> before the first save of the run, and the step number in memory
  after it, which bounds every saved step number.
\<close>

definition phaseOk :: "rat option \<Rightarrow> rat \<Rightarrow> event list \<Rightarrow> bool" where
  "phaseOk ph k' evs =
     (case ph of
        None \<Rightarrow> saveSteps evs = []
      | Some k \<Rightarrow> saveSteps evs \<noteq> [] \<and> last (saveSteps evs) \<le> k \<and> k' = k)"

definition runInv ::
  "nat \<Rightarrow> state_file \<Rightarrow> (nat \<times> DeploymentState) list \<Rightarrow> rat option
   \<Rightarrow> bool \<Rightarrow> bool \<Rightarrow> bool \<Rightarrow> bool \<Rightarrow> 'w run_state \<Rightarrow> bool" where
  "runInv t0 f0 b0 ph v i t a s =
     (ledgerOk t0 v i t a (deploymentState s)
      \<and> logOk t0 f0 b0 (stateFile s) (backupFiles s) (trace s)
      \<and> phaseOk ph (step (progress (deploymentState s))) (trace s))"

text \<open>What is left of it when a helper throws.\<close>

definition errInv ::
  "nat \<Rightarrow> state_file \<Rightarrow> (nat \<times> DeploymentState) list \<Rightarrow> 'w run_state \<Rightarrow> bool" where
  "errInv t0 f0 b0 s = logOk t0 f0 b0 (stateFile s) (backupFiles s) (trace s)"

text \<open>
  A state as it is saved at the end of a run that started at \<open>t0\<close>: marked completed
  with a completion time, at step 8, with the four configuration flags set.
\<close>

definition doneLedger :: "nat \<Rightarrow> DeploymentState \<Rightarrow> bool" where
  "doneLedger t0 ds =
     (timestamp ds = t0 \<and> completed ds \<and> completedAt ds \<noteq> None \<and> step (progress ds) = 8
      \<and> versionConfigured (progress ds) \<and> identityFactoryConfigured (progress ds)
      \<and> trexFactoryConfigured (progress ds) \<and> iaFactoryConfigured (progress ds))"

text \<open>
  The end of a run that went through the whole plan: the log ends with the save of the
  completed state and one archival copy of that same state, and nothing before them
  is a copy or a save of a completed state.
\<close>

definition finishedRun ::
  "nat \<Rightarrow> state_file \<Rightarrow> (nat \<times> DeploymentState) list \<Rightarrow> 'w run_state \<Rightarrow> bool" where
  "finishedRun t0 f0 b0 s =
     (\<exists>pre ms. trace s = pre @ [EvSave (deploymentState s), EvBackup ms (deploymentState s)]
        \<and> plainLog t0 pre
        \<and> doneLedger t0 (deploymentState s)
        \<and> stateFile s = LedgerFile (deploymentState s)
        \<and> backupFiles s = b0 @ [(ms, deploymentState s)]
        \<and> sorted (saveSteps (trace s))
        \<and> startsLow (saveSteps (trace s)))"

text \<open>
  The end of a run that threw: no archival copy has been written, and a completed
  state has been saved only if it is the last event (the copy could not be written).
\<close>

definition abortedRun ::
  "nat \<Rightarrow> state_file \<Rightarrow> (nat \<times> DeploymentState) list \<Rightarrow> 'w run_state \<Rightarrow> bool" where
  "abortedRun t0 f0 b0 s =
     (backupFiles s = b0
      \<and> stateFile s = fileAfter f0 (trace s)
      \<and> sorted (saveSteps (trace s))
      \<and> startsLow (saveSteps (trace s))
      \<and> (plainLog t0 (trace s)
         \<or> (\<exists>pre ds. trace s = pre @ [EvSave ds] \<and> plainLog t0 pre \<and> doneLedger t0 ds)))"

text \<open>
  The end of a run that found a completed state file and left at once: nothing was
  logged and no file was touched.
\<close>

definition leftEarly :: "bool \<Rightarrow> 'w run_state \<Rightarrow> 'w run_state \<Rightarrow> bool" where
  "leftEarly forceRedeploy s0 s =
     (\<not> forceRedeploy
      \<and> (\<exists>ds. parseStateFile (stateFile s0) = Some ds \<and> completed ds)
      \<and> trace s = trace s0 \<and> stateFile s = stateFile s0 \<and> backupFiles s = backupFiles s0)"

text \<open>
  Two moments inside the last part of \<^verbatim>\<open>main\<close>: the completion mark is set in memory
  but not saved, and the marked state has been saved but not copied.
\<close>

definition sealed ::
  "nat \<Rightarrow> state_file \<Rightarrow> (nat \<times> DeploymentState) list \<Rightarrow> 'w run_state \<Rightarrow> bool" where
  "sealed t0 f0 b0 s =
     (doneLedger t0 (deploymentState s)
      \<and> logOk t0 f0 b0 (stateFile s) (backupFiles s) (trace s)
      \<and> saveSteps (trace s) \<noteq> [] \<and> last (saveSteps (trace s)) \<le> 8)"

definition flushed ::
  "nat \<Rightarrow> state_file \<Rightarrow> (nat \<times> DeploymentState) list \<Rightarrow> 'w run_state \<Rightarrow> bool" where
  "flushed t0 f0 b0 s =
     (\<exists>pre. trace s = pre @ [EvSave (deploymentState s)]
        \<and> plainLog t0 pre
        \<and> doneLedger t0 (deploymentState s)
        \<and> stateFile s = LedgerFile (deploymentState s)
        \<and> stateFile s = fileAfter f0 (trace s)
        \<and> backupFiles s = b0
        \<and> sorted (saveSteps (trace s))
        \<and> startsLow (saveSteps (trace s)))"

text \<open>
  Collaborators that never refuse: every deployment, transaction, account query,
  balance query and file write succeeds, and every artifact file is well formed.
\<close>

definition cooperative :: "'w chain_env \<Rightarrow> bool" where
  "cooperative env =
     (\<forall>w. (\<forall>f args. \<not> isl (fst (deployTx env w f args)))
        \<and> (\<forall>x m args. \<not> isl (fst (sendTx env w x m args)))
        \<and> \<not> isl (fst (listAccounts env w))
        \<and> \<not> isl (fst (getBalance env w))
        \<and> (\<forall>p. fst (readArtifactFile env w p) = Artifact True True)
        \<and> (\<forall>p. \<not> isl (fst (writeFileSync env w p))))"

text \<open>An action that never throws.\<close>

definition succeeds :: "('w, 'a) act \<Rightarrow> bool" where
  "succeeds m = hoare (\<lambda>s. True) m (\<lambda>x s. True) (\<lambda>e s. False)"

text \<open>The chain calls of a log that change the chain: deployments by unit, transactions by method.\<close>

datatype call = Deploy string | Send string

fun callsOf :: "event list \<Rightarrow> call list" where
  "callsOf [] = []"
| "callsOf (EvDeploy n f args # evs) = Deploy n # callsOf evs"
| "callsOf (EvSend x m args # evs) = Send m # callsOf evs"
| "callsOf (ev # evs) = callsOf evs"

text \<open>
  Every unit that a state records and every flag that it has set is accounted for by a
  call in \<open>xs\<close>: the state remembers nothing that these calls did not produce.
\<close>

definition accounted :: "call list \<Rightarrow> DeploymentState \<Rightarrow> bool" where
  "accounted xs ds =
     (list_all (\<lambda>(n, x). Deploy n \<in> set xs) (contracts ds)
      \<and> (versionConfigured (progress ds) \<longrightarrow> Send ''addAndUseTREXVersion'' \<in> set xs)
      \<and> (identityFactoryConfigured (progress ds) \<longrightarrow> Send ''addTokenFactory'' \<in> set xs)
      \<and> (trexFactoryConfigured (progress ds) \<longrightarrow> Send ''setTREXFactory'' \<in> set xs)
      \<and> (iaFactoryConfigured (progress ds) \<longrightarrow> Send ''setIAFactory'' \<in> set xs))"

text \<open>Every state saved in a log is accounted for by the calls of that log.\<close>

definition accountedLog :: "event list \<Rightarrow> bool" where
  "accountedLog evs = (\<forall>ds. EvSave ds \<in> set evs \<longrightarrow> accounted (callsOf evs) ds)"

definition forcedInv :: "call list \<Rightarrow> 'w run_state \<Rightarrow> bool" where
  "forcedInv xs s =
     (callsOf (trace s) = xs \<and> accounted xs (deploymentState s) \<and> accountedLog (trace s))"

text \<open>The calls of the plan, in the order of the source.\<close>

definition planCalls :: "call list" where
  "planCalls =
     [Deploy ''TokenImplementation'',
      Deploy ''ClaimTopicsRegistryImplementation'',
      Deploy ''TrustedIssuersRegistryImplementation'',
      Deploy ''IdentityRegistryStorageImplementation'',
      Deploy ''IdentityRegistryImplementation'',
      Deploy ''ModularComplianceImplementation'',
      Deploy ''IdentityImplementation'',
      Deploy ''IdentityImplementationAuthority'',
      Deploy ''IdentityFactory'',
      Deploy ''TREXImplementationAuthority'',
      Send ''addAndUseTREXVersion'',
      Deploy ''TREXFactory'',
      Send ''addTokenFactory'',
      Deploy ''IAFactory'',
      Send ''setTREXFactory'',
      Send ''setIAFactory'']"

text \<open>
  A unit that stays recorded at its address: in memory, in the state file and in every
  save of the log, with no deploy call for it. \<open>onFile\<close> leaves the state in memory out.
\<close>

definition kept :: "string \<Rightarrow> string \<Rightarrow> 'w run_state \<Rightarrow> bool" where
  "kept n a s =
     (skipped n a (trace s) \<and> map_of (contracts (deploymentState s)) n = Some a
      \<and> map_option (\<lambda>ds. map_of (contracts ds) n) (parseStateFile (stateFile s)) = Some (Some a))"

definition onFile :: "string \<Rightarrow> string \<Rightarrow> 'w run_state \<Rightarrow> bool" where
  "onFile n a s =
     (skipped n a (trace s)
      \<and> map_option (\<lambda>ds. map_of (contracts ds) n) (parseStateFile (stateFile s)) = Some (Some a))"

definition keeps :: "string \<Rightarrow> string \<Rightarrow> ('w, 'a) act \<Rightarrow> bool" where
  "keeps n a m = hoare (kept n a) m (\<lambda>_. kept n a) (\<lambda>_. kept n a)"




subsection \<open>Concrete collaborators and states\<close>

text \<open>
  A chain client, file system and clock that never refuse: every address holds code,
  every deployment lands at one address, the clock is the collaborator state itself.
\<close>

definition demoEnv :: "nat chain_env" where
  "demoEnv =
     \<lparr>isAddress = (\<lambda>a. startsWith ''0x'' a),
      getCode = (\<lambda>w a. (Inr ''0x6080'', w)),
      deployTx = (\<lambda>w f args. (Inr ''0xD1'', w)),
      sendTx = (\<lambda>w a m args. (Inr (), w)),
      listAccounts = (\<lambda>w. (Inr [''0xACC''], w)),
      getBalance = (\<lambda>w. (Inr (), w)),
      readArtifactFile = (\<lambda>w p. (Artifact True True, w)),
      writeFileSync = (\<lambda>w p. (Inr (), w)),
      clock = (\<lambda>w. (w, w + 1)),
      chainIdHoodi = 560048\<rparr>"

text \<open>The same, with no code at any address.\<close>

definition deadEnv :: "nat chain_env" where
  "deadEnv = demoEnv\<lparr>getCode := (\<lambda>w a. (Inr ''0x'', w))\<rparr>"

text \<open>No code at any address, and every deployment is rejected.\<close>

definition rejectingEnv :: "nat chain_env" where
  "rejectingEnv = deadEnv\<lparr>deployTx := (\<lambda>w f args. (Inl (Error ''insufficient funds''), w))\<rparr>"

text \<open>The code query itself fails.\<close>

definition offlineEnv :: "nat chain_env" where
  "offlineEnv = demoEnv\<lparr>getCode := (\<lambda>w a. (Inl (Error ''network timeout''), w))\<rparr>"

text \<open>The contracts have not been compiled: no artifact file exists.\<close>

definition noArtifactsEnv :: "nat chain_env" where
  "noArtifactsEnv = demoEnv\<lparr>readArtifactFile := (\<lambda>w p. (FileMissing, w))\<rparr>"

text \<open>
  Every transaction is rejected: \<^verbatim>\<open>addTokenFactory\<close> and \<^verbatim>\<open>setTREXFactory\<close> with
  a message that their \<^verbatim>\<open>catch\<close> accepts, \<^verbatim>\<open>setIAFactory\<close> with one that its
  \<^verbatim>\<open>catch\<close> does not accept.
\<close>

definition revertMessage :: "string \<Rightarrow> string" where
  "revertMessage m =
     (if m = ''addAndUseTREXVersion'' then ''version already exists''
      else if m = ''addTokenFactory'' then ''already a TokenFactory''
      else if m = ''setTREXFactory'' then ''factory already set''
      else ''out of gas'')"

definition revertingEnv :: "nat chain_env" where
  "revertingEnv = demoEnv\<lparr>sendTx := (\<lambda>w a m args. (Inl (Error (revertMessage m)), w))\<rparr>"

text \<open>A state file left behind by a run that stopped at the start of step 2.\<close>

definition interruptedLedger :: DeploymentState where
  "interruptedLedger =
     \<lparr>timestamp = 100, network = 560048, deployer = Some ''0xACC'',
      contracts =
        [(''TokenImplementation'', ''0xA1''),
         (''ClaimTopicsRegistryImplementation'', ''0xA2''),
         (''TrustedIssuersRegistryImplementation'', ''0xA3''),
         (''IdentityRegistryStorageImplementation'', ''0xA4''),
         (''IdentityRegistryImplementation'', ''0xA5''),
         (''ModularComplianceImplementation'', ''0xA6'')],
      progress =
        \<lparr>step = 2, description = ''Starting OnchainID infrastructure deployment'',
         lastUpdated = Some 120, versionConfigured = False,
         identityFactoryConfigured = False, trexFactoryConfigured = False,
         iaFactoryConfigured = False\<rparr>,
      completed = False, completedAt = None\<rparr>"

text \<open>The start of a first run: no state file, the clock at 500.\<close>

definition demoStart :: "nat run_state" where
  "demoStart =
     \<lparr>deploymentState = initialState 0 0, stateFile = NoFile, backupFiles = [],
      world = 500, trace = []\<rparr>"

text \<open>The start of a later run that finds the interrupted state file.\<close>

definition resumeStart :: "nat run_state" where
  "resumeStart = demoStart\<lparr>stateFile := LedgerFile interruptedLedger\<rparr>"

text \<open>In the middle of such a run: the state file has been merged into memory.\<close>

definition resumedState :: "nat run_state" where
  "resumedState = resumeStart\<lparr>deploymentState := interruptedLedger\<rparr>"

text \<open>The start of a run that finds the state file of a completed deployment.\<close>

definition completedLedger :: DeploymentState where
  "completedLedger =
     \<lparr>timestamp = 100, network = 560048, deployer = Some ''0xACC'',
      contracts =
        [(''TokenImplementation'', ''0xA1''),
         (''ClaimTopicsRegistryImplementation'', ''0xA2''),
         (''TrustedIssuersRegistryImplementation'', ''0xA3''),
         (''IdentityRegistryStorageImplementation'', ''0xA4''),
         (''IdentityRegistryImplementation'', ''0xA5''),
         (''ModularComplianceImplementation'', ''0xA6''),
         (''IdentityImplementation'', ''0xA7''),
         (''IdentityImplementationAuthority'', ''0xA8''),
         (''IdentityFactory'', ''0xA9''),
         (''TREXImplementationAuthority'', ''0xAA''),
         (''TREXFactory'', ''0xAB''),
         (''IAFactory'', ''0xAC'')],
      progress =
        \<lparr>step = 8, description = ''Deployment completed successfully!'',
         lastUpdated = Some 179, versionConfigured = True,
         identityFactoryConfigured = True, trexFactoryConfigured = True,
         iaFactoryConfigured = True\<rparr>,
      completed = True, completedAt = Some 180\<rparr>"

definition completedStart :: "nat run_state" where
  "completedStart = demoStart\<lparr>stateFile := LedgerFile completedLedger\<rparr>"

text \<open>
  A state file left behind by a run that stopped after the first deployment, and the
  start of a later run that finds it.
\<close>

definition startedLedger :: DeploymentState where
  "startedLedger =
     \<lparr>timestamp = 100, network = 560048,
      deployer = Some ''0x70997970c51812dc3a010c7d01b50e0d17dc79c8'',
      contracts = [(''TokenImplementation'', ''0x5fbdb2315678afecb367f032d93f642f64180aa3'')],
      progress =
        \<lparr>step = 11 / 10, description = ''Token implementation deployment completed'',
         lastUpdated = Some 120, versionConfigured = False,
         identityFactoryConfigured = False, trexFactoryConfigured = False,
         iaFactoryConfigured = False\<rparr>,
      completed = False, completedAt = None\<rparr>"

definition startedStart :: "nat run_state" where
  "startedStart = demoStart\<lparr>stateFile := LedgerFile startedLedger\<rparr>"



section \<open>Reasoning about runs\<close>

subsection \<open>What each helper computes\<close>

lemmas act_defs = ret_def throw_def bnd_def catch_def gets_def modify_def ext_def ext_total_def
  logEvent_def modifyState_def

lemma bnd_run: "bnd m f s = (case m s of (Inl e, s') \<Rightarrow> (Inl e, s') | (Inr a, s') \<Rightarrow> f a s')"
  by (simp add: bnd_def)

lemma isContractDeployed_cases:
  "isContractDeployed env addr s =
     (case addr of
        None \<Rightarrow> (Inr False, s)
      | Some a \<Rightarrow>
          if a = [] \<or> \<not> isAddress env a then (Inr False, s)
          else (case getCode env (world s) a of
                  (Inl e, w') \<Rightarrow> (Inr False, s\<lparr>trace := trace s @ [EvGetCode a], world := w'\<rparr>)
                | (Inr code, w') \<Rightarrow>
                    (Inr (code \<noteq> ''0x'' \<and> code \<noteq> ''0x0''),
                     s\<lparr>trace := trace s @ [EvGetCode a], world := w'\<rparr>)))"
  by (simp add: isContractDeployed_def act_defs split: option.splits prod.splits sum.splits)

lemma saveDeploymentState_cases:
  "saveDeploymentState env s =
     (case writeFileSync env (world s) ''deployment-state.json'' of
        (Inl e, w') \<Rightarrow> (Inl e, s\<lparr>world := w'\<rparr>)
      | (Inr u, w') \<Rightarrow>
          (Inr (), s\<lparr>world := w', stateFile := LedgerFile (deploymentState s),
                      trace := trace s @ [EvSave (deploymentState s)]\<rparr>))"
  by (simp add: saveDeploymentState_def act_defs split: prod.splits sum.splits)

lemma deployNow_cases:
  "deployNow env n f args s =
     (case deployTx env (world s) f args of
        (Inl e, w') \<Rightarrow> (Inl e, s\<lparr>trace := trace s @ [EvDeploy n f args], world := w'\<rparr>)
      | (Inr a, w') \<Rightarrow>
          (case saveDeploymentState env
                  (s\<lparr>trace := trace s @ [EvDeploy n f args], world := w',
                     deploymentState := (deploymentState s)
                       \<lparr>contracts := AList.update n a (contracts (deploymentState s))\<rparr>\<rparr>) of
             (Inl e, s') \<Rightarrow> (Inl e, s')
           | (Inr u, s') \<Rightarrow> (Inr (Contract a), s')))"
  by (simp add: deployNow_def act_defs split: prod.splits sum.splits)

lemma deployIfNeeded_cases:
  "deployIfNeeded env force n f args s =
     (case map_of (contracts (deploymentState s)) n of
        None \<Rightarrow> deployNow env n f args s
      | Some a \<Rightarrow>
          if a = [] then deployNow env n f args s
          else if force then
            deployNow env n f args
              (s\<lparr>deploymentState := (deploymentState s)
                   \<lparr>contracts := AList.delete n (contracts (deploymentState s))\<rparr>\<rparr>)
          else (case isContractDeployed env (Some a) s of
                  (Inr True, s1) \<Rightarrow> (Inr (Contract a), s1)
                | (Inr False, s1) \<Rightarrow>
                    deployNow env n f args
                      (s1\<lparr>deploymentState := (deploymentState s1)
                           \<lparr>contracts := AList.delete n (contracts (deploymentState s1))\<rparr>\<rparr>)
                | (Inl e, s1) \<Rightarrow> (Inl e, s1)))"
  by (simp add: deployIfNeeded_def forget_def truthy_def act_defs
      split: option.splits prod.splits sum.splits bool.splits)

lemma update_same: "map_of cs n = Some a \<Longrightarrow> AList.update n a cs = cs"
  by (induction cs) (auto split: if_splits)

lemma invoke_cases:
  "invoke env t m args s =
     (case sendTx env (world s) (address t) m args of
        (r, w') \<Rightarrow> (r, s\<lparr>trace := trace s @ [EvSend (address t) m args], world := w'\<rparr>))"
  by (simp add: invoke_def act_defs split: prod.splits sum.splits)

lemma updateProgress_cases:
  "updateProgress env k d n a s =
     (case clock env (world s) of
        (t, w1) \<Rightarrow>
          saveDeploymentState env
            (s\<lparr>world := w1,
               deploymentState := (deploymentState s)
                 \<lparr>progress := (progress (deploymentState s))
                    \<lparr>step := k, description := d, lastUpdated := Some t\<rparr>,
                  contracts := recordContract n a (contracts (deploymentState s))\<rparr>\<rparr>))"
  by (simp add: updateProgress_def act_defs split: prod.splits sum.splits)

lemma configureVersion_cases:
  "configureVersion env tia impls s =
     (if \<not> truthy (map_of (contracts (deploymentState s)) ''TREXImplementationAuthority'')
         \<or> \<not> versionConfigured (progress (deploymentState s))
      then (case sendTx env (world s) (address tia) ''addAndUseTREXVersion'' (versionArgs impls) of
              (Inl e, w') \<Rightarrow>
                (Inl e, s\<lparr>trace := trace s @ [EvSend (address tia) ''addAndUseTREXVersion''
                                                 (versionArgs impls)], world := w'\<rparr>)
            | (Inr u, w') \<Rightarrow>
                (Inr (), s\<lparr>trace := trace s @ [EvSend (address tia) ''addAndUseTREXVersion''
                                                  (versionArgs impls)], world := w',
                             deploymentState := (deploymentState s)
                               \<lparr>progress := (progress (deploymentState s))
                                  \<lparr>versionConfigured := True\<rparr>\<rparr>\<rparr>))
      else (Inr (), s))"
  by (simp add: configureVersion_def invoke_cases act_defs split: prod.splits sum.splits)

lemma configureIdentityFactory_cases:
  "configureIdentityFactory env idf tf s =
     (if identityFactoryConfigured (progress (deploymentState s)) then (Inr (), s)
      else (case sendTx env (world s) (address idf) ''addTokenFactory'' [AStr (address tf)] of
              (r, w') \<Rightarrow>
                (if (case r of Inr u \<Rightarrow> True
                     | Inl e \<Rightarrow> includesStr (message e) ''already a TokenFactory'')
                 then (Inr (), s\<lparr>trace := trace s @ [EvSend (address idf) ''addTokenFactory''
                                                      [AStr (address tf)]], world := w',
                             deploymentState := (deploymentState s)
                               \<lparr>progress := (progress (deploymentState s))
                                  \<lparr>identityFactoryConfigured := True\<rparr>\<rparr>\<rparr>)
                 else (r, s\<lparr>trace := trace s @ [EvSend (address idf) ''addTokenFactory''
                                                  [AStr (address tf)]], world := w'\<rparr>))))"
  by (simp add: configureIdentityFactory_def invoke_cases act_defs split: prod.splits sum.splits)

lemma configureTREXFactory_cases:
  "configureTREXFactory env tia tf s =
     (if trexFactoryConfigured (progress (deploymentState s)) then (Inr (), s)
      else (case sendTx env (world s) (address tia) ''setTREXFactory'' [AStr (address tf)] of
              (r, w') \<Rightarrow>
                (if (case r of Inr u \<Rightarrow> True
                     | Inl e \<Rightarrow> includesStr (message e) ''already set''
                                \<or> includesStr (message e) ''same'')
                 then (Inr (), s\<lparr>trace := trace s @ [EvSend (address tia) ''setTREXFactory''
                                                      [AStr (address tf)]], world := w',
                             deploymentState := (deploymentState s)
                               \<lparr>progress := (progress (deploymentState s))
                                  \<lparr>trexFactoryConfigured := True\<rparr>\<rparr>\<rparr>)
                 else (r, s\<lparr>trace := trace s @ [EvSend (address tia) ''setTREXFactory''
                                                  [AStr (address tf)]], world := w'\<rparr>))))"
  by (simp add: configureTREXFactory_def invoke_cases act_defs split: prod.splits sum.splits)

lemma configureIAFactory_cases:
  "configureIAFactory env tia iaf s =
     (if iaFactoryConfigured (progress (deploymentState s)) then (Inr (), s)
      else (case sendTx env (world s) (address tia) ''setIAFactory'' [AStr (address iaf)] of
              (r, w') \<Rightarrow>
                (if (case r of Inr u \<Rightarrow> True
                     | Inl e \<Rightarrow> includesStr (message e) ''already set''
                                \<or> includesStr (message e) ''same'')
                 then (Inr (), s\<lparr>trace := trace s @ [EvSend (address tia) ''setIAFactory''
                                                      [AStr (address iaf)]], world := w',
                             deploymentState := (deploymentState s)
                               \<lparr>progress := (progress (deploymentState s))
                                  \<lparr>iaFactoryConfigured := True\<rparr>\<rparr>\<rparr>)
                 else (r, s\<lparr>trace := trace s @ [EvSend (address tia) ''setIAFactory''
                                                  [AStr (address iaf)]], world := w'\<rparr>))))"
  by (simp add: configureIAFactory_def invoke_cases act_defs split: prod.splits sum.splits)

lemma bnd_fatal: "fst (m s) = Inl e \<Longrightarrow> fst (bnd m f s) = Inl e"
  by (cases "m s") (auto simp: bnd_def)

lemma bnd_Inr:
  assumes "bnd m f s = (Inr b, s')"
  obtains a s1 where "m s = (Inr a, s1)" "f a s1 = (Inr b, s')"
  using assms by (cases "m s") (auto simp: bnd_def split: sum.splits)

lemma updateProgress_flushes:
  assumes "updateProgress env k d n a s = (Inr u, s')"
  shows "stateFile s' = LedgerFile (deploymentState s')
       \<and> versionConfigured (progress (deploymentState s'))
           = versionConfigured (progress (deploymentState s))
       \<and> identityFactoryConfigured (progress (deploymentState s'))
           = identityFactoryConfigured (progress (deploymentState s))
       \<and> trexFactoryConfigured (progress (deploymentState s'))
           = trexFactoryConfigured (progress (deploymentState s))
       \<and> iaFactoryConfigured (progress (deploymentState s'))
           = iaFactoryConfigured (progress (deploymentState s))"
  using assms
  by (auto simp: updateProgress_cases saveDeploymentState_cases split: prod.splits sum.splits)

lemma step5_flag_stored:
  assumes "step5 env idf tf s = (Inr u, s')"
  shows "map_option (\<lambda>ds. identityFactoryConfigured (progress ds))
           (parseStateFile (stateFile s')) = Some True"
proof -
  from assms obtain s1 s2 where
    1: "updateProgress env 5 ''Configuring IdentityFactory'' None None s = (Inr (), s1)" and
    2: "configureIdentityFactory env idf tf s1 = (Inr (), s2)" and
    3: "updateProgress env 5.1 ''IdentityFactory configuration completed'' None None s2
          = (Inr u, s')"
    unfolding step5_def by (elim bnd_Inr) auto
  from 2 have "identityFactoryConfigured (progress (deploymentState s2))"
    by (auto simp: configureIdentityFactory_cases split: if_splits prod.splits sum.splits)
  with updateProgress_flushes [OF 3] show ?thesis
    by (simp add: parseStateFile_def)
qed

lemma step7_flags_stored:
  assumes "step7 env tia tf iaf s = (Inr u, s')"
  shows "map_option (\<lambda>ds. trexFactoryConfigured (progress ds) \<and> iaFactoryConfigured (progress ds))
           (parseStateFile (stateFile s')) = Some True"
proof -
  from assms obtain s1 s2 s3 where
    1: "updateProgress env 7 ''Final configuration'' None None s = (Inr (), s1)" and
    2: "configureTREXFactory env tia tf s1 = (Inr (), s2)" and
    3: "configureIAFactory env tia iaf s2 = (Inr (), s3)" and
    4: "updateProgress env 7.1 ''All configurations completed'' None None s3 = (Inr u, s')"
    unfolding step7_def by (elim bnd_Inr) auto
  from 2 have a: "trexFactoryConfigured (progress (deploymentState s2))"
    by (auto simp: configureTREXFactory_cases split: if_splits prod.splits sum.splits)
  from 3 a have "trexFactoryConfigured (progress (deploymentState s3))
      \<and> iaFactoryConfigured (progress (deploymentState s3))"
    by (auto simp: configureIAFactory_cases split: if_splits prod.splits sum.splits)
  with updateProgress_flushes [OF 4] show ?thesis
    by (simp add: parseStateFile_def)
qed

subsection \<open>Rules for sequences of helpers\<close>

lemma hoareI: "(\<And>s a s'. P s \<Longrightarrow> m s = (Inr a, s') \<Longrightarrow> Q a s')
  \<Longrightarrow> (\<And>s e s'. P s \<Longrightarrow> m s = (Inl e, s') \<Longrightarrow> E e s') \<Longrightarrow> hoare P m Q E"
  by (auto simp: hoare_def split: prod.splits sum.splits)

lemma hoareD_Inr: "hoare P m Q E \<Longrightarrow> P s \<Longrightarrow> m s = (Inr a, s') \<Longrightarrow> Q a s'"
  by (auto simp: hoare_def split: prod.splits sum.splits)

lemma hoareD_Inl: "hoare P m Q E \<Longrightarrow> P s \<Longrightarrow> m s = (Inl e, s') \<Longrightarrow> E e s'"
  by (auto simp: hoare_def split: prod.splits sum.splits)

lemma hoare_bnd:
  assumes m: "hoare P m R E" and f: "\<And>x. hoare (R x) (f x) Q E"
  shows "hoare P (bnd m f) Q E"
proof (rule hoareI)
  fix s b s' assume P: "P s" and run: "bnd m f s = (Inr b, s')"
  from run obtain a s1 where 1: "m s = (Inr a, s1)" and 2: "f a s1 = (Inr b, s')"
    by (rule bnd_Inr)
  from hoareD_Inr [OF m P 1] have "R a s1" .
  from hoareD_Inr [OF f this 2] show "Q b s'" .
next
  fix s e s' assume P: "P s" and run: "bnd m f s = (Inl e, s')"
  show "E e s'"
  proof (cases "m s")
    case (Pair r s1)
    show ?thesis
    proof (cases r)
      case (Inl e1)
      with Pair run have "e1 = e" "s1 = s'" by (simp_all add: bnd_def)
      with Pair Inl hoareD_Inl [OF m P] show ?thesis by simp
    next
      case (Inr a)
      with Pair run have 2: "f a s1 = (Inl e, s')" by (simp add: bnd_def)
      from Pair Inr hoareD_Inr [OF m P] have "R a s1" by simp
      from hoareD_Inl [OF f this 2] show ?thesis .
    qed
  qed
qed

lemma hoare_ret: "(\<And>s. P s \<Longrightarrow> Q a s) \<Longrightarrow> hoare P (ret a) Q E"
  by (simp add: hoare_def ret_def)

lemma hoare_weaken:
  assumes m: "hoare P' m Q' E'" and "\<And>s. P s \<Longrightarrow> P' s" and "\<And>a s. Q' a s \<Longrightarrow> Q a s"
    and "\<And>e s. E' e s \<Longrightarrow> E e s"
  shows "hoare P m Q E"
proof (rule hoareI)
  fix s a s' assume "P s" "m s = (Inr a, s')"
  with assms hoareD_Inr [OF m] show "Q a s'" by blast
next
  fix s e s' assume "P s" "m s = (Inl e, s')"
  with assms hoareD_Inl [OF m] show "E e s'" by blast
qed

lemma saveSteps_append [simp]: "saveSteps (xs @ ys) = saveSteps xs @ saveSteps ys"
  by (induction xs rule: saveSteps.induct) simp_all

lemma fileAfter_append [simp]: "fileAfter f (xs @ ys) = fileAfter (fileAfter f xs) ys"
  by (induction f xs rule: fileAfter.induct) simp_all

lemma plainLog_append [simp]: "plainLog t0 (xs @ ys) = (plainLog t0 xs \<and> plainLog t0 ys)"
  by (simp add: plainLog_def)

lemma plainLog_simps [simp]:
  "plainLog t0 [] = True" "plainLog t0 (ev # evs) = (plainEvent t0 ev \<and> plainLog t0 evs)"
  by (simp_all add: plainLog_def)

lemma startsLow_append: "ks \<noteq> [] \<Longrightarrow> startsLow (ks @ ks') = startsLow ks"
  by (cases ks) (simp_all add: startsLow_def)

lemma startsLow_simps [simp]: "startsLow [] = True" "startsLow (k # ks) = (k = 0 \<or> k = 1)"
  by (simp_all add: startsLow_def)

lemma sorted_snoc: "sorted (ks @ [k]) = (sorted ks \<and> (ks = [] \<or> last ks \<le> k))" for k :: rat
proof (cases "ks = []")
  case False
  have "(\<forall>x \<in> set ks. x \<le> k) = (last ks \<le> k)" if "sorted ks"
  proof
    assume "\<forall>x \<in> set ks. x \<le> k" with False show "last ks \<le> k" by simp
  next
    assume l: "last ks \<le> k"
    from False obtain ys where ks: "ks = ys @ [last ks]"
      by (metis append_butlast_last_id)
    with that have "\<forall>x \<in> set ys. x \<le> last ks"
      by (metis sorted_append list.set_intros(1))
    with l ks show "\<forall>x \<in> set ks. x \<le> k"
      by (metis Un_iff empty_iff empty_set order_trans set_ConsD set_append)
  qed
  then show ?thesis using False by (auto simp: sorted_append)
qed simp

subsection \<open>What every helper preserves\<close>

lemma logOk_chain [simp]:
  "logOk t0 f0 b0 sf bf (evs @ [EvGetCode x]) = logOk t0 f0 b0 sf bf evs"
  "logOk t0 f0 b0 sf bf (evs @ [EvDeploy n f args]) = logOk t0 f0 b0 sf bf evs"
  "logOk t0 f0 b0 sf bf (evs @ [EvSend x m args]) = logOk t0 f0 b0 sf bf evs"
  by (simp_all add: logOk_def)

lemma phaseOk_chain [simp]:
  "phaseOk ph k (evs @ [EvGetCode x]) = phaseOk ph k evs"
  "phaseOk ph k (evs @ [EvDeploy n f args]) = phaseOk ph k evs"
  "phaseOk ph k (evs @ [EvSend x m args]) = phaseOk ph k evs"
  by (cases ph; simp add: phaseOk_def)+

lemma ledgerOk_contracts [simp]:
  "ledgerOk t0 v i t a (ds\<lparr>contracts := cs\<rparr>) = ledgerOk t0 v i t a ds"
  by (simp add: ledgerOk_def)

lemma ledgerOk_progress [simp]:
  "ledgerOk t0 v i t a (ds\<lparr>progress := (progress ds)\<lparr>step := k, description := d, lastUpdated := l\<rparr>\<rparr>)
     = ledgerOk t0 v i t a ds"
  by (simp add: ledgerOk_def)

lemma ledgerOk_deployer [simp]:
  "ledgerOk t0 v i t a (ds\<lparr>deployer := x\<rparr>) = ledgerOk t0 v i t a ds"
  by (simp add: ledgerOk_def)

lemma ledgerOk_flags:
  "ledgerOk t0 v i t a ds \<Longrightarrow>
     ledgerOk t0 True i t a (ds\<lparr>progress := (progress ds)\<lparr>versionConfigured := True\<rparr>\<rparr>)"
  "ledgerOk t0 v i t a ds \<Longrightarrow>
     ledgerOk t0 v True t a (ds\<lparr>progress := (progress ds)\<lparr>identityFactoryConfigured := True\<rparr>\<rparr>)"
  "ledgerOk t0 v i t a ds \<Longrightarrow>
     ledgerOk t0 v i True a (ds\<lparr>progress := (progress ds)\<lparr>trexFactoryConfigured := True\<rparr>\<rparr>)"
  "ledgerOk t0 v i t a ds \<Longrightarrow>
     ledgerOk t0 v i t True (ds\<lparr>progress := (progress ds)\<lparr>iaFactoryConfigured := True\<rparr>\<rparr>)"
  by (simp_all add: ledgerOk_def)

lemma ledgerOk_known:
  "ledgerOk t0 v i t a ds \<Longrightarrow> versionConfigured (progress ds) \<Longrightarrow> ledgerOk t0 True i t a ds"
  "ledgerOk t0 v i t a ds \<Longrightarrow> identityFactoryConfigured (progress ds) \<Longrightarrow> ledgerOk t0 v True t a ds"
  "ledgerOk t0 v i t a ds \<Longrightarrow> trexFactoryConfigured (progress ds) \<Longrightarrow> ledgerOk t0 v i True a ds"
  "ledgerOk t0 v i t a ds \<Longrightarrow> iaFactoryConfigured (progress ds) \<Longrightarrow> ledgerOk t0 v i t True ds"
  by (simp_all add: ledgerOk_def)

lemma logOk_save:
  assumes "ledgerOk t0 v i t a ds" and "logOk t0 f0 b0 sf bf evs"
    and "saveSteps evs \<noteq> [] \<Longrightarrow> last (saveSteps evs) \<le> step (progress ds)"
    and "saveSteps evs = [] \<Longrightarrow> step (progress ds) = 0 \<or> step (progress ds) = 1"
  shows "logOk t0 f0 b0 (LedgerFile ds) bf (evs @ [EvSave ds])"
  using assms
  by (cases "saveSteps evs = []") (simp_all add: logOk_def ledgerOk_def sorted_snoc startsLow_append)

lemma phaseOk_save [simp]:
  "phaseOk (Some k) k' (evs @ [EvSave ds]) = (step (progress ds) \<le> k \<and> k' = k)"
  by (simp add: phaseOk_def)

lemma phaseOk_SomeD:
  "phaseOk (Some k) k' evs \<Longrightarrow> saveSteps evs \<noteq> [] \<and> last (saveSteps evs) \<le> k \<and> k' = k"
  by (simp add: phaseOk_def)

lemma phaseOk_NoneD: "phaseOk None k' evs \<Longrightarrow> saveSteps evs = []"
  by (simp add: phaseOk_def)

text \<open>Saving the state in memory.\<close>

lemma inv_save:
  assumes "saveDeploymentState env s = (r, s')"
    and l: "ledgerOk t0 v i t a (deploymentState s)"
    and g: "logOk t0 f0 b0 (stateFile s) (backupFiles s) (trace s)"
    and p: "case ph of
              None \<Rightarrow> saveSteps (trace s) = []
                \<and> (step (progress (deploymentState s)) = 0 \<or> step (progress (deploymentState s)) = 1)
            | Some k \<Rightarrow> phaseOk (Some k) k (trace s) \<and> k \<le> step (progress (deploymentState s))"
  shows "case r of
           Inl e \<Rightarrow> errInv t0 f0 b0 s'
         | Inr u \<Rightarrow> runInv t0 f0 b0 (Some (step (progress (deploymentState s)))) v i t a s'"
proof (cases "writeFileSync env (world s) ''deployment-state.json''")
  case (Pair res w')
  show ?thesis
  proof (cases res)
    case (Inl e)
    with Pair assms(1) g show ?thesis
      by (auto simp: saveDeploymentState_cases errInv_def)
  next
    case (Inr u)
    have "logOk t0 f0 b0 (LedgerFile (deploymentState s)) (backupFiles s)
            (trace s @ [EvSave (deploymentState s)])"
      using l g p by (intro logOk_save) (auto split: option.splits dest: phaseOk_SomeD)
    with Pair Inr assms(1) l show ?thesis
      by (auto simp: saveDeploymentState_cases runInv_def)
  qed
qed

lemma A1:
  assumes "k \<le> k'"
  shows "hoare (runInv t0 f0 b0 (Some k) v i t a) (updateProgress env k' d n c)
           (\<lambda>_. runInv t0 f0 b0 (Some k') v i t a) (\<lambda>_. errInv t0 f0 b0)"
proof -
  have "case r of Inl e \<Rightarrow> errInv t0 f0 b0 s' | Inr u \<Rightarrow> runInv t0 f0 b0 (Some k') v i t a s'"
    if inv: "runInv t0 f0 b0 (Some k) v i t a s" and run: "updateProgress env k' d n c s = (r, s')"
    for s r s'
  proof (cases "clock env (world s)")
    case (Pair tm w1)
    let ?s1 = "s\<lparr>world := w1,
               deploymentState := (deploymentState s)
                 \<lparr>progress := (progress (deploymentState s))
                    \<lparr>step := k', description := d, lastUpdated := Some tm\<rparr>,
                  contracts := recordContract n c (contracts (deploymentState s))\<rparr>\<rparr>"
    from Pair run have 1: "saveDeploymentState env ?s1 = (r, s')"
      by (simp add: updateProgress_cases)
    from inv have "phaseOk (Some k) k (trace s)" by (auto simp: runInv_def dest: phaseOk_SomeD)
    with inv assms inv_save [OF 1, of t0 v i t a f0 b0 "Some k"] show ?thesis
      by (cases r) (simp_all add: runInv_def)
  qed
  then show ?thesis
    by (intro hoareI) fastforce+
qed

lemma A1_first:
  assumes "k' = 0 \<or> k' = 1"
  shows "hoare (runInv t0 f0 b0 None v i t a) (updateProgress env k' d n c)
           (\<lambda>_. runInv t0 f0 b0 (Some k') v i t a) (\<lambda>_. errInv t0 f0 b0)"
proof -
  have "case r of Inl e \<Rightarrow> errInv t0 f0 b0 s' | Inr u \<Rightarrow> runInv t0 f0 b0 (Some k') v i t a s'"
    if inv: "runInv t0 f0 b0 None v i t a s" and run: "updateProgress env k' d n c s = (r, s')"
    for s r s'
  proof (cases "clock env (world s)")
    case (Pair tm w1)
    let ?s1 = "s\<lparr>world := w1,
               deploymentState := (deploymentState s)
                 \<lparr>progress := (progress (deploymentState s))
                    \<lparr>step := k', description := d, lastUpdated := Some tm\<rparr>,
                  contracts := recordContract n c (contracts (deploymentState s))\<rparr>\<rparr>"
    from Pair run have 1: "saveDeploymentState env ?s1 = (r, s')"
      by (simp add: updateProgress_cases)
    from inv have "saveSteps (trace s) = []" by (auto simp: runInv_def dest: phaseOk_NoneD)
    with inv assms inv_save [OF 1, of t0 v i t a f0 b0 None] show ?thesis
      by (cases r) (simp_all add: runInv_def)
  qed
  then show ?thesis
    by (intro hoareI) fastforce+
qed


lemma hoare_cases:
  "(\<And>s r s'. P s \<Longrightarrow> m s = (r, s') \<Longrightarrow> (case r of Inl e \<Rightarrow> E e s' | Inr a \<Rightarrow> Q a s'))
   \<Longrightarrow> hoare P m Q E"
  by (rule hoareI) fastforce+

lemma runInv_world [simp]:
  "runInv t0 f0 b0 ph v i t a (s\<lparr>world := w\<rparr>) = runInv t0 f0 b0 ph v i t a s"
  by (simp add: runInv_def)

lemma errInv_world [simp]: "errInv t0 f0 b0 (s\<lparr>world := w\<rparr>) = errInv t0 f0 b0 s"
  by (simp add: errInv_def)

lemma runInv_err: "runInv t0 f0 b0 ph v i t a s \<Longrightarrow> errInv t0 f0 b0 s"
  by (simp add: runInv_def errInv_def)

lemma factoryFromFile_world:
  "factoryFromFile env p x y s = (r, s') \<Longrightarrow> \<exists>w. s' = s\<lparr>world := w\<rparr>"
  by (auto simp: factoryFromFile_def act_defs split: prod.splits artifact_file.splits if_splits)

lemma getContractArtifact_world:
  "getContractArtifact env n s = (r, s') \<Longrightarrow> \<exists>w. s' = s\<lparr>world := w\<rparr>"
  by (auto simp: getContractArtifact_def throw_def split: option.splits
      dest: factoryFromFile_world intro: exI [of _ "world s"])

lemma getOnchainIDContractFactory_world:
  "getOnchainIDContractFactory env n s = (r, s') \<Longrightarrow> \<exists>w. s' = s\<lparr>world := w\<rparr>"
  by (auto simp: getOnchainIDContractFactory_def throw_def split: if_splits
      dest: factoryFromFile_world intro: exI [of _ "world s"])

lemma A2:
  "hoare (runInv t0 f0 b0 ph v i t a) (getContractArtifact env n)
     (\<lambda>_. runInv t0 f0 b0 ph v i t a) (\<lambda>_. errInv t0 f0 b0)"
  by (rule hoare_cases) (auto dest!: getContractArtifact_world dest: runInv_err split: sum.splits)

lemma A3:
  "hoare (runInv t0 f0 b0 ph v i t a) (getOnchainIDContractFactory env n)
     (\<lambda>_. runInv t0 f0 b0 ph v i t a) (\<lambda>_. errInv t0 f0 b0)"
  by (rule hoare_cases)
    (auto dest!: getOnchainIDContractFactory_world dest: runInv_err split: sum.splits)

lemma inv_deployNow:
  assumes inv: "runInv t0 f0 b0 (Some k) v i t a s" and run: "deployNow env n f args s = (r, s')"
  shows "case r of Inl e \<Rightarrow> errInv t0 f0 b0 s' | Inr u \<Rightarrow> runInv t0 f0 b0 (Some k) v i t a s'"
proof (cases "deployTx env (world s) f args")
  case (Pair res w')
  show ?thesis
  proof (cases res)
    case (Inl e)
    with Pair run inv show ?thesis
      by (auto simp: deployNow_cases runInv_def errInv_def)
  next
    case (Inr x)
    let ?s1 = "s\<lparr>trace := trace s @ [EvDeploy n f args], world := w',
                 deploymentState := (deploymentState s)
                   \<lparr>contracts := AList.update n x (contracts (deploymentState s))\<rparr>\<rparr>"
    obtain r1 where 1: "saveDeploymentState env ?s1 = (r1, s')"
      and r: "r = (case r1 of Inl e \<Rightarrow> Inl e | Inr u \<Rightarrow> Inr (Contract x))"
      using Pair Inr run by (auto simp: deployNow_cases split: prod.splits sum.splits)
    from inv have "phaseOk (Some k) k (trace s)" "step (progress (deploymentState s)) = k"
      by (auto simp: runInv_def dest: phaseOk_SomeD)
    with inv inv_save [OF 1, of t0 v i t a f0 b0 "Some k"] r show ?thesis
      by (cases r1) (simp_all add: runInv_def)
  qed
qed

lemma isContractDeployed_effect:
  assumes "isContractDeployed env x s = (r, s')"
  shows "(\<exists>b. r = Inr b) \<and> deploymentState s' = deploymentState s \<and> stateFile s' = stateFile s
       \<and> backupFiles s' = backupFiles s
       \<and> (trace s' = trace s \<or> (\<exists>y. trace s' = trace s @ [EvGetCode y]))"
  using assms
  by (auto simp: isContractDeployed_cases split: option.splits if_splits prod.splits sum.splits)

lemma inv_isContractDeployed:
  assumes "runInv t0 f0 b0 ph v i t a s" and "isContractDeployed env x s = (r, s')"
  shows "runInv t0 f0 b0 ph v i t a s'"
  using assms(1) isContractDeployed_effect [OF assms(2)]
  by (auto simp: runInv_def)

lemma runInv_contracts [simp]:
  "runInv t0 f0 b0 ph v i t a
     (s\<lparr>deploymentState := (deploymentState s)\<lparr>contracts := cs\<rparr>\<rparr>) = runInv t0 f0 b0 ph v i t a s"
  by (simp add: runInv_def)

lemma A4:
  "hoare (runInv t0 f0 b0 (Some k) v i t a) (deployIfNeeded env force n f args)
     (\<lambda>_. runInv t0 f0 b0 (Some k) v i t a) (\<lambda>_. errInv t0 f0 b0)"
proof (rule hoare_cases)
  fix s r s'
  assume inv: "runInv t0 f0 b0 (Some k) v i t a s"
    and run: "deployIfNeeded env force n f args s = (r, s')"
  let ?goal = "case r of Inl e \<Rightarrow> errInv t0 f0 b0 s' | Inr u \<Rightarrow> runInv t0 f0 b0 (Some k) v i t a s'"
  consider (now) "deployNow env n f args s = (r, s')"
    | (forced) "deployNow env n f args
        (s\<lparr>deploymentState := (deploymentState s)
             \<lparr>contracts := AList.delete n (contracts (deploymentState s))\<rparr>\<rparr>) = (r, s')"
    | (skip) x where "isContractDeployed env (Some x) s = (Inr True, s')" "r = Inr (Contract x)"
    | (dead) x s1 where "isContractDeployed env (Some x) s = (Inr False, s1)"
        "deployNow env n f args
          (s1\<lparr>deploymentState := (deploymentState s1)
               \<lparr>contracts := AList.delete n (contracts (deploymentState s1))\<rparr>\<rparr>) = (r, s')"
    | (impossible) x e where "isContractDeployed env (Some x) s = (Inl e, s')"
    using run
    by (auto simp: deployIfNeeded_cases split: option.splits if_splits prod.splits sum.splits
        bool.splits)
  then show ?goal
  proof cases
    case now
    from inv_deployNow [OF inv now] show ?thesis .
  next
    case forced
    from inv have "runInv t0 f0 b0 (Some k) v i t a
        (s\<lparr>deploymentState := (deploymentState s)
             \<lparr>contracts := AList.delete n (contracts (deploymentState s))\<rparr>\<rparr>)"
      by simp
    from inv_deployNow [OF this forced] show ?thesis .
  next
    case skip
    with inv_isContractDeployed [OF inv skip(1)] show ?thesis by simp
  next
    case dead
    from inv_isContractDeployed [OF inv dead(1)]
    have "runInv t0 f0 b0 (Some k) v i t a
        (s1\<lparr>deploymentState := (deploymentState s1)
              \<lparr>contracts := AList.delete n (contracts (deploymentState s1))\<rparr>\<rparr>)"
      by simp
    from inv_deployNow [OF this dead(2)] show ?thesis .
  next
    case impossible
    with isContractDeployed_effect [OF impossible] show ?thesis by simp
  qed
qed

lemma runInv_chain [simp]:
  "runInv t0 f0 b0 ph v i t a (s\<lparr>trace := trace s @ [EvSend x m args]\<rparr>)
     = runInv t0 f0 b0 ph v i t a s"
  "runInv t0 f0 b0 ph v i t a (s\<lparr>trace := trace s @ [EvGetCode x]\<rparr>)
     = runInv t0 f0 b0 ph v i t a s"
  "runInv t0 f0 b0 ph v i t a (s\<lparr>trace := trace s @ [EvDeploy n f args]\<rparr>)
     = runInv t0 f0 b0 ph v i t a s"
  by (simp_all add: runInv_def)

lemma errInv_chain [simp]:
  "errInv t0 f0 b0 (s\<lparr>trace := trace s @ [EvSend x m args]\<rparr>) = errInv t0 f0 b0 s"
  "errInv t0 f0 b0 (s\<lparr>trace := trace s @ [EvGetCode x]\<rparr>) = errInv t0 f0 b0 s"
  "errInv t0 f0 b0 (s\<lparr>trace := trace s @ [EvDeploy n f args]\<rparr>) = errInv t0 f0 b0 s"
  by (simp_all add: errInv_def)

lemma runInv_flag:
  "runInv t0 f0 b0 ph v i t a s \<Longrightarrow>
     runInv t0 f0 b0 ph True i t a
       (s\<lparr>trace := trace s @ [EvSend x m args], world := w,
          deploymentState := (deploymentState s)
            \<lparr>progress := (progress (deploymentState s))\<lparr>versionConfigured := True\<rparr>\<rparr>\<rparr>)"
  "runInv t0 f0 b0 ph v i t a s \<Longrightarrow>
     runInv t0 f0 b0 ph v True t a
       (s\<lparr>trace := trace s @ [EvSend x m args], world := w,
          deploymentState := (deploymentState s)
            \<lparr>progress := (progress (deploymentState s))\<lparr>identityFactoryConfigured := True\<rparr>\<rparr>\<rparr>)"
  "runInv t0 f0 b0 ph v i t a s \<Longrightarrow>
     runInv t0 f0 b0 ph v i True a
       (s\<lparr>trace := trace s @ [EvSend x m args], world := w,
          deploymentState := (deploymentState s)
            \<lparr>progress := (progress (deploymentState s))\<lparr>trexFactoryConfigured := True\<rparr>\<rparr>\<rparr>)"
  "runInv t0 f0 b0 ph v i t a s \<Longrightarrow>
     runInv t0 f0 b0 ph v i t True
       (s\<lparr>trace := trace s @ [EvSend x m args], world := w,
          deploymentState := (deploymentState s)
            \<lparr>progress := (progress (deploymentState s))\<lparr>iaFactoryConfigured := True\<rparr>\<rparr>\<rparr>)"
  by (auto simp: runInv_def intro: ledgerOk_flags)

lemma runInv_known:
  "runInv t0 f0 b0 ph v i t a s \<Longrightarrow> versionConfigured (progress (deploymentState s))
     \<Longrightarrow> runInv t0 f0 b0 ph True i t a s"
  "runInv t0 f0 b0 ph v i t a s \<Longrightarrow> identityFactoryConfigured (progress (deploymentState s))
     \<Longrightarrow> runInv t0 f0 b0 ph v True t a s"
  "runInv t0 f0 b0 ph v i t a s \<Longrightarrow> trexFactoryConfigured (progress (deploymentState s))
     \<Longrightarrow> runInv t0 f0 b0 ph v i True a s"
  "runInv t0 f0 b0 ph v i t a s \<Longrightarrow> iaFactoryConfigured (progress (deploymentState s))
     \<Longrightarrow> runInv t0 f0 b0 ph v i t True s"
  by (auto simp: runInv_def intro: ledgerOk_known)

lemma A5:
  "hoare (runInv t0 f0 b0 ph v i t a) (configureVersion env tia impls)
     (\<lambda>_. runInv t0 f0 b0 ph True i t a) (\<lambda>_. errInv t0 f0 b0)"
  by (rule hoare_cases)
    (auto simp: configureVersion_cases runInv_flag runInv_known 
      split: if_splits prod.splits sum.splits dest: runInv_err)

lemma A6:
  "hoare (runInv t0 f0 b0 ph v i t a) (configureIdentityFactory env idf tf)
     (\<lambda>_. runInv t0 f0 b0 ph v True t a) (\<lambda>_. errInv t0 f0 b0)"
  by (rule hoare_cases)
    (auto simp: configureIdentityFactory_cases runInv_flag runInv_known 
      split: if_splits prod.splits sum.splits dest: runInv_err)

lemma A7:
  "hoare (runInv t0 f0 b0 ph v i t a) (configureTREXFactory env tia tf)
     (\<lambda>_. runInv t0 f0 b0 ph v i True a) (\<lambda>_. errInv t0 f0 b0)"
  by (rule hoare_cases)
    (auto simp: configureTREXFactory_cases runInv_flag runInv_known 
      split: if_splits prod.splits sum.splits dest: runInv_err)

lemma A8:
  "hoare (runInv t0 f0 b0 ph v i t a) (configureIAFactory env tia iaf)
     (\<lambda>_. runInv t0 f0 b0 ph v i t True) (\<lambda>_. errInv t0 f0 b0)"
  by (rule hoare_cases)
    (auto simp: configureIAFactory_cases runInv_flag runInv_known 
      split: if_splits prod.splits sum.splits dest: runInv_err)

lemma hoare_ret_same: "hoare P (ret x) (\<lambda>_. P) E"
  by (simp add: hoare_def ret_def)

lemma step1_inv:
  assumes first: "hoare P (updateProgress env 1 ''Starting implementation contracts deployment''
                    None None) (\<lambda>_. runInv t0 f0 b0 (Some 1) v i t a) (\<lambda>_. errInv t0 f0 b0)"
  shows "hoare P (step1 env force) (\<lambda>_. runInv t0 f0 b0 (Some 1.6) v i t a) (\<lambda>_. errInv t0 f0 b0)"
  unfolding step1_def
  apply (rule hoare_bnd, rule first)
  apply (rule hoare_bnd, (rule A1, simp | rule A2 | rule A4))+
  apply (rule hoare_ret_same)
  done

subsection \<open>What the steps and the whole run preserve\<close>

lemma hoare_gets: "(\<And>s. P s \<Longrightarrow> Q (f s) s) \<Longrightarrow> hoare P (gets f) Q E"
  by (simp add: hoare_def gets_def)

lemma hoare_modifyState:
  "(\<And>s. P s \<Longrightarrow> Q () (s\<lparr>deploymentState := f (deploymentState s)\<rparr>))
   \<Longrightarrow> hoare P (modifyState f) Q E"
  by (simp add: hoare_def modifyState_def modify_def)

lemma hoare_ext:
  "(\<And>s r w'. P s \<Longrightarrow> op (world s) = (r, w')
      \<Longrightarrow> (case r of Inl e \<Rightarrow> E e (s\<lparr>world := w'\<rparr>) | Inr a \<Rightarrow> Q a (s\<lparr>world := w'\<rparr>)))
   \<Longrightarrow> hoare P (ext op) Q E"
  by (rule hoare_cases) (auto simp: ext_def split: prod.splits)

lemma hoare_ext_total:
  "(\<And>s a w'. P s \<Longrightarrow> op (world s) = (a, w') \<Longrightarrow> Q a (s\<lparr>world := w'\<rparr>))
   \<Longrightarrow> hoare P (ext_total op) Q E"
  by (rule hoare_cases) (auto simp: ext_total_def split: prod.splits)

lemma hoare_disj:
  "hoare P1 m Q E \<Longrightarrow> hoare P2 m Q E \<Longrightarrow> hoare (\<lambda>s. P1 s \<or> P2 s) m Q E"
  by (auto simp: hoare_def)

lemma hoare_pre: "hoare P' m Q E \<Longrightarrow> (\<And>s. P s \<Longrightarrow> P' s) \<Longrightarrow> hoare P m Q E"
  by (auto simp: hoare_def)

lemma hoare_post:
  "hoare P m Q' E' \<Longrightarrow> (\<And>a s. Q' a s \<Longrightarrow> Q a s) \<Longrightarrow> (\<And>e s. E' e s \<Longrightarrow> E e s)
   \<Longrightarrow> hoare P m Q E"
  by (rule hoare_weaken)

lemma step2_inv:
  assumes "k \<le> 2"
  shows "hoare (runInv t0 f0 b0 (Some k) v i t a) (step2 env force accounts)
           (\<lambda>_. runInv t0 f0 b0 (Some 2.3) v i t a) (\<lambda>_. errInv t0 f0 b0)"
  unfolding step2_def using assms
  apply -
  apply (rule hoare_bnd, (rule A1, simp | rule A3 | rule A4))+
  apply (rule hoare_ret_same)
  done

lemma step3_inv:
  assumes "k \<le> 3"
  shows "hoare (runInv t0 f0 b0 (Some k) v i t a) (step3 env force impls)
           (\<lambda>_. runInv t0 f0 b0 (Some 3.2) True i t a) (\<lambda>_. errInv t0 f0 b0)"
  unfolding step3_def using assms
  apply -
  apply (rule hoare_bnd, (rule A1, simp | rule A2 | rule A4 | rule A5))+
  apply (rule hoare_ret_same)
  done

lemma step4_inv:
  assumes "k \<le> 4"
  shows "hoare (runInv t0 f0 b0 (Some k) v i t a) (step4 env force tia idf)
           (\<lambda>_. runInv t0 f0 b0 (Some 4.1) v i t a) (\<lambda>_. errInv t0 f0 b0)"
  unfolding step4_def using assms
  apply -
  apply (rule hoare_bnd, (rule A1, simp | rule A2 | rule A4))+
  apply (rule hoare_ret_same)
  done

lemma step5_inv:
  assumes "k \<le> 5"
  shows "hoare (runInv t0 f0 b0 (Some k) v i t a) (step5 env idf tf)
           (\<lambda>_. runInv t0 f0 b0 (Some 5.1) v True t a) (\<lambda>_. errInv t0 f0 b0)"
  unfolding step5_def using assms
  apply -
  apply (rule hoare_bnd, (rule A1, simp | rule A6))+
  apply (rule A1, simp)
  done

lemma step6_inv:
  assumes "k \<le> 6"
  shows "hoare (runInv t0 f0 b0 (Some k) v i t a) (step6 env force tf)
           (\<lambda>_. runInv t0 f0 b0 (Some 6.1) v i t a) (\<lambda>_. errInv t0 f0 b0)"
  unfolding step6_def using assms
  apply -
  apply (rule hoare_bnd, (rule A1, simp | rule A2 | rule A4))+
  apply (rule hoare_ret_same)
  done

lemma step7_inv:
  assumes "k \<le> 7"
  shows "hoare (runInv t0 f0 b0 (Some k) v i t a) (step7 env tia tf iaf)
           (\<lambda>_. runInv t0 f0 b0 (Some 7.1) v i True True) (\<lambda>_. errInv t0 f0 b0)"
  unfolding step7_def using assms
  apply -
  apply (rule hoare_bnd, (rule A1, simp | rule A7 | rule A8))+
  apply (rule A1, simp)
  done

lemma planSteps_inv:
  assumes first: "hoare P (updateProgress env 1 ''Starting implementation contracts deployment''
                    None None) (\<lambda>_. runInv t0 f0 b0 (Some 1) v i t a) (\<lambda>_. errInv t0 f0 b0)"
  shows "hoare P (planSteps env force accounts)
           (\<lambda>_. runInv t0 f0 b0 (Some 7.1) True True True True) (\<lambda>_. errInv t0 f0 b0)"
  unfolding planSteps_def
  apply (rule hoare_bnd, rule step1_inv [OF first])
  apply (rule hoare_bnd, rule step2_inv, simp)
  apply (rule hoare_bnd, rule step3_inv, simp)
  apply (rule hoare_bnd, rule step4_inv, simp)
  apply (rule hoare_bnd, rule step5_inv, simp)
  apply (rule hoare_bnd, rule step6_inv, simp)
  apply (rule step7_inv, simp)
  done

lemma runInv_deployer [simp]:
  "runInv t0 f0 b0 ph v i t a (s\<lparr>deploymentState := (deploymentState s)\<lparr>deployer := d\<rparr>\<rparr>)
     = runInv t0 f0 b0 ph v i t a s"
  by (simp add: runInv_def)

lemma initDeployer_inv:
  "hoare (runInv t0 f0 b0 None v i t a) (initDeployer env accounts)
     (\<lambda>_ s. runInv t0 f0 b0 None v i t a s \<or> runInv t0 f0 b0 (Some 0) v i t a s)
     (\<lambda>_. errInv t0 f0 b0)"
  unfolding initDeployer_def
  apply (rule hoare_bnd [where R = "\<lambda>_. runInv t0 f0 b0 None v i t a"])
   apply (rule hoare_gets, assumption)
  apply (rule hoare_bnd [where R = "\<lambda>_ s. runInv t0 f0 b0 None v i t a s
            \<or> runInv t0 f0 b0 (Some 0) v i t a s"])
   apply (simp only: if_distrib [where f = "\<lambda>m. hoare _ m _ _"] split: if_splits)
   apply (intro conjI impI)
    apply (rule hoare_bnd [where R = "\<lambda>_. runInv t0 f0 b0 None v i t a"])
     apply (rule hoare_modifyState, simp)
    apply (rule hoare_post, rule A1_first, simp, simp, assumption)
   apply (rule hoare_ret, simp)
  apply (rule hoare_ext)
  apply (auto split: sum.splits dest: runInv_err)
  done

lemma verifyContracts_inv:
  "hoare (runInv t0 f0 b0 ph v i t a) (verifyContracts env cs)
     (\<lambda>_. runInv t0 f0 b0 ph v i t a) (\<lambda>_. errInv t0 f0 b0)"
proof (induction cs)
  case Nil
  show ?case by (simp add: hoare_ret_same)
next
  case (Cons c cs)
  obtain n x where c: "c = (n, x)" by (cases c)
  have probe: "hoare (runInv t0 f0 b0 ph v i t a) (isContractDeployed env (Some x))
     (\<lambda>_. runInv t0 f0 b0 ph v i t a) (\<lambda>_. errInv t0 f0 b0)"
    by (rule hoare_cases)
      (auto split: sum.splits dest: inv_isContractDeployed isContractDeployed_effect)
  show ?case
    unfolding c verifyContracts.simps
    apply (rule hoare_bnd, rule probe)
    apply (rule hoare_bnd, rule Cons.IH)
    apply (rule hoare_ret_same)
    done
qed


lemma hoare_gen_asm: "(C \<Longrightarrow> hoare P m Q E) \<Longrightarrow> hoare (\<lambda>s. P s \<and> C) m Q E"
  by (auto simp: hoare_def)

lemma ledgerOk_unflagged:
  "ledgerOk t0 v i t a ds \<Longrightarrow>
     ledgerOk t0 False False False False (ds\<lparr>contracts := cs, progress := p, deployer := d\<rparr>)"
  "ledgerOk t0 v i t a ds \<Longrightarrow>
     ledgerOk t0 False False False False (ds\<lparr>contracts := cs, progress := p\<rparr>)"
  by (simp_all add: ledgerOk_def)

lemma runInv_unflagged:
  "runInv t0 f0 b0 None v i t a s \<Longrightarrow>
     runInv t0 f0 b0 None False False False False
       (s\<lparr>deploymentState := (deploymentState s)\<lparr>contracts := cs, progress := p, deployer := d\<rparr>\<rparr>)"
  "runInv t0 f0 b0 None v i t a s \<Longrightarrow>
     runInv t0 f0 b0 None False False False False
       (s\<lparr>deploymentState := (deploymentState s)\<lparr>contracts := cs, progress := p\<rparr>\<rparr>)"
  by (auto simp: runInv_def phaseOk_def intro: ledgerOk_unflagged)

lemma resumeExisting_inv:
  "hoare (\<lambda>s. runInv t0 f0 b0 None v i t a s \<and> trace s = [] \<and> stateFile s = f0)
     (resumeExisting env existing)
     (\<lambda>finished s.
        if finished then completed existing \<and> trace s = [] \<and> stateFile s = f0 \<and> backupFiles s = b0
        else runInv t0 f0 b0 None False False False False s)
     (\<lambda>_. errInv t0 f0 b0)"
  unfolding resumeExisting_def
  apply (rule hoare_bnd [where R = "\<lambda>_ s. runInv t0 f0 b0 None False False False False s
            \<and> trace s = [] \<and> stateFile s = f0"])
   apply (rule hoare_modifyState)
   apply (auto intro: runInv_unflagged)[1]
  apply (cases "completed existing")
   apply simp
   apply (rule hoare_ret)
   apply (simp add: runInv_def logOk_def)
  apply simp
  apply (rule hoare_bnd [where R = "\<lambda>_. runInv t0 f0 b0 None False False False False"])
   apply (rule hoare_gets, simp)
  apply (rule hoare_bnd, rule verifyContracts_inv)
  apply (rule hoare_bnd [where R = "\<lambda>_. runInv t0 f0 b0 None False False False False"])
   apply (rule hoare_modifyState, simp)
  apply (rule hoare_ret, simp)
  done

lemma forceReset_inv:
  "hoare (runInv t0 f0 b0 None v i t a) forceReset
     (\<lambda>_. runInv t0 f0 b0 None False False False False) E"
  unfolding forceReset_def
  by (rule hoare_modifyState) (auto intro: runInv_unflagged)

lemma runInv_initial:
  "trace s = [] \<Longrightarrow>
     runInv t0 (stateFile s) (backupFiles s) None False False False False
       (s\<lparr>world := w, deploymentState := initialState t0 net\<rparr>)"
  by (simp add: runInv_def ledgerOk_def logOk_def phaseOk_def initialState_def initialProgress_def)

lemma loadPhase_inv:
  assumes "trace s0 = []"
  shows "hoare (\<lambda>s. s = s0) (loadPhase env force)
     (\<lambda>(accounts, finished) s.
        if finished then leftEarly force s0 s
        else runInv (fst (clock env (world s0))) (stateFile s0) (backupFiles s0) None
               False False False False s)
     (\<lambda>_. errInv (fst (clock env (world s0))) (stateFile s0) (backupFiles s0))"
proof -
  let ?t0 = "fst (clock env (world s0))"
  let ?I = "runInv ?t0 (stateFile s0) (backupFiles s0) None False False False False"
  let ?R = "\<lambda>s. ?I s \<and> trace s = [] \<and> stateFile s = stateFile s0"
  let ?E = "\<lambda>_ :: error. errInv ?t0 (stateFile s0) (backupFiles s0) :: 'a run_state \<Rightarrow> bool"
  have resume: "hoare ?R (bnd (resumeExisting env existing) (\<lambda>finished. ret (accounts, finished)))
     (\<lambda>(accounts, finished) s. if finished then leftEarly force s0 s else ?I s) ?E"
    if "\<not> force" "parseStateFile (stateFile s0) = Some existing"
    for existing and accounts :: "string list"
    apply (rule hoare_bnd, rule resumeExisting_inv)
    apply (rule hoare_ret)
    using that assms apply (auto simp: leftEarly_def)
    done
  have reset: "hoare ?R (bnd forceReset (\<lambda>_. ret (accounts, False)))
     (\<lambda>(accounts, finished) s. if finished then leftEarly force s0 s else ?I s) ?E"
    for accounts :: "string list"
    apply (rule hoare_bnd [where R = "\<lambda>_. ?I"])
     apply (rule hoare_pre,
        rule forceReset_inv [where v = False and i = False and t = False and a = False], simp)
    apply (rule hoare_ret, simp)
    done
  have branch: "hoare
      (\<lambda>s. ?R s \<and> existing = (if \<not> force then parseStateFile (stateFile s0) else None))
      (case existing of
         Some existing \<Rightarrow>
           if \<not> force then
             bnd (resumeExisting env existing) (\<lambda>finished. ret (accounts, finished))
           else bnd forceReset (\<lambda>_. ret (accounts, False))
       | None \<Rightarrow>
           if force then bnd forceReset (\<lambda>_. ret (accounts, False))
           else ret (accounts, False))
      (\<lambda>(accounts, finished) s. if finished then leftEarly force s0 s else ?I s) ?E"
    (is "hoare _ ?prog ?Q _") for existing and accounts :: "string list"
  proof (rule hoare_gen_asm)
    assume ex: "existing = (if \<not> force then parseStateFile (stateFile s0) else None)"
    show "hoare ?R ?prog ?Q ?E"
    proof (cases force)
      case True
      with ex have "?prog = bnd forceReset (\<lambda>_. ret (accounts, False))" by simp
      then show ?thesis by (simp only: reset)
    next
      case False
      show ?thesis
      proof (cases existing)
        case None
        with False have "?prog = ret (accounts, False)" by simp
        then show ?thesis by (simp only:) (rule hoare_ret, simp)
      next
        case (Some l)
        with False have prog:
          "?prog = bnd (resumeExisting env l) (\<lambda>finished. ret (accounts, finished))"
          by simp
        from Some False ex have "parseStateFile (stateFile s0) = Some l" by simp
        from resume [OF False this] show ?thesis by (simp only: prog)
      qed
    qed
  qed
  show ?thesis
    unfolding loadPhase_def
    apply (rule hoare_bnd [where R = "\<lambda>t s. t = ?t0 \<and> trace s = [] \<and> (\<exists>w. s = s0\<lparr>world := w\<rparr>)"])
     apply (rule hoare_ext_total)
    using assms apply (auto)[1]
    apply (rule hoare_bnd [where R = "\<lambda>_. ?R"])
     apply (rule hoare_modifyState)
    using assms apply (auto simp: runInv_initial)[1]
    apply (rule hoare_bnd [where R = "\<lambda>_. ?R"])
     apply (rule hoare_ext)
     apply (auto split: sum.splits dest: runInv_err)[1]
    apply (rule hoare_bnd [where R = "\<lambda>existing s. ?R s
              \<and> existing = (if \<not> force then parseStateFile (stateFile s0) else None)"])
     apply (cases force)
      apply (simp, rule hoare_ret, simp)
     apply (simp add: loadExistingDeployment_def, rule hoare_gets, simp)
    apply (rule branch)
    done
qed


lemma errInv_aborted: "errInv t0 f0 b0 s \<Longrightarrow> abortedRun t0 f0 b0 s"
  by (simp add: errInv_def abortedRun_def logOk_def)

lemma sealed_world [simp]: "sealed t0 f0 b0 (s\<lparr>world := w\<rparr>) = sealed t0 f0 b0 s"
  by (simp add: sealed_def)

lemma flushed_world [simp]: "flushed t0 f0 b0 (s\<lparr>world := w\<rparr>) = flushed t0 f0 b0 s"
  by (simp add: flushed_def)

lemma abortedRun_world [simp]: "abortedRun t0 f0 b0 (s\<lparr>world := w\<rparr>) = abortedRun t0 f0 b0 s"
  by (simp add: abortedRun_def)

lemma sealed_aborted: "sealed t0 f0 b0 s \<Longrightarrow> abortedRun t0 f0 b0 s"
  by (simp add: sealed_def abortedRun_def logOk_def)

lemma flushed_aborted: "flushed t0 f0 b0 s \<Longrightarrow> abortedRun t0 f0 b0 s"
  by (auto simp: flushed_def abortedRun_def)

lemma seal:
  assumes "runInv t0 f0 b0 (Some 8) True True True True s"
  shows "sealed t0 f0 b0
           (s\<lparr>world := w,
              deploymentState := (deploymentState s)\<lparr>completed := True, completedAt := Some tm\<rparr>\<rparr>)"
  using assms
  by (auto simp: runInv_def sealed_def ledgerOk_def doneLedger_def dest!: phaseOk_SomeD)

lemma save_sealed:
  assumes "sealed t0 f0 b0 s" and "saveDeploymentState env s = (r, s')"
  shows "case r of Inl e \<Rightarrow> abortedRun t0 f0 b0 s' | Inr u \<Rightarrow> flushed t0 f0 b0 s'"
proof (cases "writeFileSync env (world s) ''deployment-state.json''")
  case (Pair res w')
  show ?thesis
  proof (cases res)
    case (Inl e)
    with Pair assms show ?thesis
      by (auto simp: saveDeploymentState_cases dest: sealed_aborted)
  next
    case (Inr u)
    from assms(1) have "sorted (saveSteps (trace s) @ [8])"
      "startsLow (saveSteps (trace s) @ [8])"
      by (simp_all add: sealed_def logOk_def sorted_snoc startsLow_append)
    with Pair Inr assms show ?thesis
      by (auto simp: saveDeploymentState_cases flushed_def sealed_def logOk_def doneLedger_def)
  qed
qed

lemma writeBackup_flushed:
  assumes "flushed t0 f0 b0 s" and "writeBackup env s = (r, s')"
  shows "case r of Inl e \<Rightarrow> abortedRun t0 f0 b0 s' | Inr u \<Rightarrow> finishedRun t0 f0 b0 s'"
proof -
  obtain ms w1 where c: "clock env (world s) = (ms, w1)" by (cases "clock env (world s)")
  obtain res w2 where w: "writeFileSync env w1 ''deployment-complete-<ms>.json'' = (res, w2)"
    by (cases "writeFileSync env w1 ''deployment-complete-<ms>.json''")
  show ?thesis
  proof (cases res)
    case (Inl e)
    with c w assms(2) have "r = Inl e" "s' = s\<lparr>world := w2\<rparr>"
      by (auto simp: writeBackup_def act_defs)
    with assms(1) show ?thesis by (simp add: flushed_aborted)
  next
    case (Inr u)
    with c w assms(2) have r: "r = Inr ()"
      and s': "s' = s\<lparr>world := w2, backupFiles := backupFiles s @ [(ms, deploymentState s)],
                       trace := trace s @ [EvBackup ms (deploymentState s)]\<rparr>"
      by (auto simp: writeBackup_def act_defs)
    from assms(1) show ?thesis
      unfolding r s' by (auto simp: flushed_def finishedRun_def)
  qed
qed

lemma finish_inv:
  assumes "k \<le> 8"
  shows "hoare (runInv t0 f0 b0 (Some k) True True True True) (finish env)
           (\<lambda>_. finishedRun t0 f0 b0) (\<lambda>_. abortedRun t0 f0 b0)"
  unfolding finish_def
  apply (rule hoare_bnd)
   apply (rule hoare_post, rule A1 [OF assms], assumption, erule errInv_aborted)
  apply (rule hoare_bnd [where R = "\<lambda>_ s. \<exists>s1. runInv t0 f0 b0 (Some 8) True True True True s1
            \<and> s = s1\<lparr>deploymentState := (deploymentState s1)\<lparr>completed := True\<rparr>\<rparr>"])
   apply (rule hoare_modifyState, blast)
  apply (rule hoare_bnd [where R = "\<lambda>tm s. \<exists>s1 w. runInv t0 f0 b0 (Some 8) True True True True s1
            \<and> s = s1\<lparr>deploymentState := (deploymentState s1)\<lparr>completed := True\<rparr>, world := w\<rparr>"])
   apply (rule hoare_ext_total, blast)
  apply (rule hoare_bnd [where R = "\<lambda>_. sealed t0 f0 b0"])
   apply (rule hoare_modifyState)
   apply (auto simp: sealed_def runInv_def ledgerOk_def doneLedger_def dest!: phaseOk_SomeD)[1]
  apply (rule hoare_bnd [where R = "\<lambda>_. flushed t0 f0 b0"])
   apply (rule hoare_cases, erule (1) save_sealed)
  apply (rule hoare_cases, erule (1) writeBackup_flushed)
  done

lemma runPlan_inv:
  "hoare (runInv t0 f0 b0 None False False False False) (runPlan env force accounts)
     (\<lambda>_. finishedRun t0 f0 b0) (\<lambda>_. abortedRun t0 f0 b0)"
  unfolding runPlan_def
  apply (rule hoare_bnd)
   apply (rule hoare_post, rule initDeployer_inv, assumption, erule errInv_aborted)
  apply (rule hoare_bnd)
   apply (rule hoare_post, rule planSteps_inv)
     apply (rule hoare_disj, rule A1_first, simp, rule A1, simp)
    apply assumption
   apply (erule errInv_aborted)
  apply (rule finish_inv, simp)
  done

lemma main_inv:
  assumes "trace s0 = []"
  shows "hoare (\<lambda>s. s = s0) (main env force)
     (\<lambda>_ s. leftEarly force s0 s
          \<or> finishedRun (fst (clock env (world s0))) (stateFile s0) (backupFiles s0) s)
     (\<lambda>_. abortedRun (fst (clock env (world s0))) (stateFile s0) (backupFiles s0))"
  unfolding main_def
  apply (rule hoare_bnd)
   apply (rule hoare_post, rule loadPhase_inv [OF assms], assumption, erule errInv_aborted)
  subgoal for x
    apply (cases x)
    subgoal for accounts finished
      apply (cases finished)
       apply simp
       apply (rule hoare_ret, simp)
      apply simp
      apply (rule hoare_post, rule runPlan_inv, simp, assumption)
      done
    done
  done

subsection \<open>How a run can end\<close>

lemma main_outcome:
  assumes "trace s = []" and "main env force s = (r, s')"
  shows "case r of
           Inr u \<Rightarrow> leftEarly force s s'
                     \<or> finishedRun (fst (clock env (world s))) (stateFile s) (backupFiles s) s'
         | Inl e \<Rightarrow> abortedRun (fst (clock env (world s))) (stateFile s) (backupFiles s) s'"
proof (cases r)
  case (Inl e)
  with hoareD_Inl [OF main_inv [OF assms(1)] refl, of env force e s'] assms(2)
  show ?thesis by simp
next
  case (Inr u)
  with hoareD_Inr [OF main_inv [OF assms(1)] refl, of env force u s'] assms(2)
  show ?thesis by simp
qed

lemma plainLog_saves:
  "plainLog t0 evs \<Longrightarrow> EvSave ds \<in> set evs \<Longrightarrow> timestamp ds = t0 \<and> \<not> completed ds"
  by (induction evs) auto

lemma plainLog_no_backup: "plainLog t0 evs \<Longrightarrow> EvBackup ms ds \<notin> set evs"
  by (induction evs) auto

lemma fileAfter_cases:
  "fileAfter f evs = f \<or> (\<exists>ds. EvSave ds \<in> set evs \<and> fileAfter f evs = LedgerFile ds)"
  by (induction f evs rule: fileAfter.induct) auto

subsection \<open>Runs with collaborators that never refuse\<close>

lemma succeedsI: "(\<And>s e s'. m s = (Inl e, s') \<Longrightarrow> False) \<Longrightarrow> succeeds m"
  unfolding succeeds_def by (rule hoareI) auto

lemma succeedsD: "succeeds m \<Longrightarrow> m s \<noteq> (Inl e, s')"
  unfolding succeeds_def by (auto dest: hoareD_Inl)

lemma succeeds_bnd: "succeeds m \<Longrightarrow> (\<And>x. succeeds (f x)) \<Longrightarrow> succeeds (bnd m f)"
  unfolding succeeds_def by (rule hoare_bnd)

lemma succeeds_simple [simp]:
  "succeeds (ret x)" "succeeds (gets g)" "succeeds (modify h)" "succeeds (modifyState k)"
  "succeeds (ext_total op)" "succeeds (logEvent ev)"
  by (auto intro!: succeedsI simp: act_defs split: prod.splits)

lemma succeeds_if: "succeeds a \<Longrightarrow> succeeds b \<Longrightarrow> succeeds (if c then a else b)"
  by simp

lemma succeeds_ext: "(\<And>w. \<not> isl (fst (op w))) \<Longrightarrow> succeeds (ext op)"
  by (rule succeedsI) (auto simp: ext_def split: prod.splits, metis fst_conv sum.disc(1))

lemma succeeds_catch: "(\<And>e. succeeds (h e)) \<Longrightarrow> succeeds (catch m h)"
  by (rule succeedsI) (auto simp: catch_def split: prod.splits sum.splits dest: succeedsD)

lemma coop:
  assumes "cooperative env"
  shows "\<not> isl (fst (deployTx env w f args))" "\<not> isl (fst (sendTx env w x m args))"
    "\<not> isl (fst (listAccounts env w))" "\<not> isl (fst (getBalance env w))"
    "fst (readArtifactFile env w p) = Artifact True True" "\<not> isl (fst (writeFileSync env w p))"
  using assms unfolding cooperative_def by blast+

lemma succeeds_save: "cooperative env \<Longrightarrow> succeeds (saveDeploymentState env)"
  unfolding saveDeploymentState_def
  by (intro succeeds_bnd succeeds_ext succeeds_simple coop)

lemma succeeds_updateProgress: "cooperative env \<Longrightarrow> succeeds (updateProgress env k d n c)"
  unfolding updateProgress_def
  by (intro succeeds_bnd succeeds_save succeeds_simple)

lemma succeeds_isContractDeployed: "succeeds (isContractDeployed env x)"
  unfolding isContractDeployed_def
  by (auto split: option.splits intro!: succeeds_catch)

lemma succeeds_deployNow: "cooperative env \<Longrightarrow> succeeds (deployNow env n f args)"
  unfolding deployNow_def
  by (intro succeeds_bnd succeeds_save succeeds_ext succeeds_simple coop)

lemma succeeds_deployIfNeeded:
  "cooperative env \<Longrightarrow> succeeds (deployIfNeeded env force n f args)"
  unfolding deployIfNeeded_def forget_def
  by (intro succeeds_bnd succeeds_simple)
    (auto split: option.splits
      intro!: succeeds_bnd succeeds_deployNow succeeds_isContractDeployed)

lemma succeeds_factoryFromFile:
  assumes "cooperative env"
  shows "succeeds (factoryFromFile env p x y)"
proof (rule succeedsI)
  fix s e s' assume run: "factoryFromFile env p x y s = (Inl e, s')"
  obtain f w where r: "readArtifactFile env (world s) p = (f, w)"
    by (cases "readArtifactFile env (world s) p")
  with coop(5) [OF assms, of "world s" p] have "f = Artifact True True" by simp
  with run r show False by (simp add: factoryFromFile_def act_defs)
qed

lemma succeeds_getContractArtifact:
  "cooperative env \<Longrightarrow> map_of contractPaths n \<noteq> None \<Longrightarrow> succeeds (getContractArtifact env n)"
  unfolding getContractArtifact_def by (auto intro: succeeds_factoryFromFile)

lemma succeeds_getOnchainIDContractFactory:
  "cooperative env \<Longrightarrow> n = ''Identity'' \<or> n = ''ImplementationAuthority'' \<or> n = ''Factory''
   \<Longrightarrow> succeeds (getOnchainIDContractFactory env n)"
  unfolding getOnchainIDContractFactory_def by (auto intro: succeeds_factoryFromFile)

lemma succeeds_tried: "succeeds m \<Longrightarrow> succeeds (catch m h)"
  by (rule succeedsI) (auto simp: catch_def split: prod.splits sum.splits dest: succeedsD)

lemma succeeds_invoke: "cooperative env \<Longrightarrow> succeeds (invoke env c m args)"
  unfolding invoke_def by (intro succeeds_bnd succeeds_ext succeeds_simple coop)

lemma succeeds_configure:
  assumes "cooperative env"
  shows "succeeds (configureVersion env tia impls)"
    "succeeds (configureIdentityFactory env idf tf)"
    "succeeds (configureTREXFactory env tia tf)"
    "succeeds (configureIAFactory env tia iaf)"
  unfolding configureVersion_def configureIdentityFactory_def configureTREXFactory_def
    configureIAFactory_def
  by (intro succeeds_bnd succeeds_simple succeeds_if succeeds_tried succeeds_invoke assms)+

lemma known_artifacts:
  "map_of contractPaths ''Token'' \<noteq> None"
  "map_of contractPaths ''ClaimTopicsRegistry'' \<noteq> None"
  "map_of contractPaths ''TrustedIssuersRegistry'' \<noteq> None"
  "map_of contractPaths ''IdentityRegistryStorage'' \<noteq> None"
  "map_of contractPaths ''IdentityRegistry'' \<noteq> None"
  "map_of contractPaths ''ModularCompliance'' \<noteq> None"
  "map_of contractPaths ''TREXImplementationAuthority'' \<noteq> None"
  "map_of contractPaths ''TREXFactory'' \<noteq> None"
  "map_of contractPaths ''IAFactory'' \<noteq> None"
  by (simp_all add: contractPaths_def)

lemma succeeds_artifacts:
  assumes "cooperative env"
  shows "succeeds (getContractArtifact env ''Token'')"
    "succeeds (getContractArtifact env ''ClaimTopicsRegistry'')"
    "succeeds (getContractArtifact env ''TrustedIssuersRegistry'')"
    "succeeds (getContractArtifact env ''IdentityRegistryStorage'')"
    "succeeds (getContractArtifact env ''IdentityRegistry'')"
    "succeeds (getContractArtifact env ''ModularCompliance'')"
    "succeeds (getContractArtifact env ''TREXImplementationAuthority'')"
    "succeeds (getContractArtifact env ''TREXFactory'')"
    "succeeds (getContractArtifact env ''IAFactory'')"
    "succeeds (getOnchainIDContractFactory env ''Identity'')"
    "succeeds (getOnchainIDContractFactory env ''ImplementationAuthority'')"
    "succeeds (getOnchainIDContractFactory env ''Factory'')"
  by (simp_all add: succeeds_getContractArtifact succeeds_getOnchainIDContractFactory
      known_artifacts assms)

lemma succeeds_steps:
  assumes "cooperative env"
  shows "succeeds (step1 env force)" "succeeds (step2 env force accounts)"
    "succeeds (step3 env force impls)" "succeeds (step4 env force tia idf)"
    "succeeds (step5 env idf tf)" "succeeds (step6 env force tf)"
    "succeeds (step7 env tia tf iaf)"
  unfolding step1_def step2_def step3_def step4_def step5_def step6_def step7_def
  by (intro succeeds_bnd succeeds_simple succeeds_updateProgress succeeds_deployIfNeeded
      succeeds_artifacts succeeds_configure assms)+

lemma succeeds_planSteps: "cooperative env \<Longrightarrow> succeeds (planSteps env force accounts)"
  unfolding planSteps_def by (intro succeeds_bnd succeeds_steps)

lemma succeeds_finish: "cooperative env \<Longrightarrow> succeeds (finish env)"
  unfolding finish_def writeBackup_def
  by (intro succeeds_bnd succeeds_simple succeeds_updateProgress succeeds_save succeeds_ext coop)

lemma succeeds_initDeployer: "cooperative env \<Longrightarrow> succeeds (initDeployer env accounts)"
  unfolding initDeployer_def
  by (intro succeeds_bnd succeeds_simple succeeds_if succeeds_updateProgress succeeds_ext coop)

lemma succeeds_verifyContracts: "succeeds (verifyContracts env cs)"
  by (induction cs) (auto intro!: succeeds_bnd succeeds_isContractDeployed)

lemma succeeds_loadPhase: "cooperative env \<Longrightarrow> succeeds (loadPhase env force)"
  unfolding loadPhase_def resumeExisting_def forceReset_def loadExistingDeployment_def
  by (intro succeeds_bnd succeeds_simple succeeds_if succeeds_ext coop)
    (auto split: option.splits intro!: succeeds_bnd succeeds_verifyContracts)

lemma succeeds_main: "cooperative env \<Longrightarrow> succeeds (main env force)"
  unfolding main_def runPlan_def
  by (intro succeeds_bnd succeeds_loadPhase)
    (auto intro!: succeeds_bnd succeeds_initDeployer succeeds_planSteps succeeds_finish)

lemma main_returns: "cooperative env \<Longrightarrow> fst (main env force s) = Inr ()"
  using succeedsD [OF succeeds_main, of env force s _ "snd (main env force s)"]
  by (cases "main env force s"; cases "fst (main env force s)") auto

lemma cooperative_demoEnv: "cooperative demoEnv"
  by (simp add: cooperative_def demoEnv_def)

subsection \<open>Runs with the force flag\<close>

lemma callsOf_append [simp]: "callsOf (xs @ ys) = callsOf xs @ callsOf ys"
  by (induction xs rule: callsOf.induct) simp_all

lemma accounted_mono: "accounted xs ds \<Longrightarrow> set xs \<subseteq> set ys \<Longrightarrow> accounted ys ds"
  by (auto simp: accounted_def list_all_iff)

lemma accountedLog_chain:
  assumes "accountedLog evs" and "\<And>ds. ev \<noteq> EvSave ds"
  shows "accountedLog (evs @ [ev])"
  using assms by (auto simp: accountedLog_def intro: accounted_mono)

lemma accountedLog_save:
  assumes "accountedLog evs" and "accounted (callsOf evs) ds"
  shows "accountedLog (evs @ [EvSave ds])"
  using assms by (auto simp: accountedLog_def)

lemma accounted_contracts:
  "accounted xs (ds\<lparr>contracts := cs\<rparr>)
     = (list_all (\<lambda>(n, x). Deploy n \<in> set xs) cs \<and> accounted xs (ds\<lparr>contracts := []\<rparr>))"
  by (auto simp: accounted_def)

lemma accounted_less: "accounted xs ds \<Longrightarrow> accounted xs (ds\<lparr>contracts := []\<rparr>)"
  by (simp add: accounted_def)

lemma accounted_progress [simp]:
  "accounted xs (ds\<lparr>progress := (progress ds)\<lparr>step := k, description := d, lastUpdated := l\<rparr>\<rparr>)
     = accounted xs ds"
  "accounted xs (ds\<lparr>deployer := x\<rparr>) = accounted xs ds"
  "accounted xs (ds\<lparr>completed := b\<rparr>) = accounted xs ds"
  "accounted xs (ds\<lparr>completedAt := c\<rparr>) = accounted xs ds"
  by (simp_all add: accounted_def)

lemma list_all_update:
  "list_all P cs \<Longrightarrow> P (n, x) \<Longrightarrow> list_all P (AList.update n x cs)"
  by (induction cs) auto

lemma list_all_delete: "list_all P cs \<Longrightarrow> list_all P (AList.delete n cs)"
  by (induction cs) auto

lemma accounted_update:
  "accounted xs ds \<Longrightarrow> Deploy n \<in> set xs
   \<Longrightarrow> accounted xs (ds\<lparr>contracts := AList.update n x (contracts ds)\<rparr>)"
  by (simp add: accounted_def list_all_update)

lemma accounted_delete:
  "accounted xs ds \<Longrightarrow> accounted xs (ds\<lparr>contracts := AList.delete n (contracts ds)\<rparr>)"
  by (simp add: accounted_def list_all_delete)

lemma accounted_record:
  "accounted xs ds \<Longrightarrow> (case n of None \<Rightarrow> True | Some n' \<Rightarrow> Deploy n' \<in> set xs)
   \<Longrightarrow> accounted xs (ds\<lparr>contracts := recordContract n c (contracts ds)\<rparr>)"
  by (auto simp: recordContract_def accounted_def list_all_update split: option.splits)

lemma forcedInv_world [simp]: "forcedInv xs (s\<lparr>world := w\<rparr>) = forcedInv xs s"
  by (simp add: forcedInv_def)

text \<open>Saving.\<close>

lemma forced_save:
  assumes "forcedInv xs s" and "saveDeploymentState env s = (r, s')"
  shows "case r of Inl e \<Rightarrow> accountedLog (trace s') | Inr u \<Rightarrow> forcedInv xs s'"
  using assms
  by (auto simp: saveDeploymentState_cases forcedInv_def intro: accountedLog_save
      split: prod.splits sum.splits)

lemma G1:
  assumes "case n of None \<Rightarrow> True | Some n' \<Rightarrow> Deploy n' \<in> set xs"
  shows "hoare (forcedInv xs) (updateProgress env k d n c)
           (\<lambda>_. forcedInv xs) (\<lambda>_ s. accountedLog (trace s))"
proof (rule hoare_cases)
  fix s r s' assume inv: "forcedInv xs s" and run: "updateProgress env k d n c s = (r, s')"
  obtain tm w1 where c: "clock env (world s) = (tm, w1)" by (cases "clock env (world s)")
  let ?s1 = "s\<lparr>world := w1,
               deploymentState := (deploymentState s)
                 \<lparr>progress := (progress (deploymentState s))
                    \<lparr>step := k, description := d, lastUpdated := Some tm\<rparr>,
                  contracts := recordContract n c (contracts (deploymentState s))\<rparr>\<rparr>"
  from c run have 1: "saveDeploymentState env ?s1 = (r, s')"
    by (simp add: updateProgress_cases)
  have "accounted xs ((deploymentState s)
            \<lparr>contracts := recordContract n c (contracts (deploymentState s))\<rparr>)"
    using inv assms by (intro accounted_record) (simp_all add: forcedInv_def)
  then have "forcedInv xs ?s1"
    using inv by (simp add: forcedInv_def accounted_def)
  from forced_save [OF this 1]
  show "case r of Inl e \<Rightarrow> accountedLog (trace s') | Inr u \<Rightarrow> forcedInv xs s'" .
qed

lemma G2:
  "hoare (forcedInv xs) (getContractArtifact env n) (\<lambda>_. forcedInv xs)
     (\<lambda>_ s. accountedLog (trace s))"
  by (rule hoare_cases)
    (auto dest!: getContractArtifact_world simp: forcedInv_def split: sum.splits)

lemma G3:
  "hoare (forcedInv xs) (getOnchainIDContractFactory env n) (\<lambda>_. forcedInv xs)
     (\<lambda>_ s. accountedLog (trace s))"
  by (rule hoare_cases)
    (auto dest!: getOnchainIDContractFactory_world simp: forcedInv_def split: sum.splits)

lemma forcedInv_called:
  assumes "forcedInv xs s" and "callsOf [ev] = [x]"
  shows "forcedInv (xs @ [x]) (s\<lparr>trace := trace s @ [ev]\<rparr>)"
proof -
  from assms(2) have "\<And>ds. ev \<noteq> EvSave ds" by (cases ev) auto
  with assms show ?thesis
    by (auto simp: forcedInv_def intro: accountedLog_chain accounted_mono)
qed

lemma forced_deployNow:
  assumes inv: "forcedInv xs s" and run: "deployNow env n f args s = (r, s')"
  shows "case r of Inl e \<Rightarrow> accountedLog (trace s') | Inr u \<Rightarrow> forcedInv (xs @ [Deploy n]) s'"
proof -
  have 0: "forcedInv (xs @ [Deploy n]) (s\<lparr>trace := trace s @ [EvDeploy n f args]\<rparr>)"
    by (rule forcedInv_called [OF inv]) simp
  obtain res w' where d: "deployTx env (world s) f args = (res, w')"
    by (cases "deployTx env (world s) f args")
  show ?thesis
  proof (cases res)
    case (Inl e)
    with d run 0 show ?thesis
      by (auto simp: deployNow_cases forcedInv_def)
  next
    case (Inr x)
    let ?s1 = "s\<lparr>trace := trace s @ [EvDeploy n f args], world := w',
                 deploymentState := (deploymentState s)
                   \<lparr>contracts := AList.update n x (contracts (deploymentState s))\<rparr>\<rparr>"
    obtain r1 where 1: "saveDeploymentState env ?s1 = (r1, s')"
      and r: "r = (case r1 of Inl e \<Rightarrow> Inl e | Inr u \<Rightarrow> Inr (Contract x))"
      using d Inr run by (auto simp: deployNow_cases split: prod.splits sum.splits)
    from 0 have "forcedInv (xs @ [Deploy n]) ?s1"
      by (auto simp: forcedInv_def intro: accounted_update)
    from forced_save [OF this 1] r show ?thesis
      by (cases r1) simp_all
  qed
qed

lemma forcedInv_forget:
  "forcedInv xs s \<Longrightarrow>
     forcedInv xs (s\<lparr>deploymentState := (deploymentState s)
        \<lparr>contracts := AList.delete n (contracts (deploymentState s))\<rparr>\<rparr>)"
  by (simp add: forcedInv_def accounted_delete)

lemma G4:
  "hoare (forcedInv xs) (deployIfNeeded env True n f args)
     (\<lambda>_. forcedInv (xs @ [Deploy n])) (\<lambda>_ s. accountedLog (trace s))"
proof (rule hoare_cases)
  fix s r s' assume inv: "forcedInv xs s" and run: "deployIfNeeded env True n f args s = (r, s')"
  from run consider "deployNow env n f args s = (r, s')"
    | "deployNow env n f args
        (s\<lparr>deploymentState := (deploymentState s)
             \<lparr>contracts := AList.delete n (contracts (deploymentState s))\<rparr>\<rparr>) = (r, s')"
    by (auto simp: deployIfNeeded_cases split: option.splits if_splits)
  then show "case r of Inl e \<Rightarrow> accountedLog (trace s')
                     | Inr u \<Rightarrow> forcedInv (xs @ [Deploy n]) s'"
    using forced_deployNow inv forcedInv_forget by cases blast+
qed

lemma forcedInv_flag:
  assumes "forcedInv xs s"
  shows
    "forcedInv (xs @ [Send ''addAndUseTREXVersion''])
       (s\<lparr>trace := trace s @ [EvSend x ''addAndUseTREXVersion'' args], world := w,
          deploymentState := (deploymentState s)
            \<lparr>progress := (progress (deploymentState s))\<lparr>versionConfigured := True\<rparr>\<rparr>\<rparr>)"
    "forcedInv (xs @ [Send ''addTokenFactory''])
       (s\<lparr>trace := trace s @ [EvSend x ''addTokenFactory'' args], world := w,
          deploymentState := (deploymentState s)
            \<lparr>progress := (progress (deploymentState s))\<lparr>identityFactoryConfigured := True\<rparr>\<rparr>\<rparr>)"
    "forcedInv (xs @ [Send ''setTREXFactory''])
       (s\<lparr>trace := trace s @ [EvSend x ''setTREXFactory'' args], world := w,
          deploymentState := (deploymentState s)
            \<lparr>progress := (progress (deploymentState s))\<lparr>trexFactoryConfigured := True\<rparr>\<rparr>\<rparr>)"
    "forcedInv (xs @ [Send ''setIAFactory''])
       (s\<lparr>trace := trace s @ [EvSend x ''setIAFactory'' args], world := w,
          deploymentState := (deploymentState s)
            \<lparr>progress := (progress (deploymentState s))\<lparr>iaFactoryConfigured := True\<rparr>\<rparr>\<rparr>)"
proof -
  have sent: "forcedInv (xs @ [Send m]) (s\<lparr>trace := trace s @ [EvSend x m args]\<rparr>)" for m
    by (rule forcedInv_called [OF assms]) simp
  show "forcedInv (xs @ [Send ''addAndUseTREXVersion''])
       (s\<lparr>trace := trace s @ [EvSend x ''addAndUseTREXVersion'' args], world := w,
          deploymentState := (deploymentState s)
            \<lparr>progress := (progress (deploymentState s))\<lparr>versionConfigured := True\<rparr>\<rparr>\<rparr>)"
    using sent [of "''addAndUseTREXVersion''"] by (simp add: forcedInv_def accounted_def)
  show "forcedInv (xs @ [Send ''addTokenFactory''])
       (s\<lparr>trace := trace s @ [EvSend x ''addTokenFactory'' args], world := w,
          deploymentState := (deploymentState s)
            \<lparr>progress := (progress (deploymentState s))\<lparr>identityFactoryConfigured := True\<rparr>\<rparr>\<rparr>)"
    using sent [of "''addTokenFactory''"] by (simp add: forcedInv_def accounted_def)
  show "forcedInv (xs @ [Send ''setTREXFactory''])
       (s\<lparr>trace := trace s @ [EvSend x ''setTREXFactory'' args], world := w,
          deploymentState := (deploymentState s)
            \<lparr>progress := (progress (deploymentState s))\<lparr>trexFactoryConfigured := True\<rparr>\<rparr>\<rparr>)"
    using sent [of "''setTREXFactory''"] by (simp add: forcedInv_def accounted_def)
  show "forcedInv (xs @ [Send ''setIAFactory''])
       (s\<lparr>trace := trace s @ [EvSend x ''setIAFactory'' args], world := w,
          deploymentState := (deploymentState s)
            \<lparr>progress := (progress (deploymentState s))\<lparr>iaFactoryConfigured := True\<rparr>\<rparr>\<rparr>)"
    using sent [of "''setIAFactory''"] by (simp add: forcedInv_def accounted_def)
qed

lemma forcedInv_unset:
  assumes "forcedInv xs s"
  shows "Send ''addAndUseTREXVersion'' \<notin> set xs
           \<Longrightarrow> \<not> versionConfigured (progress (deploymentState s))"
    "Send ''addTokenFactory'' \<notin> set xs
           \<Longrightarrow> \<not> identityFactoryConfigured (progress (deploymentState s))"
    "Send ''setTREXFactory'' \<notin> set xs \<Longrightarrow> \<not> trexFactoryConfigured (progress (deploymentState s))"
    "Send ''setIAFactory'' \<notin> set xs \<Longrightarrow> \<not> iaFactoryConfigured (progress (deploymentState s))"
  using assms by (auto simp: forcedInv_def accounted_def)

lemma forcedInv_thrown:
  "forcedInv xs s \<Longrightarrow> accountedLog (trace (s\<lparr>trace := trace s @ [EvSend x m args], world := w\<rparr>))"
  by (auto simp: forcedInv_def intro: accountedLog_chain)

lemma G5:
  assumes "Send ''addAndUseTREXVersion'' \<notin> set xs"
  shows "hoare (forcedInv xs) (configureVersion env tia impls)
     (\<lambda>_. forcedInv (xs @ [Send ''addAndUseTREXVersion''])) (\<lambda>_ s. accountedLog (trace s))"
proof (rule hoare_cases)
  fix s r s' assume inv: "forcedInv xs s" and run: "configureVersion env tia impls s = (r, s')"
  from forcedInv_unset(1) [OF inv assms] run forcedInv_flag(1) [OF inv] forcedInv_thrown [OF inv]
  show "case r of Inl e \<Rightarrow> accountedLog (trace s')
               | Inr u \<Rightarrow> forcedInv (xs @ [Send ''addAndUseTREXVersion'']) s'"
    by (auto simp: configureVersion_cases split: prod.splits sum.splits)
qed

lemma G6:
  assumes "Send ''addTokenFactory'' \<notin> set xs"
  shows "hoare (forcedInv xs) (configureIdentityFactory env idf tf)
     (\<lambda>_. forcedInv (xs @ [Send ''addTokenFactory''])) (\<lambda>_ s. accountedLog (trace s))"
proof (rule hoare_cases)
  fix s r s' assume inv: "forcedInv xs s" and run: "configureIdentityFactory env idf tf s = (r, s')"
  from forcedInv_unset(2) [OF inv assms] run forcedInv_flag(2) [OF inv] forcedInv_thrown [OF inv]
  show "case r of Inl e \<Rightarrow> accountedLog (trace s')
               | Inr u \<Rightarrow> forcedInv (xs @ [Send ''addTokenFactory'']) s'"
    by (auto simp: configureIdentityFactory_cases split: prod.splits sum.splits if_splits)
qed

lemma G7:
  assumes "Send ''setTREXFactory'' \<notin> set xs"
  shows "hoare (forcedInv xs) (configureTREXFactory env tia tf)
     (\<lambda>_. forcedInv (xs @ [Send ''setTREXFactory''])) (\<lambda>_ s. accountedLog (trace s))"
proof (rule hoare_cases)
  fix s r s' assume inv: "forcedInv xs s" and run: "configureTREXFactory env tia tf s = (r, s')"
  from forcedInv_unset(3) [OF inv assms] run forcedInv_flag(3) [OF inv] forcedInv_thrown [OF inv]
  show "case r of Inl e \<Rightarrow> accountedLog (trace s')
               | Inr u \<Rightarrow> forcedInv (xs @ [Send ''setTREXFactory'']) s'"
    by (auto simp: configureTREXFactory_cases split: prod.splits sum.splits if_splits)
qed

lemma G8:
  assumes "Send ''setIAFactory'' \<notin> set xs"
  shows "hoare (forcedInv xs) (configureIAFactory env tia iaf)
     (\<lambda>_. forcedInv (xs @ [Send ''setIAFactory''])) (\<lambda>_ s. accountedLog (trace s))"
proof (rule hoare_cases)
  fix s r s' assume inv: "forcedInv xs s" and run: "configureIAFactory env tia iaf s = (r, s')"
  from forcedInv_unset(4) [OF inv assms] run forcedInv_flag(4) [OF inv] forcedInv_thrown [OF inv]
  show "case r of Inl e \<Rightarrow> accountedLog (trace s')
               | Inr u \<Rightarrow> forcedInv (xs @ [Send ''setIAFactory'']) s'"
    by (auto simp: configureIAFactory_cases split: prod.splits sum.splits if_splits)
qed

lemma hoare_ret_eq: "P = Q \<Longrightarrow> hoare P (ret x) (\<lambda>_. Q) E"
  by (simp add: hoare_def ret_def)

lemma forced_step1:
  "hoare (forcedInv []) (step1 env True)
     (\<lambda>_. forcedInv (take 6 planCalls)) (\<lambda>_ s. accountedLog (trace s))"
  unfolding step1_def
  apply (rule hoare_bnd, (rule G1, simp | rule G2 | rule G4))+
  apply (rule hoare_ret_eq, simp add: planCalls_def)
  done

lemma forced_step2:
  "hoare (forcedInv (take 6 planCalls)) (step2 env True accounts)
     (\<lambda>_. forcedInv (take 9 planCalls)) (\<lambda>_ s. accountedLog (trace s))"
  unfolding step2_def
  apply (rule hoare_bnd, (rule G1, simp add: planCalls_def | rule G3 | rule G4))+
  apply (rule hoare_ret_eq, simp add: planCalls_def)
  done

lemma forced_step3:
  "hoare (forcedInv (take 9 planCalls)) (step3 env True impls)
     (\<lambda>_. forcedInv (take 11 planCalls)) (\<lambda>_ s. accountedLog (trace s))"
  unfolding step3_def
  apply (rule hoare_bnd,
      (rule G1, simp add: planCalls_def | rule G2 | rule G4 | rule G5, simp add: planCalls_def))+
  apply (rule hoare_ret_eq, simp add: planCalls_def)
  done

lemma forced_step4:
  "hoare (forcedInv (take 11 planCalls)) (step4 env True tia idf)
     (\<lambda>_. forcedInv (take 12 planCalls)) (\<lambda>_ s. accountedLog (trace s))"
  unfolding step4_def
  apply (rule hoare_bnd, (rule G1, simp add: planCalls_def | rule G2 | rule G4))+
  apply (rule hoare_ret_eq, simp add: planCalls_def)
  done

lemma forced_step5:
  "hoare (forcedInv (take 12 planCalls)) (step5 env idf tf)
     (\<lambda>_. forcedInv (take 13 planCalls)) (\<lambda>_ s. accountedLog (trace s))"
  unfolding step5_def
  apply (rule hoare_bnd, rule G1, simp)
  apply (rule hoare_bnd, rule G6, simp add: planCalls_def)
  apply (rule hoare_post, rule G1, simp, simp add: planCalls_def, assumption)
  done

lemma forced_step6:
  "hoare (forcedInv (take 13 planCalls)) (step6 env True tf)
     (\<lambda>_. forcedInv (take 14 planCalls)) (\<lambda>_ s. accountedLog (trace s))"
  unfolding step6_def
  apply (rule hoare_bnd, (rule G1, simp add: planCalls_def | rule G2 | rule G4))+
  apply (rule hoare_ret_eq, simp add: planCalls_def)
  done

lemma forced_step7:
  "hoare (forcedInv (take 14 planCalls)) (step7 env tia tf iaf)
     (\<lambda>_. forcedInv planCalls) (\<lambda>_ s. accountedLog (trace s))"
  unfolding step7_def
  apply (rule hoare_bnd, rule G1, simp)
  apply (rule hoare_bnd, rule G7, simp add: planCalls_def)
  apply (rule hoare_bnd, rule G8, simp add: planCalls_def)
  apply (rule hoare_post, rule G1, simp, simp add: planCalls_def, assumption)
  done

lemma forced_planSteps:
  "hoare (forcedInv []) (planSteps env True accounts)
     (\<lambda>_. forcedInv planCalls) (\<lambda>_ s. accountedLog (trace s))"
  unfolding planSteps_def
  apply (rule hoare_bnd, rule forced_step1)
  apply (rule hoare_bnd, rule forced_step2)
  apply (rule hoare_bnd, rule forced_step3)
  apply (rule hoare_bnd, rule forced_step4)
  apply (rule hoare_bnd, rule forced_step5)
  apply (rule hoare_bnd, rule forced_step6)
  apply (rule forced_step7)
  done

lemma forcedInv_ledger:
  "forcedInv xs (s\<lparr>deploymentState := (deploymentState s)\<lparr>deployer := d\<rparr>\<rparr>) = forcedInv xs s"
  "forcedInv xs (s\<lparr>deploymentState := (deploymentState s)\<lparr>completed := b\<rparr>\<rparr>) = forcedInv xs s"
  "forcedInv xs (s\<lparr>deploymentState := (deploymentState s)\<lparr>completedAt := c\<rparr>\<rparr>) = forcedInv xs s"
  by (simp_all add: forcedInv_def)

lemma forced_initDeployer:
  "hoare (forcedInv xs) (initDeployer env accounts) (\<lambda>_. forcedInv xs)
     (\<lambda>_ s. accountedLog (trace s))"
  unfolding initDeployer_def
  apply (rule hoare_bnd [where R = "\<lambda>_. forcedInv xs"])
   apply (rule hoare_gets, assumption)
  apply (rule hoare_bnd [where R = "\<lambda>_. forcedInv xs"])
   apply (simp only: if_distrib [where f = "\<lambda>m. hoare _ m _ _"] split: if_splits)
   apply (intro conjI impI)
    apply (rule hoare_bnd [where R = "\<lambda>_. forcedInv xs"])
     apply (rule hoare_modifyState, simp add: forcedInv_ledger)
    apply (rule G1, simp)
   apply (rule hoare_ret, simp)
  apply (rule hoare_ext)
  apply (auto split: sum.splits simp: forcedInv_def)
  done

lemma forced_finish:
  "hoare (forcedInv xs) (finish env) (\<lambda>_. forcedInv xs) (\<lambda>_ s. accountedLog (trace s))"
  unfolding finish_def writeBackup_def
  apply (rule hoare_bnd, rule G1, simp)
  apply (rule hoare_bnd [where R = "\<lambda>_. forcedInv xs"])
   apply (rule hoare_modifyState, simp add: forcedInv_ledger)
  apply (rule hoare_bnd [where R = "\<lambda>_. forcedInv xs"])
   apply (rule hoare_ext_total, simp)
  apply (rule hoare_bnd [where R = "\<lambda>_. forcedInv xs"])
   apply (rule hoare_modifyState, simp add: forcedInv_ledger)
  apply (rule hoare_bnd [where R = "\<lambda>_. forcedInv xs"])
   apply (rule hoare_cases, erule (1) forced_save)
  apply (rule hoare_bnd [where R = "\<lambda>_. forcedInv xs"])
   apply (rule hoare_ext_total, simp)
  apply (rule hoare_bnd [where R = "\<lambda>_. forcedInv xs"])
   apply (rule hoare_gets, simp)
  apply (rule hoare_bnd [where R = "\<lambda>_. forcedInv xs"])
   apply (rule hoare_ext)
   apply (auto split: sum.splits simp: forcedInv_def)[1]
  apply (simp add: hoare_def modify_def forcedInv_def)
  apply (auto intro: accountedLog_chain)
  done

lemma loadPhase_forced:
  "loadPhase env True s =
     (case clock env (world s) of
        (t, w1) \<Rightarrow>
          (case listAccounts env w1 of
             (Inl e, w2) \<Rightarrow>
               (Inl e, s\<lparr>world := w2, deploymentState := initialState t (chainIdHoodi env)\<rparr>)
           | (Inr accounts, w2) \<Rightarrow>
               (Inr (accounts, False),
                s\<lparr>world := w2,
                  deploymentState := (initialState t (chainIdHoodi env))
                    \<lparr>progress := initialProgress ''Force redeployment starting...''\<rparr>\<rparr>)))"
  by (simp add: loadPhase_def forceReset_def initialState_def act_defs
      split: prod.splits sum.splits)

lemma forced_loadPhase:
  assumes "trace s0 = []"
  shows "hoare (\<lambda>s. s = s0) (loadPhase env True)
     (\<lambda>(accounts, finished) s. \<not> finished \<and> forcedInv [] s) (\<lambda>_ s. accountedLog (trace s))"
  using assms
  by (intro hoare_cases)
    (auto simp: loadPhase_forced forcedInv_def accounted_def accountedLog_def initialState_def
      initialProgress_def split: prod.splits sum.splits)

lemma forced_main:
  assumes "trace s0 = []"
  shows "hoare (\<lambda>s. s = s0) (main env True)
     (\<lambda>_ s. callsOf (trace s) = planCalls \<and> accountedLog (trace s))
     (\<lambda>_ s. accountedLog (trace s))"
proof -
  let ?Q = "\<lambda>(u :: unit) (s :: 'a run_state). callsOf (trace s) = planCalls \<and> accountedLog (trace s)"
  let ?E = "\<lambda>(e :: error) (s :: 'a run_state). accountedLog (trace s)"
  have plan: "hoare (forcedInv []) (runPlan env True accounts) ?Q ?E" for accounts
    unfolding runPlan_def
    apply (rule hoare_bnd, rule forced_initDeployer)
    apply (rule hoare_bnd, rule forced_planSteps)
    apply (rule hoare_post, rule forced_finish)
     apply (simp add: forcedInv_def)
    apply assumption
    done
  have rest: "hoare (\<lambda>s. \<not> finished \<and> forcedInv [] s)
      (if finished then ret () else runPlan env True accounts) ?Q ?E" for accounts finished
  proof (cases finished)
    case True
    then show ?thesis by (simp add: hoare_def)
  next
    case False
    with plan [of accounts] show ?thesis by simp
  qed
  show ?thesis
    unfolding main_def
    apply (rule hoare_bnd, rule forced_loadPhase [OF assms])
    subgoal for x
      using rest by (cases x) simp
    done
qed

subsection \<open>The first write of a run\<close>








































subsection \<open>Units that are live throughout a run\<close>

lemma skipped_append [simp]: "skipped n a (xs @ ys) = (skipped n a xs \<and> skipped n a ys)"
  by (induction xs rule: skipped.induct) simp_all

lemma kept_world [simp]: "kept n a (s\<lparr>world := w\<rparr>) = kept n a s"
  by (simp add: kept_def)

lemma keepsI:
  "(\<And>s r s'. kept n a s \<Longrightarrow> m s = (r, s') \<Longrightarrow> kept n a s') \<Longrightarrow> keeps n a m"
  unfolding keeps_def by (rule hoare_cases) (auto split: sum.splits)

lemma keepsD: "keeps n a m \<Longrightarrow> kept n a s \<Longrightarrow> m s = (r, s') \<Longrightarrow> kept n a s'"
  unfolding keeps_def by (cases r) (auto dest: hoareD_Inl hoareD_Inr)

lemma keeps_bnd: "keeps n a m \<Longrightarrow> (\<And>x. keeps n a (f x)) \<Longrightarrow> keeps n a (bnd m f)"
  unfolding keeps_def by (rule hoare_bnd)

lemma keeps_simple [simp]:
  "keeps n a (ret x)" "keeps n a (throw e)" "keeps n a (gets g)"
  "keeps n a (ext op)" "keeps n a (ext_total op')"
  by (auto intro!: keepsI simp: act_defs split: prod.splits sum.splits)

lemma keeps_if: "keeps n a x \<Longrightarrow> keeps n a y \<Longrightarrow> keeps n a (if c then x else y)"
  by simp

lemma keeps_catch:
  assumes "keeps n a m" and "\<And>e. keeps n a (h e)"
  shows "keeps n a (catch m h)"
proof (rule keepsI)
  fix s r s' assume inv: "kept n a s" and run: "catch m h s = (r, s')"
  obtain r1 s1 where 1: "m s = (r1, s1)" by (cases "m s")
  from keepsD [OF assms(1) inv 1] have k1: "kept n a s1" .
  show "kept n a s'"
  proof (cases r1)
    case (Inr x)
    with run 1 have "s' = s1" by (simp add: catch_def)
    with k1 show ?thesis by simp
  next
    case (Inl e)
    with run 1 have "h e s1 = (r, s')" by (simp add: catch_def)
    from keepsD [OF assms(2) k1 this] show ?thesis .
  qed
qed

lemma keeps_modifyState:
  "(\<And>ds. contracts (f ds) = contracts ds) \<Longrightarrow> keeps n a (modifyState f)"
  by (rule keepsI) (auto simp: modifyState_def modify_def kept_def)

lemma keeps_send: "keeps n a (logEvent (EvSend x m args))"
  by (rule keepsI) (auto simp: logEvent_def modify_def kept_def)

lemma keeps_save: "keeps n a (saveDeploymentState env)"
  by (rule keepsI)
    (auto simp: saveDeploymentState_cases kept_def parseStateFile_def split: prod.splits sum.splits)

lemma keeps_updateProgress: "keeps n a (updateProgress env k d None None)"
  by (rule keepsI)
    (auto simp: updateProgress_cases saveDeploymentState_cases recordContract_def kept_def
      parseStateFile_def split: prod.splits sum.splits)

lemma keeps_named:
  "hoare (\<lambda>s. kept n a s \<and> (m = n \<longrightarrow> c = a)) (updateProgress env k d (Some m) (Some c))
     (\<lambda>_. kept n a) (\<lambda>_. kept n a)"
  by (rule hoare_cases)
    (auto simp: updateProgress_cases saveDeploymentState_cases recordContract_def kept_def
      parseStateFile_def update_conv' update_same split: prod.splits sum.splits)

lemma keeps_isContractDeployed: "keeps n a (isContractDeployed env x)"
  by (rule keepsI)
    (auto simp: isContractDeployed_cases kept_def split: option.splits if_splits prod.splits sum.splits)

lemma keeps_invoke: "keeps n a (invoke env c m args)"
  unfolding invoke_def by (intro keeps_bnd keeps_send keeps_simple)

lemma keeps_factoryFromFile: "keeps n a (factoryFromFile env p x y)"
  unfolding factoryFromFile_def
  by (intro keeps_bnd keeps_simple) (simp split: artifact_file.splits)

lemma keeps_getContractArtifact: "keeps n a (getContractArtifact env m)"
  unfolding getContractArtifact_def by (simp add: keeps_factoryFromFile split: option.splits)

lemma keeps_getOnchainIDContractFactory: "keeps n a (getOnchainIDContractFactory env m)"
  unfolding getOnchainIDContractFactory_def by (simp add: keeps_factoryFromFile)

lemma keeps_configure:
  "keeps n a (configureVersion env tia impls)"
  "keeps n a (configureIdentityFactory env idf tf)"
  "keeps n a (configureTREXFactory env tia tf)"
  "keeps n a (configureIAFactory env tia iaf)"
  unfolding configureVersion_def configureIdentityFactory_def configureTREXFactory_def
    configureIAFactory_def
  by (intro keeps_bnd keeps_simple keeps_if keeps_catch keeps_invoke keeps_modifyState; simp)+

lemma keeps_writeBackup: "keeps n a (writeBackup env)"
  by (rule keepsI)
    (auto simp: writeBackup_def act_defs kept_def split: prod.splits sum.splits)

lemma keeps_finish: "keeps n a (finish env)"
  unfolding finish_def
  by (intro keeps_bnd keeps_simple keeps_updateProgress keeps_save keeps_writeBackup
      keeps_modifyState; simp)

lemma live_address:
  assumes "\<forall>x. fst (isContractDeployed env (Some a) x) = Inr True"
  shows "a \<noteq> []" "isAddress env a"
    "isContractDeployed env (Some a) s = (Inr True, s\<lparr>trace := trace s @ [EvGetCode a],
        world := snd (getCode env (world s) a)\<rparr>)"
proof -
  from assms have 1: "fst (isContractDeployed env (Some a) s) = Inr True" for s :: "'a run_state"
    by blast
  from 1 [of s] show 2: "a \<noteq> []" and 3: "isAddress env a"
    by (auto simp: isContractDeployed_cases split: if_splits)
  from 1 [of s] 2 3 show "isContractDeployed env (Some a) s
      = (Inr True, s\<lparr>trace := trace s @ [EvGetCode a], world := snd (getCode env (world s) a)\<rparr>)"
    by (auto simp: isContractDeployed_cases split: prod.splits sum.splits)
qed

lemma deployIfNeeded_live:
  assumes live: "\<forall>x. fst (isContractDeployed env (Some a) x) = Inr True"
      and cached: "map_of (contracts (deploymentState s)) n = Some a"
  shows "deployIfNeeded env False n f args s
     = (Inr (Contract a), s\<lparr>trace := trace s @ [EvGetCode a],
          world := snd (getCode env (world s) a)\<rparr>)"
  using cached live_address [OF live] by (simp add: deployIfNeeded_cases)

lemma keeps_deployNow: "m \<noteq> n \<Longrightarrow> keeps n a (deployNow env m f args)"
  by (rule keepsI)
    (auto simp: deployNow_cases saveDeploymentState_cases kept_def parseStateFile_def
      update_conv' split: prod.splits sum.splits)

lemma keeps_deployIfNeeded:
  assumes live: "\<forall>x. fst (isContractDeployed env (Some a) x) = Inr True"
  shows "hoare (kept n a) (deployIfNeeded env False m f args)
     (\<lambda>c s. kept n a s \<and> (m = n \<longrightarrow> address c = a)) (\<lambda>_. kept n a)"
proof (cases "m = n")
  case True
  show ?thesis
    by (rule hoare_cases)
      (auto simp: True kept_def deployIfNeeded_live [OF live])
next
  case False
  have forget: "kept n a (x\<lparr>deploymentState := (deploymentState x)
      \<lparr>contracts := AList.delete m (contracts (deploymentState x))\<rparr>\<rparr>)"
    if "kept n a x" for x :: "'a run_state"
    using that False by (simp add: kept_def delete_conv')
  have "keeps n a (deployIfNeeded env False m f args)"
  proof (rule keepsI)
    fix s r s' assume inv: "kept n a s" and run: "deployIfNeeded env False m f args s = (r, s')"
    note now = keepsD [OF keeps_deployNow [OF False]]
    show "kept n a s'"
    proof (cases "map_of (contracts (deploymentState s)) m")
      case None
      with run have "deployNow env m f args s = (r, s')" by (simp add: deployIfNeeded_cases)
      from now [OF inv this] show ?thesis .
    next
      case (Some x)
      show ?thesis
      proof (cases "x = []")
        case True
        with Some run have "deployNow env m f args s = (r, s')"
          by (simp add: deployIfNeeded_cases)
        from now [OF inv this] show ?thesis .
      next
        case filled: False
        obtain b s1 where probe: "isContractDeployed env (Some x) s = (Inr b, s1)"
          by (cases "isContractDeployed env (Some x) s")
            (auto simp: isContractDeployed_cases split: if_splits prod.splits sum.splits)
        from keepsD [OF keeps_isContractDeployed inv probe] have k1: "kept n a s1" .
        show ?thesis
        proof (cases b)
          case True
          with Some filled probe run have "s' = s1" by (simp add: deployIfNeeded_cases)
          with k1 show ?thesis by simp
        next
          case False
          with Some filled probe run have "deployNow env m f args
              (s1\<lparr>deploymentState := (deploymentState s1)
                   \<lparr>contracts := AList.delete m (contracts (deploymentState s1))\<rparr>\<rparr>) = (r, s')"
            by (simp add: deployIfNeeded_cases)
          from now [OF forget [OF k1] this] show ?thesis .
        qed
      qed
    qed
  qed
  then show ?thesis
    unfolding keeps_def using False by (auto simp: hoare_def split: prod.splits sum.splits)
qed

lemma keeps_pair:
  assumes live: "\<forall>x. fst (isContractDeployed env (Some a) x) = Inr True"
      and rest: "\<And>c u. keeps n a (g c u)"
  shows "keeps n a (bnd (deployIfNeeded env False m f args) (\<lambda>c.
           bnd (updateProgress env k d (Some m) (Some (address c))) (g c)))"
  unfolding keeps_def
  apply (rule hoare_bnd, rule keeps_deployIfNeeded [OF live])
  apply (rule hoare_bnd, rule keeps_named)
  apply (rule rest [unfolded keeps_def])
  done

lemma keeps_steps:
  assumes live: "\<forall>x. fst (isContractDeployed env (Some a) x) = Inr True"
  shows "keeps n a (step1 env False)" "keeps n a (step2 env False accounts)"
    "keeps n a (step3 env False impls)" "keeps n a (step4 env False tia idf)"
    "keeps n a (step5 env idf tf)" "keeps n a (step6 env False tf)"
    "keeps n a (step7 env tia tf iaf)"
  unfolding step1_def step2_def step3_def step4_def step5_def step6_def step7_def
  by (rule keeps_pair [OF live] | rule keeps_bnd | rule keeps_updateProgress
      | rule keeps_getContractArtifact | rule keeps_getOnchainIDContractFactory
      | rule keeps_configure | rule keeps_simple)+

lemma keeps_planSteps:
  "\<forall>x. fst (isContractDeployed env (Some a) x) = Inr True
   \<Longrightarrow> keeps n a (planSteps env False accounts)"
  unfolding planSteps_def by (intro keeps_bnd keeps_steps)

lemma keeps_initDeployer: "keeps n a (initDeployer env accounts)"
  unfolding initDeployer_def
  by (intro keeps_bnd keeps_simple keeps_if keeps_updateProgress keeps_modifyState; simp)

lemma keeps_runPlan:
  "\<forall>x. fst (isContractDeployed env (Some a) x) = Inr True
   \<Longrightarrow> keeps n a (runPlan env False accounts)"
  unfolding runPlan_def by (intro keeps_bnd keeps_initDeployer keeps_planSteps keeps_finish)

lemma kept_onFile: "kept n a s \<Longrightarrow> onFile n a s"
  by (simp add: kept_def onFile_def)

lemma verifyContracts_live:
  assumes live: "\<forall>x. fst (isContractDeployed env (Some a) x) = Inr True"
  shows "verifyContracts env cs s = (r, s') \<Longrightarrow> \<forall>(m, x) \<in> set cs. m = n \<longrightarrow> x = a \<Longrightarrow>
     (\<exists>rm. r = Inr rm \<and> n \<notin> set rm) \<and> deploymentState s' = deploymentState s
     \<and> stateFile s' = stateFile s \<and> skipped n a (trace s') = skipped n a (trace s)"
proof (induction cs arbitrary: s r s')
  case Nil
  then show ?case by (auto simp: ret_def)
next
  case (Cons c cs)
  obtain m x where c: "c = (m, x)" by (cases c)
  obtain b s1 where probe: "isContractDeployed env (Some x) s = (Inr b, s1)"
    and s1: "deploymentState s1 = deploymentState s" "stateFile s1 = stateFile s"
      "skipped n a (trace s1) = skipped n a (trace s)"
    by (cases "isContractDeployed env (Some x) s")
      (auto simp: isContractDeployed_cases split: if_splits prod.splits sum.splits)
  obtain r2 s2 where rest: "verifyContracts env cs s1 = (r2, s2)"
    by (cases "verifyContracts env cs s1")
  from Cons.prems(2) have "\<forall>(m, x) \<in> set cs. m = n \<longrightarrow> x = a" by simp
  from Cons.IH [OF rest this] obtain rm where rm: "r2 = Inr rm" "n \<notin> set rm"
    and s2: "deploymentState s2 = deploymentState s1" "stateFile s2 = stateFile s1"
      "skipped n a (trace s2) = skipped n a (trace s1)"
    by blast
  have "b" if "m = n"
  proof -
    from that Cons.prems(2) c have "x = a" by simp
    moreover from live have "fst (isContractDeployed env (Some a) s) = Inr True" by blast
    ultimately show ?thesis using probe by simp
  qed
  with Cons.prems(1) probe rest rm have "s' = s2" "\<exists>rm. r = Inr rm \<and> n \<notin> set rm"
    by (auto simp: c bnd_run ret_def)
  with s1 s2 show ?case by simp
qed

lemma fold_delete_other: "n \<notin> set rm \<Longrightarrow> map_of (fold AList.delete rm cs) n = map_of cs n"
  by (induction rm arbitrary: cs) (simp_all add: delete_conv')

lemma single_entry:
  "distinct (map fst cs) \<Longrightarrow> map_of cs n = Some a \<Longrightarrow> \<forall>(m, x) \<in> set cs. m = n \<longrightarrow> x = a"
proof (clarify)
  fix x assume d: "distinct (map fst cs)" and c: "map_of cs n = Some a" and m: "(n, x) \<in> set cs"
  from map_of_is_SomeI [OF d m] c show "x = a" by simp
qed

lemma resumeExisting_live:
  assumes live: "\<forall>x. fst (isContractDeployed env (Some a) x) = Inr True"
      and cached: "map_of (contracts ds) n = Some a"
      and single: "distinct (map fst (contracts ds))"
      and inv: "onFile n a s"
      and run: "resumeExisting env ds s = (r, s')"
  shows "(\<exists>b. r = Inr b) \<and> kept n a s'"
proof (cases "completed ds")
  case True
  with run inv cached show ?thesis
    by (auto simp: resumeExisting_def bnd_run act_defs kept_def onFile_def)
next
  case False
  let ?s1 = "s\<lparr>deploymentState := (deploymentState s)
      \<lparr>contracts := contracts ds, progress := progress ds, deployer := deployer ds\<rparr>\<rparr>"
  obtain r2 s2 where check: "verifyContracts env (contracts ds) ?s1 = (r2, s2)"
    by (cases "verifyContracts env (contracts ds) ?s1")
  from verifyContracts_live [OF live check single_entry [OF single cached]]
  obtain rm where rm: "r2 = Inr rm" "n \<notin> set rm"
    and s2: "deploymentState s2 = deploymentState ?s1" "stateFile s2 = stateFile ?s1"
      "skipped n a (trace s2) = skipped n a (trace ?s1)"
    by blast
  from run False check rm
  have "r = Inr False"
    and "s' = s2\<lparr>deploymentState := (deploymentState s2)
           \<lparr>contracts := fold AList.delete rm (contracts (deploymentState s2))\<rparr>\<rparr>"
    by (auto simp: resumeExisting_def bnd_run act_defs)
  with s2 rm inv cached show ?thesis
    by (auto simp: kept_def onFile_def fold_delete_other)
qed

lemma loadPhase_live:
  assumes live: "\<forall>x. fst (isContractDeployed env (Some a) x) = Inr True"
      and stored: "parseStateFile (stateFile s) = Some ds"
      and cached: "map_of (contracts ds) n = Some a"
      and single: "distinct (map fst (contracts ds))"
      and fresh: "trace s = []"
      and run: "loadPhase env False s = (r, s')"
  shows "case r of Inl e \<Rightarrow> onFile n a s' | Inr x \<Rightarrow> kept n a s'"
proof -
  obtain t w1 where clock: "clock env (world s) = (t, w1)" by (cases "clock env (world s)")
  obtain ra w2 where accs: "listAccounts env w1 = (ra, w2)" by (cases "listAccounts env w1")
  let ?s1 = "s\<lparr>deploymentState := initialState t (chainIdHoodi env), world := w2\<rparr>"
  have inv: "onFile n a ?s1"
    using stored cached fresh by (simp add: onFile_def)
  show ?thesis
  proof (cases ra)
    case (Inl e)
    with run clock accs have "r = Inl e" "s' = ?s1"
      by (auto simp: loadPhase_def bnd_run act_defs)
    with inv show ?thesis by simp
  next
    case (Inr accounts)
    obtain r2 s2 where res: "resumeExisting env ds ?s1 = (r2, s2)"
      by (cases "resumeExisting env ds ?s1")
    from resumeExisting_live [OF live cached single inv res] obtain b where b: "r2 = Inr b"
      and k: "kept n a s2"
      by blast
    from run clock accs stored Inr res b have "r = Inr (accounts, b)" "s' = s2"
      by (auto simp: loadPhase_def loadExistingDeployment_def bnd_run act_defs)
    with k show ?thesis by simp
  qed
qed

lemma main_live:
  assumes live: "\<forall>x. fst (isContractDeployed env (Some a) x) = Inr True"
      and stored: "parseStateFile (stateFile s) = Some ds"
      and cached: "map_of (contracts ds) n = Some a"
      and single: "distinct (map fst (contracts ds))"
      and fresh: "trace s = []"
  shows "onFile n a (snd (main env False s))"
    "fst (main env False s) = Inr () \<Longrightarrow> kept n a (snd (main env False s))"
proof -
  obtain r1 s1 where load: "loadPhase env False s = (r1, s1)"
    by (cases "loadPhase env False s")
  note first = loadPhase_live [OF live stored cached single fresh load]
  have "onFile n a (snd (main env False s))
      \<and> (fst (main env False s) = Inr () \<longrightarrow> kept n a (snd (main env False s)))"
  proof (cases r1)
    case (Inl e)
    with load have "main env False s = (Inl e, s1)" by (simp add: main_def bnd_run)
    with first Inl show ?thesis by simp
  next
    case (Inr x)
    obtain accounts finished where x: "x = (accounts, finished)" by (cases x)
    from first Inr have k1: "kept n a s1" by simp
    show ?thesis
    proof (cases finished)
      case True
      with load Inr x have "main env False s = (Inr (), s1)"
        by (simp add: main_def bnd_run ret_def)
      with k1 show ?thesis by (simp add: kept_onFile)
    next
      case False
      with load Inr x have "main env False s = runPlan env False accounts s1"
        by (simp add: main_def bnd_run)
      moreover have "kept n a (snd (runPlan env False accounts s1))"
        using keepsD [OF keeps_runPlan [OF live] k1, of accounts
            "fst (runPlan env False accounts s1)" "snd (runPlan env False accounts s1)"]
        by simp
      ultimately show ?thesis by (simp add: kept_onFile)
    qed
  qed
  then show "onFile n a (snd (main env False s))"
    and "fst (main env False s) = Inr () \<Longrightarrow> kept n a (snd (main env False s))"
    by simp_all
qed

subsection \<open>Concrete runs\<close>

lemmas demo_defs = demoEnv_def deadEnv_def rejectingEnv_def offlineEnv_def noArtifactsEnv_def
  revertingEnv_def revertMessage_def interruptedLedger_def completedLedger_def demoStart_def resumeStart_def resumedState_def
  completedStart_def

lemma main_completed:
  assumes "parseStateFile (stateFile s) = Some ds" and "completed ds"
  shows "trace (snd (main env False s)) = trace s
       \<and> stateFile (snd (main env False s)) = stateFile s
       \<and> backupFiles (snd (main env False s)) = backupFiles s"
  using assms
  by (simp add: main_def loadPhase_def resumeExisting_def loadExistingDeployment_def
      bnd_run ret_def gets_def modify_def modifyState_def ext_def ext_total_def
      split: prod.splits sum.splits)

lemma interrupted_run:
  "fst (main noArtifactsEnv False resumeStart)
     = Inl (Error ''Artifact file not found: artifacts/contracts/token/Token.sol/Token.json'')"
  "stateFile (snd (main noArtifactsEnv False resumeStart))
     = LedgerFile (interruptedLedger
         \<lparr>timestamp := 500,
          progress := (progress interruptedLedger)
            \<lparr>step := 1, description := ''Starting implementation contracts deployment'',
             lastUpdated := Some 501\<rparr>\<rparr>)"
  "saveSteps (trace (snd (main noArtifactsEnv False resumeStart))) = [1]"
proof -
  let ?s1 = "resumeStart\<lparr>world := 501,
      deploymentState := interruptedLedger\<lparr>timestamp := 500\<rparr>,
      trace := [EvGetCode ''0xA1'', EvGetCode ''0xA2'', EvGetCode ''0xA3'', EvGetCode ''0xA4'',
                EvGetCode ''0xA5'', EvGetCode ''0xA6'']\<rparr>"
  have load: "loadPhase noArtifactsEnv False resumeStart = (Inr ([''0xACC''], False), ?s1)"
    by (simp add: loadPhase_def resumeExisting_def loadExistingDeployment_def parseStateFile_def
      bnd_run ret_def gets_def modify_def modifyState_def ext_def ext_total_def
      isContractDeployed_cases initialState_def initialProgress_def demo_defs)
  have init: "initDeployer noArtifactsEnv [''0xACC''] ?s1 = (Inr (), ?s1)"
    by (simp add: initDeployer_def bnd_run ret_def gets_def ext_def truthy_def demo_defs)
  let ?l2 = "interruptedLedger
         \<lparr>timestamp := 500,
          progress := (progress interruptedLedger)
            \<lparr>step := 1, description := ''Starting implementation contracts deployment'',
             lastUpdated := Some 501\<rparr>\<rparr>"
  let ?s2 = "resumeStart\<lparr>world := 502, deploymentState := ?l2, stateFile := LedgerFile ?l2,
      trace := [EvGetCode ''0xA1'', EvGetCode ''0xA2'', EvGetCode ''0xA3'', EvGetCode ''0xA4'',
                EvGetCode ''0xA5'', EvGetCode ''0xA6'', EvSave ?l2]\<rparr>"
  have up: "updateProgress noArtifactsEnv 1 ''Starting implementation contracts deployment''
              None None ?s1 = (Inr (), ?s2)"
    by (simp add: updateProgress_cases saveDeploymentState_cases recordContract_def demo_defs)
  have art: "getContractArtifact noArtifactsEnv ''Token'' ?s2
     = (Inl (Error ''Artifact file not found: artifacts/contracts/token/Token.sol/Token.json''), ?s2)"
    by (simp add: getContractArtifact_def contractPaths_def factoryFromFile_def bnd_run throw_def
        ext_total_def demo_defs)
  have one: "step1 noArtifactsEnv False ?s1
     = (Inl (Error ''Artifact file not found: artifacts/contracts/token/Token.sol/Token.json''), ?s2)"
    unfolding step1_def by (simp add: bnd_run up art)
  have plan: "planSteps noArtifactsEnv False [''0xACC''] ?s1
     = (Inl (Error ''Artifact file not found: artifacts/contracts/token/Token.sol/Token.json''), ?s2)"
    unfolding planSteps_def by (simp add: bnd_run one)
  have "main noArtifactsEnv False resumeStart
     = (Inl (Error ''Artifact file not found: artifacts/contracts/token/Token.sol/Token.json''), ?s2)"
    unfolding main_def runPlan_def by (simp add: bnd_run load init plan)
  then show "fst (main noArtifactsEnv False resumeStart)
     = Inl (Error ''Artifact file not found: artifacts/contracts/token/Token.sol/Token.json'')"
    and "stateFile (snd (main noArtifactsEnv False resumeStart)) = LedgerFile ?l2"
    and "saveSteps (trace (snd (main noArtifactsEnv False resumeStart))) = [1]"
    by simp_all
qed


section \<open>The claims\<close>

text \<open>
  C1. A unit that the state file records at an address where the liveness check
  answers true whenever it is asked, in a run without the force flag: the run issues no
  deploy call for the unit, every write of the run records the unit at that address, and
  so does the state file when the run ends, however it ends; when the run returns, so
  does the state in memory. \<^verbatim>\<open>deployIfNeeded\<close> for this unit issues the code query and
  nothing else, returns the handle attached at the recorded address, and the progress
  update that records the handle's address leaves the contract table as it is. The
  contract table of the file has one entry for each name, as a JSON object has.
\<close>

theorem cached_live_unit_skipped:
  assumes stored: "parseStateFile (stateFile s) = Some ds"
      and cached: "map_of (contracts ds) U = Some A"
      and single: "distinct (map fst (contracts ds))"
      and live: "\<forall>x. fst (isContractDeployed env (Some A) x) = Inr True"
      and fresh: "trace s = []"
  shows "skipped U A (trace (snd (main env False s)))
       \<and> map_option (\<lambda>ds'. map_of (contracts ds') U)
           (parseStateFile (stateFile (snd (main env False s)))) = Some (Some A)
       \<and> (fst (main env False s) = Inr () \<longrightarrow>
            map_of (contracts (deploymentState (snd (main env False s)))) U = Some A)
       \<and> (\<forall>t f args. map_of (contracts (deploymentState t)) U = Some A \<longrightarrow>
            (\<exists>t'. deployIfNeeded env False U f args t = (Inr (Contract A), t')
               \<and> trace t' = trace t @ [EvGetCode A]
               \<and> deploymentState t' = deploymentState t
               \<and> stateFile t' = stateFile t
               \<and> recordContract (Some U) (Some (address (Contract A)))
                    (contracts (deploymentState t')) = contracts (deploymentState t)))"
proof -
  note run = main_live [OF live stored cached single fresh]
  have "\<exists>t'. deployIfNeeded env False U f args t = (Inr (Contract A), t')
               \<and> trace t' = trace t @ [EvGetCode A]
               \<and> deploymentState t' = deploymentState t
               \<and> stateFile t' = stateFile t
               \<and> recordContract (Some U) (Some (address (Contract A)))
                    (contracts (deploymentState t')) = contracts (deploymentState t)"
    if "map_of (contracts (deploymentState t)) U = Some A" for t :: "'a run_state" and f args
    using that by (simp add: deployIfNeeded_live [OF live] recordContract_def update_same)
  with run show ?thesis
    by (simp add: onFile_def kept_def)
qed

theorem cached_live_unit_skipped_witness:
  "parseStateFile (stateFile startedStart) = Some startedLedger
   \<and> map_of (contracts startedLedger) ''TokenImplementation''
       = Some ''0x5fbdb2315678afecb367f032d93f642f64180aa3''
   \<and> distinct (map fst (contracts startedLedger))
   \<and> (\<forall>x. fst (isContractDeployed demoEnv (Some ''0x5fbdb2315678afecb367f032d93f642f64180aa3'') x)
          = Inr True)
   \<and> trace startedStart = []
   \<and> fst (main demoEnv False startedStart) = Inr ()
   \<and> skipped ''TokenImplementation'' ''0x5fbdb2315678afecb367f032d93f642f64180aa3''
       (trace (snd (main demoEnv False startedStart)))
   \<and> map_option (\<lambda>ds'. map_of (contracts ds') ''TokenImplementation'')
       (parseStateFile (stateFile (snd (main demoEnv False startedStart))))
       = Some (Some ''0x5fbdb2315678afecb367f032d93f642f64180aa3'')
   \<and> map_of (contracts (deploymentState (snd (main demoEnv False startedStart))))
       ''TokenImplementation'' = Some ''0x5fbdb2315678afecb367f032d93f642f64180aa3''"
proof -
  have stored: "parseStateFile (stateFile startedStart) = Some startedLedger"
    by (simp add: parseStateFile_def startedStart_def demo_defs)
  have cached: "map_of (contracts startedLedger) ''TokenImplementation''
       = Some ''0x5fbdb2315678afecb367f032d93f642f64180aa3''"
    by (simp add: startedLedger_def)
  have single: "distinct (map fst (contracts startedLedger))"
    by (simp add: startedLedger_def)
  have live: "\<forall>x. fst (isContractDeployed demoEnv
      (Some ''0x5fbdb2315678afecb367f032d93f642f64180aa3'') x) = Inr True"
    by (simp add: isContractDeployed_cases demo_defs)
  have fresh: "trace startedStart = []"
    by (simp add: startedStart_def demo_defs)
  have returns: "fst (main demoEnv False startedStart) = Inr ()"
    by (rule main_returns [OF cooperative_demoEnv])
  from cached_live_unit_skipped [OF stored cached single live fresh]
    stored cached single live fresh returns
  show ?thesis by blast
qed

text \<open>
  C5. A missing address, an empty or syntactically invalid one, and a code query that
  throws all make the liveness check answer false: it neither throws nor answers true.
\<close>

theorem isContractDeployed_fail_safe:
  assumes "addr = None \<or> addr = Some [] \<or> (\<exists>a. addr = Some a \<and> \<not> isAddress env a)
           \<or> (\<exists>a e w'. addr = Some a \<and> getCode env (world s) a = (Inl e, w'))"
  shows "fst (isContractDeployed env addr s) = Inr False"
  using assms
  by (auto simp: isContractDeployed_cases split: option.splits prod.splits sum.splits)

theorem isContractDeployed_fail_safe_witness:
  "getCode offlineEnv (world resumedState) ''0xA1'' = (Inl (Error ''network timeout''), 500)
   \<and> fst (isContractDeployed offlineEnv (Some ''0xA1'') resumedState) = Inr False
   \<and> isAddress demoEnv ''A1'' = False
   \<and> fst (isContractDeployed demoEnv (Some ''A1'') resumedState) = Inr False
   \<and> fst (isContractDeployed demoEnv None resumedState) = Inr False"
proof -
  have q: "getCode offlineEnv (world resumedState) ''0xA1'' = (Inl (Error ''network timeout''), 500)"
    by (simp add: demo_defs)
  have i: "isAddress demoEnv ''A1'' = False"
    by (simp add: demo_defs)
  have "fst (isContractDeployed offlineEnv (Some ''0xA1'') resumedState) = Inr False"
    using isContractDeployed_fail_safe [of "Some ''0xA1''" offlineEnv resumedState] q by blast
  moreover have "fst (isContractDeployed demoEnv (Some ''A1'') resumedState) = Inr False"
    using isContractDeployed_fail_safe [of "Some ''A1''" demoEnv resumedState] i by blast
  moreover have "fst (isContractDeployed demoEnv None resumedState) = Inr False"
    using isContractDeployed_fail_safe [of None demoEnv resumedState] by blast
  ultimately show ?thesis using q i by blast
qed

text \<open>
  C10. The liveness check always returns a boolean, and the boolean is true exactly
  when the code query is issued (the address is present, non-empty and valid for
  \<^verbatim>\<open>ethers.utils.isAddress\<close>), succeeds, and yields a string other than \<^verbatim>\<open>"0x"\<close> and
  \<^verbatim>\<open>"0x0"\<close>.
\<close>

theorem isContractDeployed_total:
  "\<exists>b s'. isContractDeployed env addr s = (Inr b, s') \<and>
     (b \<longleftrightarrow> (\<exists>a code w'. addr = Some a \<and> a \<noteq> [] \<and> isAddress env a \<and>
                getCode env (world s) a = (Inr code, w') \<and> code \<noteq> ''0x'' \<and> code \<noteq> ''0x0''))"
  by (auto simp: isContractDeployed_cases split: option.splits prod.splits sum.splits)

text \<open>
  C9. The version configuration has no recovery: when it is due and the transaction is
  rejected, whatever the message, \<^verbatim>\<open>configureVersion\<close> and everything sequenced after
  it end with that error, and neither the state in memory nor the state file changes.
  The three other configuration actions turn a rejection into success exactly when the
  message contains one of their substrings.
\<close>

theorem configureVersion_no_recovery:
  "(\<not> truthy (map_of (contracts (deploymentState s)) ''TREXImplementationAuthority'')
      \<or> \<not> versionConfigured (progress (deploymentState s)) \<longrightarrow>
    sendTx env (world s) (address tia) ''addAndUseTREXVersion'' (versionArgs impls) = (Inl e, w') \<longrightarrow>
      fst (configureVersion env tia impls s) = Inl e
      \<and> fst (bnd (configureVersion env tia impls) f s) = Inl e
      \<and> deploymentState (snd (configureVersion env tia impls s)) = deploymentState s
      \<and> stateFile (snd (configureVersion env tia impls s)) = stateFile s)
   \<and> (\<not> identityFactoryConfigured (progress (deploymentState s)) \<longrightarrow>
      sendTx env (world s) (address idf) ''addTokenFactory'' [AStr (address tf)] = (Inl e, w') \<longrightarrow>
      fst (configureIdentityFactory env idf tf s) =
        (if includesStr (message e) ''already a TokenFactory'' then Inr () else Inl e))
   \<and> (\<not> trexFactoryConfigured (progress (deploymentState s)) \<longrightarrow>
      sendTx env (world s) (address tia) ''setTREXFactory'' [AStr (address tf)] = (Inl e, w') \<longrightarrow>
      fst (configureTREXFactory env tia tf s) =
        (if includesStr (message e) ''already set'' \<or> includesStr (message e) ''same''
         then Inr () else Inl e))
   \<and> (\<not> iaFactoryConfigured (progress (deploymentState s)) \<longrightarrow>
      sendTx env (world s) (address tia) ''setIAFactory'' [AStr (address iaf)] = (Inl e, w') \<longrightarrow>
      fst (configureIAFactory env tia iaf s) =
        (if includesStr (message e) ''already set'' \<or> includesStr (message e) ''same''
         then Inr () else Inl e))"
proof -
  have v: "fst (configureVersion env tia impls s) = Inl e
      \<and> deploymentState (snd (configureVersion env tia impls s)) = deploymentState s
      \<and> stateFile (snd (configureVersion env tia impls s)) = stateFile s"
    if "\<not> truthy (map_of (contracts (deploymentState s)) ''TREXImplementationAuthority'')
      \<or> \<not> versionConfigured (progress (deploymentState s))"
     and "sendTx env (world s) (address tia) ''addAndUseTREXVersion'' (versionArgs impls) = (Inl e, w')"
    using that by (auto simp: configureVersion_cases)
  show ?thesis
    using v bnd_fatal [of "configureVersion env tia impls" s e f]
    by (auto simp: configureIdentityFactory_cases configureTREXFactory_cases
        configureIAFactory_cases)
qed

theorem configureVersion_no_recovery_witness:
  "\<not> versionConfigured (progress (deploymentState resumedState))
   \<and> sendTx revertingEnv (world resumedState) (address (Contract ''0xB1''))
        ''addAndUseTREXVersion''
        (versionArgs (Contract ''0xA1'', Contract ''0xA2'', Contract ''0xA3'', Contract ''0xA4'',
                      Contract ''0xA5'', Contract ''0xA6''))
      = (Inl (Error ''version already exists''), 500)
   \<and> fst (configureVersion revertingEnv (Contract ''0xB1'')
        (Contract ''0xA1'', Contract ''0xA2'', Contract ''0xA3'', Contract ''0xA4'',
         Contract ''0xA5'', Contract ''0xA6'') resumedState) = Inl (Error ''version already exists'')
   \<and> \<not> trexFactoryConfigured (progress (deploymentState resumedState))
   \<and> sendTx revertingEnv (world resumedState) (address (Contract ''0xB1'')) ''setTREXFactory''
        [AStr (address (Contract ''0xB2''))] = (Inl (Error ''factory already set''), 500)
   \<and> fst (configureTREXFactory revertingEnv (Contract ''0xB1'') (Contract ''0xB2'') resumedState)
      = Inr ()"
proof -
  let ?impls = "(Contract ''0xA1'', Contract ''0xA2'', Contract ''0xA3'', Contract ''0xA4'',
                 Contract ''0xA5'', Contract ''0xA6'')"
  have due: "\<not> versionConfigured (progress (deploymentState resumedState))"
    by (simp add: demo_defs)
  have rejected: "sendTx revertingEnv (world resumedState) (address (Contract ''0xB1''))
        ''addAndUseTREXVersion'' (versionArgs ?impls)
      = (Inl (Error ''version already exists''), 500)"
    by (simp add: demo_defs)
  have fatal: "fst (configureVersion revertingEnv (Contract ''0xB1'') ?impls resumedState)
      = Inl (Error ''version already exists'')"
    using configureVersion_no_recovery
      [where s = resumedState and env = revertingEnv and tia = "Contract ''0xB1''"
         and impls = ?impls and e = "Error ''version already exists''" and w' = 500]
      due rejected
    by blast
  have unset: "\<not> trexFactoryConfigured (progress (deploymentState resumedState))"
    by (simp add: demo_defs)
  have rejected': "sendTx revertingEnv (world resumedState) (address (Contract ''0xB1''))
        ''setTREXFactory'' [AStr (address (Contract ''0xB2''))]
      = (Inl (Error ''factory already set''), 500)"
    by (simp add: demo_defs)
  have known: "includesStr (message (Error ''factory already set'')) ''already set''"
    by simp
  have recovered:
    "fst (configureTREXFactory revertingEnv (Contract ''0xB1'') (Contract ''0xB2'') resumedState)
      = Inr ()"
    using configureVersion_no_recovery
      [where s = resumedState and env = revertingEnv and tia = "Contract ''0xB1''"
         and e = "Error ''factory already set''" and w' = 500 and tf = "Contract ''0xB2''"]
      unset rejected' known
    by presburger
  from due rejected fatal unset rejected' recovered show ?thesis
    by blast
qed




text \<open>
  C4, as the claim states it, fails for \<^verbatim>\<open>setTREXFactory\<close>: the rejection carries a
  known message and the flag is set in memory, but \<^verbatim>\<open>setIAFactory\<close> is then rejected
  with an unknown message, the run ends there, and the state file still has the flag
  unset.
\<close>

theorem recovered_flag_not_flushed_counterexample:
  "fst (step7 revertingEnv (Contract ''0xB1'') (Contract ''0xB2'') (Contract ''0xB3'') resumedState)
     = Inl (Error ''out of gas'')
   \<and> trexFactoryConfigured (progress (deploymentState
        (snd (step7 revertingEnv (Contract ''0xB1'') (Contract ''0xB2'') (Contract ''0xB3'')
                resumedState))))
   \<and> map_option (\<lambda>ds. trexFactoryConfigured (progress ds))
        (parseStateFile (stateFile
          (snd (step7 revertingEnv (Contract ''0xB1'') (Contract ''0xB2'') (Contract ''0xB3'')
                  resumedState)))) = Some False"
  by (simp add: step7_def bnd_def updateProgress_cases saveDeploymentState_cases
      configureTREXFactory_cases configureIAFactory_cases parseStateFile_def recordContract_def
      demo_defs)

text \<open>
  C4, amended. For each of the three actions with a \<^verbatim>\<open>catch\<close>: when the flag is unset
  and the transaction is rejected with a message that contains one of the action's
  substrings, the action returns normally with the flag set in memory; with any other
  message the error propagates and the state in memory is unchanged. The action itself
  writes nothing. The flag reaches the state file with the progress update that ends
  the step: whenever step 5 returns normally the file has \<^verbatim>\<open>identityFactoryConfigured\<close>
  set, and whenever step 7 returns normally it has both step-7 flags set.
\<close>

theorem config_action_recovery:
  "(\<not> identityFactoryConfigured (progress (deploymentState s)) \<longrightarrow>
      sendTx env (world s) (address idf) ''addTokenFactory'' [AStr (address tf)] = (Inl e, w') \<longrightarrow>
      (if includesStr (message e) ''already a TokenFactory''
       then fst (configureIdentityFactory env idf tf s) = Inr ()
          \<and> identityFactoryConfigured
              (progress (deploymentState (snd (configureIdentityFactory env idf tf s))))
       else fst (configureIdentityFactory env idf tf s) = Inl e
          \<and> deploymentState (snd (configureIdentityFactory env idf tf s)) = deploymentState s)
      \<and> stateFile (snd (configureIdentityFactory env idf tf s)) = stateFile s)
   \<and> (\<not> trexFactoryConfigured (progress (deploymentState s)) \<longrightarrow>
      sendTx env (world s) (address tia) ''setTREXFactory'' [AStr (address tf)] = (Inl e, w') \<longrightarrow>
      (if includesStr (message e) ''already set'' \<or> includesStr (message e) ''same''
       then fst (configureTREXFactory env tia tf s) = Inr ()
          \<and> trexFactoryConfigured
              (progress (deploymentState (snd (configureTREXFactory env tia tf s))))
       else fst (configureTREXFactory env tia tf s) = Inl e
          \<and> deploymentState (snd (configureTREXFactory env tia tf s)) = deploymentState s)
      \<and> stateFile (snd (configureTREXFactory env tia tf s)) = stateFile s)
   \<and> (\<not> iaFactoryConfigured (progress (deploymentState s)) \<longrightarrow>
      sendTx env (world s) (address tia) ''setIAFactory'' [AStr (address iaf)] = (Inl e, w') \<longrightarrow>
      (if includesStr (message e) ''already set'' \<or> includesStr (message e) ''same''
       then fst (configureIAFactory env tia iaf s) = Inr ()
          \<and> iaFactoryConfigured
              (progress (deploymentState (snd (configureIAFactory env tia iaf s))))
       else fst (configureIAFactory env tia iaf s) = Inl e
          \<and> deploymentState (snd (configureIAFactory env tia iaf s)) = deploymentState s)
      \<and> stateFile (snd (configureIAFactory env tia iaf s)) = stateFile s)
   \<and> (fst (step5 env idf tf s) = Inr () \<longrightarrow>
      map_option (\<lambda>ds. identityFactoryConfigured (progress ds))
        (parseStateFile (stateFile (snd (step5 env idf tf s)))) = Some True)
   \<and> (fst (step7 env tia tf iaf s) = Inr () \<longrightarrow>
      map_option (\<lambda>ds. trexFactoryConfigured (progress ds) \<and> iaFactoryConfigured (progress ds))
        (parseStateFile (stateFile (snd (step7 env tia tf iaf s)))) = Some True)"
proof -
  have five: "map_option (\<lambda>ds. identityFactoryConfigured (progress ds))
        (parseStateFile (stateFile (snd (step5 env idf tf s)))) = Some True"
    if "fst (step5 env idf tf s) = Inr ()"
    using that step5_flag_stored [of env idf tf s "()" "snd (step5 env idf tf s)"]
    by (simp add: prod_eq_iff)
  have seven: "map_option
        (\<lambda>ds. trexFactoryConfigured (progress ds) \<and> iaFactoryConfigured (progress ds))
        (parseStateFile (stateFile (snd (step7 env tia tf iaf s)))) = Some True"
    if "fst (step7 env tia tf iaf s) = Inr ()"
    using that step7_flags_stored [of env tia tf iaf s "()" "snd (step7 env tia tf iaf s)"]
    by (simp add: prod_eq_iff)
  show ?thesis
    using five seven
    by (simp add: configureIdentityFactory_cases configureTREXFactory_cases
        configureIAFactory_cases)
qed

theorem config_action_recovery_witness:
  "\<not> trexFactoryConfigured (progress (deploymentState resumedState))
   \<and> sendTx revertingEnv (world resumedState) (address (Contract ''0xB1'')) ''setTREXFactory''
        [AStr (address (Contract ''0xB2''))] = (Inl (Error ''factory already set''), 500)
   \<and> includesStr (message (Error ''factory already set'')) ''already set''
   \<and> fst (configureTREXFactory revertingEnv (Contract ''0xB1'') (Contract ''0xB2'') resumedState)
       = Inr ()
   \<and> trexFactoryConfigured (progress (deploymentState
        (snd (configureTREXFactory revertingEnv (Contract ''0xB1'') (Contract ''0xB2'')
                resumedState))))
   \<and> stateFile (snd (configureTREXFactory revertingEnv (Contract ''0xB1'') (Contract ''0xB2'')
                        resumedState)) = stateFile resumedState
   \<and> \<not> iaFactoryConfigured (progress (deploymentState resumedState))
   \<and> sendTx revertingEnv (world resumedState) (address (Contract ''0xB1'')) ''setIAFactory''
        [AStr (address (Contract ''0xB3''))] = (Inl (Error ''out of gas''), 500)
   \<and> \<not> (includesStr (message (Error ''out of gas'')) ''already set''
         \<or> includesStr (message (Error ''out of gas'')) ''same'')
   \<and> fst (configureIAFactory revertingEnv (Contract ''0xB1'') (Contract ''0xB3'') resumedState)
       = Inl (Error ''out of gas'')
   \<and> deploymentState (snd (configureIAFactory revertingEnv (Contract ''0xB1'')
                               (Contract ''0xB3'') resumedState)) = deploymentState resumedState
   \<and> fst (step5 revertingEnv (Contract ''0xB4'') (Contract ''0xB2'') resumedState) = Inr ()
   \<and> map_option (\<lambda>ds. identityFactoryConfigured (progress ds))
        (parseStateFile (stateFile
          (snd (step5 revertingEnv (Contract ''0xB4'') (Contract ''0xB2'') resumedState))))
       = Some True"
proof -
  have unset: "\<not> trexFactoryConfigured (progress (deploymentState resumedState))"
    by (simp add: demo_defs)
  have rejected: "sendTx revertingEnv (world resumedState) (address (Contract ''0xB1''))
        ''setTREXFactory'' [AStr (address (Contract ''0xB2''))]
      = (Inl (Error ''factory already set''), 500)"
    by (simp add: demo_defs)
  have known: "includesStr (message (Error ''factory already set'')) ''already set''"
    by simp
  have unset': "\<not> iaFactoryConfigured (progress (deploymentState resumedState))"
    by (simp add: demo_defs)
  have rejected': "sendTx revertingEnv (world resumedState) (address (Contract ''0xB1''))
        ''setIAFactory'' [AStr (address (Contract ''0xB3''))] = (Inl (Error ''out of gas''), 500)"
    by (simp add: demo_defs)
  have unknown: "\<not> (includesStr (message (Error ''out of gas'')) ''already set''
         \<or> includesStr (message (Error ''out of gas'')) ''same'')"
    by simp
  have five: "fst (step5 revertingEnv (Contract ''0xB4'') (Contract ''0xB2'') resumedState) = Inr ()"
    by (simp add: step5_def bnd_def updateProgress_cases saveDeploymentState_cases
        configureIdentityFactory_cases recordContract_def demo_defs)
  note thm1 = config_action_recovery
      [where s = resumedState and env = revertingEnv and tia = "Contract ''0xB1''"
         and tf = "Contract ''0xB2''" and e = "Error ''factory already set''" and w' = 500]
  note thm2 = config_action_recovery
      [where s = resumedState and env = revertingEnv and tia = "Contract ''0xB1''"
         and iaf = "Contract ''0xB3''" and e = "Error ''out of gas''" and w' = 500]
  note thm3 = config_action_recovery
      [where s = resumedState and env = revertingEnv and idf = "Contract ''0xB4''"
         and tf = "Contract ''0xB2''"]
  have a: "fst (configureTREXFactory revertingEnv (Contract ''0xB1'') (Contract ''0xB2'')
                  resumedState) = Inr ()
      \<and> trexFactoryConfigured (progress (deploymentState
           (snd (configureTREXFactory revertingEnv (Contract ''0xB1'') (Contract ''0xB2'')
                   resumedState))))
      \<and> stateFile (snd (configureTREXFactory revertingEnv (Contract ''0xB1'') (Contract ''0xB2'')
                           resumedState)) = stateFile resumedState"
    using thm1 unset rejected known by presburger
  have b: "fst (configureIAFactory revertingEnv (Contract ''0xB1'') (Contract ''0xB3'')
                  resumedState) = Inl (Error ''out of gas'')
      \<and> deploymentState (snd (configureIAFactory revertingEnv (Contract ''0xB1'')
                                  (Contract ''0xB3'') resumedState)) = deploymentState resumedState"
    using thm2 unset' rejected' unknown by presburger
  have c: "map_option (\<lambda>ds. identityFactoryConfigured (progress ds))
        (parseStateFile (stateFile
          (snd (step5 revertingEnv (Contract ''0xB4'') (Contract ''0xB2'') resumedState))))
       = Some True"
    using thm3 five by blast
  from unset rejected known a unset' rejected' unknown b five c show ?thesis
    by blast
qed

text \<open>
  C3, as the claim states it, fails: a run without the force flag finds a state file at
  step 2, and its first save, made before anything is deployed, stores step 1.
\<close>

theorem step_regresses_on_resume_counterexample:
  "map_option (\<lambda>ds. step (progress ds)) (parseStateFile (stateFile resumeStart)) = Some 2
   \<and> map_option (\<lambda>ds. step (progress ds))
        (parseStateFile (stateFile (snd (main noArtifactsEnv False resumeStart)))) = Some 1"
  by (simp add: interrupted_run parseStateFile_def) (simp add: demo_defs)

text \<open>
  C3, amended. Within one run the saved step numbers never decrease, and the first
  save of a run, forced or resumed, has step 0 or step 1 whatever step the state file
  held: the step number falls back at the first save of a resumed run.
\<close>

theorem saved_steps_within_run:
  assumes "trace s = []"
  shows "sorted (saveSteps (trace (snd (main env force s))))
       \<and> startsLow (saveSteps (trace (snd (main env force s))))"
proof -
  obtain r s' where run: "main env force s = (r, s')" by (cases "main env force s")
  from main_outcome [OF assms run] assms
  have "sorted (saveSteps (trace s')) \<and> startsLow (saveSteps (trace s'))"
    by (cases r) (auto simp: leftEarly_def finishedRun_def abortedRun_def)
  with run show ?thesis by simp
qed

theorem saved_steps_within_run_witness:
  "trace resumeStart = []
   \<and> sorted (saveSteps (trace (snd (main noArtifactsEnv False resumeStart))))
   \<and> startsLow (saveSteps (trace (snd (main noArtifactsEnv False resumeStart))))
   \<and> saveSteps (trace (snd (main noArtifactsEnv False resumeStart))) = [1]"
proof -
  have start: "trace resumeStart = []"
    by (simp add: demo_defs)
  from saved_steps_within_run [OF start, of noArtifactsEnv False] start show ?thesis
    by (simp add: interrupted_run)
qed

text \<open>
  C7. In every run that starts with an empty log: a state is saved with the completion
  mark only with a completion time, at step 8 and with the four configuration flags
  set; a run that returns either left early on a completed state file or ends with the
  save of the marked state followed by exactly one archival copy of that state, with
  no copy and no marked save before; a run that throws has written no copy.
\<close>

theorem completion_mark:
  assumes "trace s = []"
  shows "(\<forall>ds. EvSave ds \<in> set (trace (snd (main env force s))) \<longrightarrow> completed ds \<longrightarrow>
            doneLedger (fst (clock env (world s))) ds)
       \<and> (fst (main env force s) = Inr () \<longrightarrow>
            leftEarly force s (snd (main env force s))
            \<or> finishedRun (fst (clock env (world s))) (stateFile s) (backupFiles s)
                 (snd (main env force s)))
       \<and> (isl (fst (main env force s)) \<longrightarrow>
            backupFiles (snd (main env force s)) = backupFiles s
            \<and> (\<forall>ms ds. EvBackup ms ds \<notin> set (trace (snd (main env force s)))))"
proof -
  obtain r s' where run: "main env force s = (r, s')" by (cases "main env force s")
  let ?t0 = "fst (clock env (world s))"
  note out = main_outcome [OF assms run]
  have marked: "\<forall>ds. EvSave ds \<in> set (trace s') \<longrightarrow> completed ds \<longrightarrow> doneLedger ?t0 ds"
    using out assms
    by (cases r) (auto simp: leftEarly_def finishedRun_def abortedRun_def dest: plainLog_saves)
  have returned: "leftEarly force s s' \<or> finishedRun ?t0 (stateFile s) (backupFiles s) s'"
    if "r = Inr ()"
    using out that by simp
  have thrown: "backupFiles s' = backupFiles s \<and> (\<forall>ms ds. EvBackup ms ds \<notin> set (trace s'))"
    if "isl r"
    using out that by (cases r) (auto simp: abortedRun_def dest: plainLog_no_backup)
  from marked returned thrown run show ?thesis by simp
qed

theorem completion_mark_witness:
  "trace demoStart = []
   \<and> fst (main demoEnv True demoStart) = Inr ()
   \<and> finishedRun (fst (clock demoEnv (world demoStart))) (stateFile demoStart)
        (backupFiles demoStart) (snd (main demoEnv True demoStart))"
proof -
  have start: "trace demoStart = []"
    by (simp add: demo_defs)
  have returns: "fst (main demoEnv True demoStart) = Inr ()"
    by (rule main_returns [OF cooperative_demoEnv])
  from completion_mark [OF start, of demoEnv True] returns start show ?thesis
    by (simp add: leftEarly_def)
qed

text \<open>
  C8, as the claim states it, fails: a run without the force flag finds a state file
  with time stamp 100, starts at time 500, and its first save stores time stamp 500.
\<close>

theorem timestamp_overwritten_on_resume_counterexample:
  "map_option timestamp (parseStateFile (stateFile resumeStart)) = Some 100
   \<and> map_option timestamp
        (parseStateFile (stateFile (snd (main noArtifactsEnv False resumeStart)))) = Some 500"
  by (simp add: interrupted_run parseStateFile_def) (simp add: demo_defs)

text \<open>
  C8, amended. The time stamp of the state is the start time of the run that wrote it:
  every state that a run saves, resumed or not, carries the time at which that run
  started, so the state file either is untouched or holds that time. The stored time
  stamp survives a run only when the run saves nothing, as a run without the force
  flag does on a completed state file.
\<close>

theorem timestamp_is_start_of_run:
  assumes "trace s = []"
  shows "(\<forall>ds. EvSave ds \<in> set (trace (snd (main env force s))) \<longrightarrow>
            timestamp ds = fst (clock env (world s)))
       \<and> (stateFile (snd (main env force s)) = stateFile s
          \<or> (\<exists>ds. stateFile (snd (main env force s)) = LedgerFile ds
                \<and> timestamp ds = fst (clock env (world s))))
       \<and> (\<not> force \<longrightarrow> (\<exists>ds. parseStateFile (stateFile s) = Some ds \<and> completed ds) \<longrightarrow>
            stateFile (snd (main env force s)) = stateFile s
            \<and> trace (snd (main env force s)) = [])"
proof -
  obtain r s' where run: "main env force s = (r, s')" by (cases "main env force s")
  let ?t0 = "fst (clock env (world s))"
  note out = main_outcome [OF assms run]
  have saves: "\<forall>ds. EvSave ds \<in> set (trace s') \<longrightarrow> timestamp ds = ?t0"
    using out assms
    by (cases r)
      (auto simp: leftEarly_def finishedRun_def abortedRun_def doneLedger_def
        dest: plainLog_saves)
  have stored: "stateFile s' = fileAfter (stateFile s) (trace s')"
    using out assms
    by (cases r) (auto simp: leftEarly_def finishedRun_def abortedRun_def)
  from fileAfter_cases [of "stateFile s" "trace s'"] saves stored
  have "stateFile s' = stateFile s \<or> (\<exists>ds. stateFile s' = LedgerFile ds \<and> timestamp ds = ?t0)"
    by auto
  with saves run main_completed [of s _ env] assms show ?thesis
    by auto
qed

theorem timestamp_is_start_of_run_witness:
  "trace resumeStart = []
   \<and> stateFile (snd (main noArtifactsEnv False resumeStart))
       = LedgerFile (interruptedLedger
           \<lparr>timestamp := 500,
            progress := (progress interruptedLedger)
              \<lparr>step := 1, description := ''Starting implementation contracts deployment'',
               lastUpdated := Some 501\<rparr>\<rparr>)
   \<and> fst (clock noArtifactsEnv (world resumeStart)) = 500
   \<and> trace completedStart = []
   \<and> map_option completed (parseStateFile (stateFile completedStart)) = Some True
   \<and> stateFile (snd (main demoEnv False completedStart)) = stateFile completedStart
   \<and> trace (snd (main demoEnv False completedStart)) = []"
proof -
  have start: "trace resumeStart = []" "trace completedStart = []"
    by (simp_all add: demo_defs)
  have marked: "\<exists>ds. parseStateFile (stateFile completedStart) = Some ds \<and> completed ds"
    by (simp add: parseStateFile_def demo_defs)
  have "stateFile (snd (main demoEnv False completedStart)) = stateFile completedStart
      \<and> trace (snd (main demoEnv False completedStart)) = []"
    using timestamp_is_start_of_run [OF start(2), of demoEnv False] marked by blast
  moreover have "map_option completed (parseStateFile (stateFile completedStart)) = Some True"
    by (simp add: parseStateFile_def demo_defs)
  moreover have "fst (clock noArtifactsEnv (world resumeStart)) = 500"
    by (simp add: demo_defs)
  ultimately show ?thesis
    using start interrupted_run(2) by simp
qed

text \<open>
  C6. A run with the force flag never reads the state file: whatever the file holds,
  the load phase leaves a state in memory with no contracts, the initial progress
  object (step 0, no flag), no completion mark and no deployer. Every state that the
  run saves records only units for which this run has issued a deploy call and only
  flags for which it has sent the transaction. When the run returns, it has issued the
  twelve deploy calls and the four configuration transactions of the plan, each once
  and in the order of the plan.
\<close>

theorem forced_run_starts_afresh:
  assumes "trace s = []"
  shows "(\<forall>accounts finished. fst (loadPhase env True s) = Inr (accounts, finished) \<longrightarrow>
            \<not> finished
            \<and> contracts (deploymentState (snd (loadPhase env True s))) = []
            \<and> progress (deploymentState (snd (loadPhase env True s)))
                = initialProgress ''Force redeployment starting...''
            \<and> \<not> completed (deploymentState (snd (loadPhase env True s)))
            \<and> completedAt (deploymentState (snd (loadPhase env True s))) = None
            \<and> deployer (deploymentState (snd (loadPhase env True s))) = None
            \<and> stateFile (snd (loadPhase env True s)) = stateFile s
            \<and> trace (snd (loadPhase env True s)) = [])
       \<and> fst (loadPhase env True (s\<lparr>stateFile := f\<rparr>)) = fst (loadPhase env True s)
       \<and> deploymentState (snd (loadPhase env True (s\<lparr>stateFile := f\<rparr>)))
           = deploymentState (snd (loadPhase env True s))
       \<and> accountedLog (trace (snd (main env True s)))
       \<and> (fst (main env True s) = Inr () \<longrightarrow> callsOf (trace (snd (main env True s))) = planCalls)"
proof -
  obtain r s' where run: "main env True s = (r, s')" by (cases "main env True s")
  have logged: "accountedLog (trace s')"
  proof (cases r)
    case (Inl e)
    with hoareD_Inl [OF forced_main [OF assms] refl, of env e s'] run show ?thesis by simp
  next
    case (Inr u)
    with hoareD_Inr [OF forced_main [OF assms] refl, of env u s'] run show ?thesis by simp
  qed
  have calls: "callsOf (trace s') = planCalls" if "r = Inr ()"
    using hoareD_Inr [OF forced_main [OF assms] refl, of env "()" s'] run that by simp
  have fresh: "\<not> finished
            \<and> contracts (deploymentState (snd (loadPhase env True s))) = []
            \<and> progress (deploymentState (snd (loadPhase env True s)))
                = initialProgress ''Force redeployment starting...''
            \<and> \<not> completed (deploymentState (snd (loadPhase env True s)))
            \<and> completedAt (deploymentState (snd (loadPhase env True s))) = None
            \<and> deployer (deploymentState (snd (loadPhase env True s))) = None
            \<and> stateFile (snd (loadPhase env True s)) = stateFile s
            \<and> trace (snd (loadPhase env True s)) = []"
    if "fst (loadPhase env True s) = Inr (accounts, finished)" for accounts finished
    using that assms
    by (auto simp: loadPhase_forced initialState_def split: prod.splits sum.splits)
  have blind: "fst (loadPhase env True (s\<lparr>stateFile := f\<rparr>)) = fst (loadPhase env True s)
       \<and> deploymentState (snd (loadPhase env True (s\<lparr>stateFile := f\<rparr>)))
           = deploymentState (snd (loadPhase env True s))"
    by (auto simp: loadPhase_forced split: prod.splits sum.splits)
  from run logged have one: "accountedLog (trace (snd (main env True s)))"
    by simp
  from run calls
  have two: "fst (main env True s) = Inr () \<longrightarrow>
      callsOf (trace (snd (main env True s))) = planCalls"
    by simp
  from fresh blind one two show ?thesis
    by blast
qed

theorem forced_run_starts_afresh_witness:
  "trace completedStart = []
   \<and> map_option (\<lambda>ds. (completed ds, length (contracts ds), versionConfigured (progress ds)))
        (parseStateFile (stateFile completedStart)) = Some (True, 12, True)
   \<and> fst (loadPhase demoEnv True completedStart) = Inr ([''0xACC''], False)
   \<and> contracts (deploymentState (snd (loadPhase demoEnv True completedStart))) = []
   \<and> progress (deploymentState (snd (loadPhase demoEnv True completedStart)))
       = initialProgress ''Force redeployment starting...''
   \<and> \<not> completed (deploymentState (snd (loadPhase demoEnv True completedStart)))
   \<and> fst (main demoEnv True completedStart) = Inr ()
   \<and> callsOf (trace (snd (main demoEnv True completedStart))) = planCalls"
proof -
  have start: "trace completedStart = []"
    by (simp add: demo_defs)
  have stored: "map_option
        (\<lambda>ds. (completed ds, length (contracts ds), versionConfigured (progress ds)))
        (parseStateFile (stateFile completedStart)) = Some (True, 12, True)"
    by (simp add: parseStateFile_def demo_defs)
  have loaded: "fst (loadPhase demoEnv True completedStart) = Inr ([''0xACC''], False)"
    by (simp add: loadPhase_forced demo_defs)
  have returns: "fst (main demoEnv True completedStart) = Inr ()"
    by (rule main_returns [OF cooperative_demoEnv])
  note inst = forced_run_starts_afresh [OF start, of demoEnv]
  from inst loaded
  have fresh: "contracts (deploymentState (snd (loadPhase demoEnv True completedStart))) = []
      \<and> progress (deploymentState (snd (loadPhase demoEnv True completedStart)))
          = initialProgress ''Force redeployment starting...''
      \<and> \<not> completed (deploymentState (snd (loadPhase demoEnv True completedStart)))"
    by blast
  from inst returns
  have calls: "callsOf (trace (snd (main demoEnv True completedStart))) = planCalls"
    by blast
  from start stored loaded fresh returns calls show ?thesis
    by blast
qed

end
